(* ===== verification/GoStd.thy ===== *)
theory GoStd
  imports Main "HOL-Library.Sublist" "HOL-Library.AList"
begin

text \<open>
  The part of the Go standard library the driver's own logic relies on, over byte
  strings: \<open>strings\<close> (prefixes, \<open>Contains\<close>, \<open>Split\<close>, \<open>Cut\<close>, \<open>Join\<close>, \<open>ToLower\<close>),
  \<open>path\<close> / \<open>path/filepath\<close> on Linux (\<open>Clean\<close>, \<open>Join\<close>, \<open>Dir\<close>, \<open>Base\<close>, \<open>IsAbs\<close>)
  and \<open>strconv\<close> (\<open>ParseInt\<close>, \<open>FormatInt\<close>, \<open>ParseBool\<close>). A Go \<open>string\<close> is a
  \<open>char list\<close>, one \<open>char\<close> a byte; \<open>to_lower\<close> is Go's \<open>ToLower\<close> on ASCII text.

  A Go map is an association list: its order is the order in which one particular
  iteration visits the keys, and since every theorem holds for every list, it holds for
  every iteration order Go may choose.
\<close>

section \<open>Collections of facts\<close>

named_theorems go_simps \<open>evaluation rules of the Go library functions\<close>

section \<open>strings\<close>

definition has_prefix :: "string \<Rightarrow> string \<Rightarrow> bool" where
  "has_prefix s p \<longleftrightarrow> prefix p s"

fun str_contains :: "string \<Rightarrow> string \<Rightarrow> bool" where
  "str_contains [] sub \<longleftrightarrow> sub = []"
| "str_contains (c # s) sub \<longleftrightarrow> prefix sub (c # s) \<or> str_contains s sub"

fun split_on :: "char \<Rightarrow> string \<Rightarrow> string list" where
  "split_on d [] = [[]]"
| "split_on d (c # s) =
     (if c = d then [] # split_on d s
      else (case split_on d s of [] \<Rightarrow> [[c]] | w # ws \<Rightarrow> (c # w) # ws))"

fun str_join :: "string \<Rightarrow> string list \<Rightarrow> string" where
  "str_join sep [] = []"
| "str_join sep [w] = w"
| "str_join sep (w # v # ws) = w @ sep @ str_join sep (v # ws)"

text \<open>\<open>strings.Cut\<close> at a one-byte separator: the parts before and after, and whether found.\<close>

fun str_cut :: "char \<Rightarrow> string \<Rightarrow> string \<times> string \<times> bool" where
  "str_cut d [] = ([], [], False)"
| "str_cut d (c # s) =
     (if c = d then ([], s, True)
      else (case str_cut d s of (a, b, f) \<Rightarrow> (c # a, b, f)))"

definition lower_char :: "char \<Rightarrow> char" where
  "lower_char c = (if 65 \<le> (of_char c :: nat) \<and> (of_char c :: nat) \<le> 90
                   then char_of ((of_char c :: nat) + 32) else c)"

definition to_lower :: "string \<Rightarrow> string" where
  "to_lower s = map lower_char s"

definition is_digit_char :: "char \<Rightarrow> bool" where
  "is_digit_char c \<longleftrightarrow> 48 \<le> (of_char c :: nat) \<and> (of_char c :: nat) \<le> 57"

definition is_lower_char :: "char \<Rightarrow> bool" where
  "is_lower_char c \<longleftrightarrow> 97 \<le> (of_char c :: nat) \<and> (of_char c :: nat) \<le> 122"

definition is_upper_char :: "char \<Rightarrow> bool" where
  "is_upper_char c \<longleftrightarrow> 65 \<le> (of_char c :: nat) \<and> (of_char c :: nat) \<le> 90"

definition is_alnum_char :: "char \<Rightarrow> bool" where
  "is_alnum_char c \<longleftrightarrow> is_digit_char c \<or> is_lower_char c \<or> is_upper_char c"

lemma split_on_nonempty [simp]: "split_on d s \<noteq> []"
  by (cases s) (auto split: list.splits)

lemma split_on_Cons_neq:
  assumes "c \<noteq> d"
  shows "split_on d (c # s) = (c # hd (split_on d s)) # tl (split_on d s)"
  using assms by (cases "split_on d s") auto

lemma split_on_no_sep: "\<forall>w \<in> set (split_on d s). d \<notin> set w"
proof (induction s)
  case Nil
  then show ?case by simp
next
  case (Cons c s)
  then show ?case by (auto split: list.splits)
qed

lemma split_on_id: "d \<notin> set s \<Longrightarrow> split_on d s = [s]"
  by (induction s) auto

lemma split_on_append_sep: "split_on d (s @ d # t) = split_on d s @ split_on d t"
proof (induction s)
  case Nil
  then show ?case by simp
next
  case (Cons c s)
  then show ?case by (cases "split_on d s") auto
qed

lemma str_join_split_on [simp]: "str_join [d] (split_on d s) = s"
proof (induction s)
  case Nil
  then show ?case by simp
next
  case (Cons c s)
  obtain w ws where w: "split_on d s = w # ws" by (cases "split_on d s") auto
  with Cons show ?case by (cases ws) auto
qed

lemma split_on_str_join:
  "ws \<noteq> [] \<Longrightarrow> \<forall>w \<in> set ws. d \<notin> set w \<Longrightarrow> split_on d (str_join [d] ws) = ws"
proof (induction "[d]" ws rule: str_join.induct)
  case (3 w v ws)
  then show ?case by (simp add: split_on_append_sep split_on_id)
qed (auto simp: split_on_id)

lemma str_contains_prefixI: "prefix t s \<Longrightarrow> str_contains s t"
  by (cases s) auto

lemma str_contains_append: "str_contains (a @ s @ b) s"
proof (induction a)
  case Nil
  then show ?case by (simp add: str_contains_prefixI)
next
  case (Cons c a)
  then show ?case by simp
qed

lemma str_contains_refl: "str_contains s s"
  using str_contains_append [of "[]" s "[]"] by simp

lemma str_contains_prefix: "str_contains (s @ b) s"
  using str_contains_append [of "[]" s b] by simp

section \<open>path and path/filepath (Linux)\<close>

definition path_is_abs :: "string \<Rightarrow> bool" where
  "path_is_abs p \<longleftrightarrow> has_prefix p ''/''"

text \<open>
  \<open>path.Clean\<close> works on the slash-separated elements: empty and \<open>.\<close> elements go, a
  \<open>..\<close> removes the element before it, at the root of a rooted path it is dropped, and at
  the start of a relative one it stays. \<open>clean_elems\<close> keeps the elements written so far,
  last first, as \<open>Clean\<close>'s output buffer does.
\<close>

fun clean_elems :: "bool \<Rightarrow> string list \<Rightarrow> string list \<Rightarrow> string list" where
  "clean_elems rooted out [] = rev out"
| "clean_elems rooted out (e # es) =
     (if e = '''' \<or> e = ''.'' then clean_elems rooted out es
      else if e = ''..'' then
        (case out of
           [] \<Rightarrow> if rooted then clean_elems rooted [] es else clean_elems rooted [''..''] es
         | o1 # out' \<Rightarrow>
             if o1 = ''..'' then clean_elems rooted (''..'' # out) es
             else clean_elems rooted out' es)
      else clean_elems rooted (e # out) es)"

definition path_clean :: "string \<Rightarrow> string" where
  "path_clean p =
     (let rooted = path_is_abs p;
          body = str_join ''/'' (clean_elems rooted [] (split_on CHR ''/'' p))
      in if rooted then CHR ''/'' # body
         else if body = '''' then ''.'' else body)"

definition path_join :: "string list \<Rightarrow> string" where
  "path_join es =
     (let rest = dropWhile (\<lambda>e. e = '''') es
      in if rest = [] then '''' else path_clean (str_join ''/'' rest))"

text \<open>\<open>path.Split\<close>: everything up to and including the last slash, and what follows it.\<close>

definition path_split :: "string \<Rightarrow> string \<times> string" where
  "path_split p =
     (let r = rev p
      in (rev (dropWhile (\<lambda>c. c \<noteq> CHR ''/'') r), rev (takeWhile (\<lambda>c. c \<noteq> CHR ''/'') r)))"

definition path_dir :: "string \<Rightarrow> string" where
  "path_dir p = path_clean (fst (path_split p))"

definition path_base :: "string \<Rightarrow> string" where
  "path_base p =
     (if p = '''' then ''.''
      else let s = rev (dropWhile (\<lambda>c. c = CHR ''/'') (rev p))
           in if s = '''' then ''/'' else snd (path_split s))"

text \<open>
  A rooted, cleaned path is a slash followed by its elements, none of which is empty, a
  dot, a double dot, or holds a slash. \<open>abs_path\<close> builds such a path from its elements;
  every fact about \<open>Clean\<close>, \<open>Dir\<close>, \<open>Base\<close> and \<open>Join\<close> below is about this form.
\<close>

definition plain_elem :: "string \<Rightarrow> bool" where
  "plain_elem e \<longleftrightarrow> e \<noteq> '''' \<and> e \<noteq> ''.'' \<and> e \<noteq> ''..'' \<and> CHR ''/'' \<notin> set e"

definition abs_path :: "string list \<Rightarrow> string" where
  "abs_path es = CHR ''/'' # str_join ''/'' es"

lemma clean_elems_plain:
  "list_all plain_elem es \<Longrightarrow> clean_elems rooted out es = rev out @ es"
  by (induction es arbitrary: out) (auto simp: plain_elem_def)

lemma clean_elems_rooted_plain:
  "\<forall>e \<in> set es. CHR ''/'' \<notin> set e \<Longrightarrow> list_all plain_elem out \<Longrightarrow>
   list_all plain_elem (clean_elems True out es)"
proof (induction "True" out es rule: clean_elems.induct)
  case (2 out e es)
  then show ?case
    by (auto simp: plain_elem_def split: list.splits)
qed (simp add: list_all_iff)

lemma split_slash_abs_path:
  assumes "list_all plain_elem es"
  shows "split_on CHR ''/'' (abs_path es) = [] # (if es = [] then [[]] else es)"
  using assms by (auto simp: abs_path_def plain_elem_def list_all_iff split_on_str_join)

lemma path_is_abs_iff: "path_is_abs p \<longleftrightarrow> (\<exists>s. p = CHR ''/'' # s)"
  by (auto simp: path_is_abs_def has_prefix_def prefix_def)

lemma path_is_abs_abs_path [simp]: "path_is_abs (abs_path es)"
  by (simp add: abs_path_def path_is_abs_iff)

lemma path_clean_abs_path [simp]:
  assumes "list_all plain_elem es"
  shows "path_clean (abs_path es) = abs_path es"
proof -
  have "clean_elems True [] (split_on CHR ''/'' (abs_path es)) = es"
    using assms clean_elems_plain [of es True "[]"]
    by (simp add: split_slash_abs_path)
  then show ?thesis by (simp add: path_clean_def) (simp add: abs_path_def)
qed

lemma path_clean_rooted:
  assumes "path_is_abs p"
  obtains es where "list_all plain_elem es" and "path_clean p = abs_path es"
proof
  show "list_all plain_elem (clean_elems True [] (split_on CHR ''/'' p))"
    by (rule clean_elems_rooted_plain) (auto simp: split_on_no_sep)
  show "path_clean p = abs_path (clean_elems True [] (split_on CHR ''/'' p))"
    using assms by (simp add: path_clean_def abs_path_def)
qed

lemma path_clean_idem_rooted: "path_is_abs p \<Longrightarrow> path_clean (path_clean p) = path_clean p"
  by (erule path_clean_rooted) simp

lemma path_clean_abs: "path_is_abs p \<Longrightarrow> path_is_abs (path_clean p)"
  by (erule path_clean_rooted) simp

lemma str_join_snoc:
  "es \<noteq> [] \<Longrightarrow> str_join sep (es @ [e]) = str_join sep es @ sep @ e"
  by (induction sep es rule: str_join.induct) auto

lemma path_split_abs_path_snoc:
  assumes "CHR ''/'' \<notin> set e"
  shows "path_split (abs_path (es @ [e])) =
    (if es = [] then ''/'' else abs_path es @ ''/'', e)"
proof -
  have split: "path_split (x @ CHR ''/'' # e) = (x @ ''/'', e)" for x
    using assms by (auto simp: path_split_def dropWhile_append takeWhile_append)
  have "abs_path (es @ [e]) = (if es = [] then [] else abs_path es) @ CHR ''/'' # e"
    by (auto simp: abs_path_def str_join_snoc)
  then show ?thesis by (simp add: split)
qed

lemma path_clean_trailing_slash:
  assumes "list_all plain_elem es"
  shows "path_clean (abs_path es @ ''/'') = abs_path es"
proof -
  have "split_on CHR ''/'' (abs_path es @ CHR ''/'' # []) =
      split_on CHR ''/'' (abs_path es) @ [[]]"
    by (subst split_on_append_sep) simp
  moreover have "clean_elems True out (es @ [[]]) = rev out @ es" for out
    using assms by (induction es arbitrary: out) (auto simp: plain_elem_def)
  ultimately have "clean_elems True [] (split_on CHR ''/'' (abs_path es @ ''/'')) = es"
    using assms by (simp add: split_slash_abs_path)
  moreover have "path_is_abs (abs_path es @ ''/'')"
    by (simp add: path_is_abs_iff abs_path_def)
  ultimately show ?thesis by (simp add: path_clean_def) (simp add: abs_path_def)
qed

lemma path_clean_root [simp]: "path_clean ''/'' = ''/''"
  by (simp add: path_clean_def path_is_abs_iff)

lemma path_dir_abs_path_snoc [simp]:
  assumes "list_all plain_elem (es @ [e])"
  shows "path_dir (abs_path (es @ [e])) = abs_path es"
proof -
  from assms have "CHR ''/'' \<notin> set e" and "list_all plain_elem es"
    by (auto simp: plain_elem_def)
  then show ?thesis
    by (simp add: path_dir_def path_split_abs_path_snoc path_clean_trailing_slash)
       (simp add: abs_path_def)
qed

lemma path_base_abs_path_snoc [simp]:
  assumes "list_all plain_elem (es @ [e])"
  shows "path_base (abs_path (es @ [e])) = e"
proof -
  from assms have e: "CHR ''/'' \<notin> set e" "e \<noteq> []" by (auto simp: plain_elem_def)
  have ap: "abs_path (es @ [e]) = (if es = [] then [] else abs_path es) @ CHR ''/'' # e"
    by (auto simp: abs_path_def str_join_snoc)
  have "dropWhile (\<lambda>c. c = CHR ''/'') (rev (abs_path (es @ [e]))) = rev (abs_path (es @ [e]))"
    unfolding ap using e by (cases e rule: rev_cases) auto
  then show ?thesis
    using e(1) by (simp add: path_base_def path_split_abs_path_snoc) (simp add: abs_path_def)
qed

lemma path_base_abs_path_Nil [simp]: "path_base (abs_path []) = ''/''"
  by (simp add: path_base_def abs_path_def)

lemma path_join_abs_path_elem:
  assumes "list_all plain_elem (es @ [e])"
  shows "path_join [abs_path es, e] = abs_path (es @ [e])"
proof (cases "es = []")
  case True
  have "split_on CHR ''/'' (CHR ''/'' # CHR ''/'' # e) = [] # [] # [e]"
    using assms by (simp add: split_on_id plain_elem_def)
  then have "path_clean (CHR ''/'' # CHR ''/'' # e) = abs_path [e]"
    using assms clean_elems_plain [of "[e]" True "[]"]
    by (simp add: path_clean_def path_is_abs_iff abs_path_def)
  with True show ?thesis by (simp add: path_join_def abs_path_def)
next
  case False
  then have "abs_path es @ CHR ''/'' # e = abs_path (es @ [e])"
    by (simp add: abs_path_def str_join_snoc)
  moreover have "path_join [abs_path es, e] = path_clean (abs_path es @ CHR ''/'' # e)"
    by (simp add: path_join_def abs_path_def)
  ultimately show ?thesis using assms by simp
qed

text \<open>Splitting a cleaned rooted path at its last element loses nothing.\<close>

lemma path_join_dir_base:
  assumes "path_is_abs p" and "path_clean p = p" and "p \<noteq> ''/''"
  shows "path_join [path_dir p, path_base p] = p"
proof -
  from assms(1) obtain es where es: "list_all plain_elem es" "path_clean p = abs_path es"
    by (rule path_clean_rooted)
  with assms(2,3) obtain fs e where "es = fs @ [e]"
    by (cases es rule: rev_cases) (auto simp: abs_path_def)
  with es assms(2) show ?thesis
    using path_dir_abs_path_snoc [of fs e] path_base_abs_path_snoc [of fs e]
      path_join_abs_path_elem [of fs e] by simp
qed

text \<open>
  \<open>filepath.Rel\<close>: the elements the two cleaned paths share are dropped, each remaining
  element of the base becomes a \<open>..\<close>; it fails when one path is rooted and the other is
  not, or when the base climbs above its start.
\<close>

definition path_elems :: "string \<Rightarrow> string list" where
  "path_elems p = filter (\<lambda>e. e \<noteq> '''') (split_on CHR ''/'' p)"

fun strip_common :: "'a list \<Rightarrow> 'a list \<Rightarrow> 'a list \<times> 'a list" where
  "strip_common (x # xs) (y # ys) = (if x = y then strip_common xs ys else (x # xs, y # ys))"
| "strip_common xs ys = (xs, ys)"

definition filepath_rel :: "string \<Rightarrow> string \<Rightarrow> string option" where
  "filepath_rel base targ =
     (let b = path_clean base; t = path_clean targ
      in if t = b then Some ''.''
         else if path_is_abs b \<noteq> path_is_abs t then None
         else (case strip_common (if b = ''.'' then [] else path_elems b) (path_elems t) of
                 (bs, ts) \<Rightarrow>
                   if bs \<noteq> [] \<and> hd bs = ''..'' then None
                   else Some (str_join ''/'' (replicate (length bs) ''..'' @ ts))))"

text \<open>The containment test of \<open>CleanupVolumeResources\<close>: strictly below \<open>base\<close>.\<close>

definition path_inside :: "string \<Rightarrow> string \<Rightarrow> bool" where
  "path_inside base p =
     (case filepath_rel base p of
        None \<Rightarrow> False
      | Some rel \<Rightarrow> rel \<noteq> ''.'' \<and> \<not> has_prefix rel ''..'')"

lemma path_elems_abs_path: "list_all plain_elem es \<Longrightarrow> path_elems (abs_path es) = es"
  by (auto simp: path_elems_def split_slash_abs_path list_all_iff plain_elem_def filter_id_conv)

lemma strip_common_append [simp]: "strip_common xs (xs @ ys) = ([], ys)"
  by (induction xs) (cases ys, auto)

lemma strip_common_Nil:
  "strip_common xs ys = ([], zs) \<Longrightarrow> ys = xs @ zs"
  by (induction xs ys rule: strip_common.induct) (auto split: if_splits)

lemma abs_path_inj:
  assumes "list_all plain_elem es" and "list_all plain_elem fs"
  shows "abs_path es = abs_path fs \<longleftrightarrow> es = fs"
  using assms by (metis path_elems_abs_path)

lemma abs_path_not_dot [simp]: "abs_path es \<noteq> ''.''"
  by (simp add: abs_path_def)

lemma clean_elems_proper:
  assumes "\<forall>e \<in> set es. CHR ''/'' \<notin> set e" and "\<forall>e \<in> set out. e \<noteq> [] \<and> CHR ''/'' \<notin> set e"
  shows "\<forall>e \<in> set (clean_elems rooted out es). e \<noteq> [] \<and> CHR ''/'' \<notin> set e"
  using assms
proof (induction es arbitrary: out)
  case Nil
  then show ?case by simp
next
  case (Cons e es)
  have step: "\<forall>e \<in> set (clean_elems rooted out' es). e \<noteq> [] \<and> CHR ''/'' \<notin> set e"
    if "set out' \<subseteq> insert e (insert ''..'' (set out))" and "e \<noteq> [] \<or> e \<notin> set out'" for out'
    by (rule Cons.IH) (use Cons.prems that in auto)
  have "\<exists>out'. clean_elems rooted out (e # es) = clean_elems rooted out' es \<and>
      set out' \<subseteq> insert e (insert ''..'' (set out)) \<and> (e \<noteq> [] \<or> e \<notin> set out')"
  proof (cases "e = [] \<or> e = ''.''")
    case True
    with Cons.prems show ?thesis by (intro exI [of _ out]) auto
  next
    case False
    then show ?thesis
      by (cases "e = ''..''"; cases out)
         (auto intro: exI [of _ "[]"] exI [of _ "[''..'']"] exI [of _ "''..'' # out"]
           exI [of _ "tl out"] exI [of _ "e # out"])
  qed
  with step show ?case by metis
qed


lemma str_join_prefix: "prefix w (str_join sep (w # ws))"
  by (cases ws) auto

lemma path_clean_relative:
  assumes "\<not> path_is_abs p"
  shows "\<not> path_is_abs (path_clean p)"
proof -
  let ?es = "clean_elems False [] (split_on CHR ''/'' p)"
  have proper: "\<forall>e \<in> set ?es. e \<noteq> [] \<and> CHR ''/'' \<notin> set e"
    by (rule clean_elems_proper) (auto simp: split_on_no_sep)
  have "\<not> path_is_abs (str_join ''/'' ?es)"
  proof (cases ?es)
    case Nil
    then show ?thesis by (simp add: path_is_abs_iff)
  next
    case (Cons e es)
    then have "prefix e (str_join ''/'' ?es)" and "e \<noteq> []" and "CHR ''/'' \<notin> set e"
      using proper str_join_prefix [of e "''/''" es] by auto
    then show ?thesis by (cases e) (auto simp: path_is_abs_iff prefix_def)
  qed
  then show ?thesis
    using assms by (simp add: path_clean_def Let_def) (simp add: path_is_abs_iff)
qed

text \<open>A path that passes the test is the base with at least one further element.\<close>

lemma path_inside_below:
  assumes "path_is_abs base" and "path_inside base p"
  obtains es fs where "list_all plain_elem (es @ fs)" and "path_clean base = abs_path es"
    and "path_clean p = abs_path (es @ fs)" and "fs \<noteq> []"
proof -
  obtain es where es: "list_all plain_elem es" "path_clean base = abs_path es"
    using assms(1) by (rule path_clean_rooted)
  from assms(2) obtain rel where rel: "filepath_rel base p = Some rel"
    and nodot: "rel \<noteq> ''.''" "\<not> has_prefix rel ''..''"
    by (auto simp: path_inside_def split: option.splits)
  have "path_is_abs (path_clean p)"
    using rel es nodot by (auto simp: filepath_rel_def Let_def split: if_splits)
  then have "path_is_abs p"
    using path_clean_relative by blast
  then obtain ts where ts: "list_all plain_elem ts" "path_clean p = abs_path ts"
    by (rule path_clean_rooted)
  obtain bs us where strip: "strip_common es ts = (bs, us)" by (cases "strip_common es ts")
  have "bs = []"
  proof (rule ccontr)
    assume "bs \<noteq> []"
    then have "rel = str_join ''/'' (''..'' # replicate (length bs - 1) ''..'' @ us)"
      using rel nodot es ts strip
      by (cases bs) (auto simp: filepath_rel_def Let_def path_elems_abs_path split: if_splits)
    then have "has_prefix rel ''..''"
      using str_join_prefix unfolding has_prefix_def by metis
    with nodot show False by simp
  qed
  with strip have "ts = es @ us" by (auto dest: strip_common_Nil)
  moreover have "us \<noteq> []"
    using rel nodot es ts \<open>ts = es @ us\<close> by (auto simp: filepath_rel_def Let_def)
  ultimately show ?thesis using that es ts by simp
qed

section \<open>strconv\<close>

definition int64_min :: int where "int64_min = - (2 ^ 63)"
definition int64_max :: int where "int64_max = 2 ^ 63 - 1"

definition fits_int64 :: "int \<Rightarrow> bool" where
  "fits_int64 n \<longleftrightarrow> int64_min \<le> n \<and> n \<le> int64_max"

definition digit_val :: "char \<Rightarrow> int" where
  "digit_val c = int (of_char c) - 48"

fun digits_val :: "int \<Rightarrow> string \<Rightarrow> int" where
  "digits_val acc [] = acc"
| "digits_val acc (c # s) = digits_val (10 * acc + digit_val c) s"

text \<open>\<open>strconv.ParseInt(s, 10, 64)\<close>, and \<open>strconv.Atoi\<close> on a 64-bit platform.\<close>

definition parse_int64 :: "string \<Rightarrow> int option" where
  "parse_int64 s =
     (let neg = has_prefix s ''-'';
          ds = (if neg \<or> has_prefix s ''+'' then tl s else s);
          v = digits_val 0 ds;
          n = (if neg then - v else v)
      in if ds \<noteq> [] \<and> list_all is_digit_char ds \<and> fits_int64 n then Some n else None)"

definition parse_bool :: "string \<Rightarrow> bool option" where
  "parse_bool s =
     (if s \<in> {''1'', ''t'', ''T'', ''TRUE'', ''true'', ''True''} then Some True
      else if s \<in> {''0'', ''f'', ''F'', ''FALSE'', ''false'', ''False''} then Some False
      else None)"

fun format_nat :: "nat \<Rightarrow> string" where
  "format_nat n =
     (if n < 10 then [char_of (48 + n)] else format_nat (n div 10) @ [char_of (48 + n mod 10)])"

declare format_nat.simps [simp del]

definition format_int :: "int \<Rightarrow> string" where
  "format_int n = (if n < 0 then CHR ''-'' # format_nat (nat (- n)) else format_nat (nat n))"

lemma digits_val_append: "digits_val acc (s @ t) = digits_val (digits_val acc s) t"
  by (induction s arbitrary: acc) auto

lemma digit_char_of:
  assumes "d < 10"
  shows "is_digit_char (char_of (48 + d :: nat))" and "digit_val (char_of (48 + d :: nat)) = int d"
  using assms by (simp_all add: is_digit_char_def digit_val_def)

lemma format_nat_digits: "list_all is_digit_char (format_nat n)"
proof (induction n rule: format_nat.induct)
  case (1 n)
  then show ?case
    by (cases "n < 10") (simp_all add: format_nat.simps [of n] digit_char_of del: of_char_of)
qed

lemma format_nat_nonempty [simp]: "format_nat n \<noteq> []"
  by (subst format_nat.simps) simp

lemma digits_val_format_nat: "digits_val 0 (format_nat n) = int n"
proof (induction n rule: format_nat.induct)
  case (1 n)
  show ?case
  proof (cases "n < 10")
    case True
    then show ?thesis by (simp add: format_nat.simps [of n] digit_char_of)
  next
    case False
    with "1.IH" have "digits_val 0 (format_nat (n div 10)) = int (n div 10)" by simp
    moreover have "10 * int (n div 10) + int (n mod 10) = int n"
      using arg_cong [OF mult_div_mod_eq [of 10 n], of int]
      by (simp only: of_nat_add of_nat_mult of_nat_numeral)
    ultimately show ?thesis
      using False by (simp add: format_nat.simps [of n] digits_val_append digit_char_of)
  qed
qed

lemma format_nat_no_sign:
  "\<not> has_prefix (format_nat n) ''-''" "\<not> has_prefix (format_nat n) ''+''"
proof -
  obtain c s where cs: "format_nat n = c # s" by (cases "format_nat n") auto
  then have "is_digit_char c" using format_nat_digits [of n] by simp
  then have "c \<noteq> CHR ''-''" "c \<noteq> CHR ''+''" by (auto simp: is_digit_char_def)
  with cs show "\<not> has_prefix (format_nat n) ''-''" "\<not> has_prefix (format_nat n) ''+''"
    by (auto simp: has_prefix_def)
qed

lemma parse_format_int [simp]: "fits_int64 n \<Longrightarrow> parse_int64 (format_int n) = Some n"
  by (auto simp: parse_int64_def format_int_def Let_def format_nat_no_sign format_nat_digits
      digits_val_format_nat) (auto simp: has_prefix_def)

lemma format_int_nonempty [simp]: "format_int n \<noteq> []"
  by (simp add: format_int_def)

end
