(* ===== verification/HostIO.thy ===== *)
theory HostIO
  imports GoStd "HOL-Library.State_Monad" "HOL-Library.Word"
begin

text \<open>
  The world the driver runs in. Everything outside \<open>src/\<close> (the kernel, \<open>mount-utils\<close>, the
  mount service behind its socket, the filer, Kubernetes) is the record \<open>env\<close>: one function
  per external call, which answers from the history of calls made so far, so any
  deterministic environment is some \<open>env\<close>, and a theorem for every \<open>E :: env\<close> holds
  whatever the outside does. The state \<open>world\<close> records the history, newest event first;
  the components extend it with their own state. A Go function is a \<open>State_Monad\<close> action on
  such a state; its error result is a sum (\<open>Inl\<close> the error) or an \<open>err option\<close>.
\<close>

section \<open>Errors\<close>

datatype code =
  InvalidArgument | NotFound | Internal | PermissionDenied | Canceled | DeadlineExceeded
| Unimplemented

text \<open>
  An error value: its text and what the predicates the code applies to it answer
  (\<open>os.IsNotExist\<close>, \<open>os.IsPermission\<close>, \<open>mount.IsCorruptedMnt\<close>, an errno of \<open>ENOTCONN\<close> or
  \<open>EIO\<close>, \<open>errors.Is(err, filer_pb.ErrNotFound)\<close>), and the gRPC code if it is a status error.
  \<open>fmt.Errorf\<close> and \<open>errors.New\<close> make errors none of them recognises.
\<close>

record err =
  err_text :: string
  is_not_exist :: bool
  is_permission :: bool
  is_corrupted_mnt :: bool
  is_stale_errno :: bool
  is_entry_not_found :: bool
  status_code :: "code option"

definition errorf :: "string \<Rightarrow> err" where
  "errorf t = \<lparr>err_text = t, is_not_exist = False, is_permission = False,
     is_corrupted_mnt = False, is_stale_errno = False, is_entry_not_found = False,
     status_code = None\<rparr>"

primrec code_name :: "code \<Rightarrow> string" where
  "code_name InvalidArgument = ''InvalidArgument''"
| "code_name NotFound = ''NotFound''"
| "code_name Internal = ''Internal''"
| "code_name PermissionDenied = ''PermissionDenied''"
| "code_name Canceled = ''Canceled''"
| "code_name DeadlineExceeded = ''DeadlineExceeded''"
| "code_name Unimplemented = ''Unimplemented''"

definition status_error :: "code \<Rightarrow> string \<Rightarrow> err" where
  "status_error c t =
     (errorf (''rpc error: code = '' @ code_name c @ '' desc = '' @ t))\<lparr>status_code := Some c\<rparr>"

lemma errorf_simps [simp]:
  "err_text (errorf t) = t" "is_not_exist (errorf t) = False"
  "is_permission (errorf t) = False" "is_corrupted_mnt (errorf t) = False"
  "is_stale_errno (errorf t) = False" "is_entry_not_found (errorf t) = False"
  "status_code (errorf t) = None"
  by (simp_all add: errorf_def)

lemma status_error_simps [simp]:
  "status_code (status_error c t) = Some c" "is_not_exist (status_error c t) = False"
  "is_permission (status_error c t) = False" "is_corrupted_mnt (status_error c t) = False"
  by (simp_all add: status_error_def)

text \<open>
  \<open>fmt.Errorf("...: %w", err)\<close>: \<open>errors.Is\<close> and \<open>status.Code\<close> look inside it, \<open>os.IsNotExist\<close>,
  \<open>os.IsPermission\<close> and \<open>mount.IsCorruptedMnt\<close> do not.
\<close>

definition wrap_err :: "string \<Rightarrow> err \<Rightarrow> err" where
  "wrap_err pre e = e\<lparr>err_text := pre @ err_text e, is_not_exist := False, is_permission := False,
     is_corrupted_mnt := False\<rparr>"

lemma wrap_err_simps [simp]:
  "err_text (wrap_err pre e) = pre @ err_text e" "is_not_exist (wrap_err pre e) = False"
  "is_permission (wrap_err pre e) = False" "is_corrupted_mnt (wrap_err pre e) = False"
  "is_entry_not_found (wrap_err pre e) = is_entry_not_found e" "status_code (wrap_err pre e) = status_code e"
  by (simp_all add: wrap_err_def)

text \<open>\<open>%q\<close> on text that needs no escape; it only ever reaches error messages.\<close>

definition quoted :: "string \<Rightarrow> string" where
  "quoted s = [CHR 34] @ s @ [CHR 34]"

section \<open>The mount service's wire types (pkg/mountmanager/types.go)\<close>

type_synonym gomap = "(string \<times> string) list"

record MountRequest =
  mr_VolumeID :: string
  mr_TargetPath :: string
  mr_CacheDir :: string
  mr_MountArgs :: "string list"
  mr_LocalSocket :: string
  mr_VolumeContext :: gomap
  mr_ReadOnly :: bool

record MountInfo =
  mi_VolumeID :: string
  mi_TargetPath :: string
  mi_CacheDir :: string
  mi_LocalSocket :: string
  mi_VolumeContext :: gomap
  mi_ReadOnly :: bool

section \<open>External calls\<close>

text \<open>
  A process is an \<open>int\<close>, its own process \<open>None\<close>. The calls on a filer name the filers of the
  client they go through; \<open>ctx_Err\<close> is \<open>None\<close> if what a request waits for comes before its
  context ends; \<open>filer_List\<close> gives the entries delivered to the callback, each with
  whether it was called the last, and how the listing ended.
\<close>

text \<open>What became of a call run under \<open>runWithTimeout\<close>.\<close>

datatype fate = Completes | TimesOut | Panics

text \<open>An HTTP request; its token is the one of its Authorization header, empty if there is none.\<close>

record http_request =
  hr_method :: string
  hr_url :: string
  hr_body :: string
  hr_token :: string

text \<open>The system calls of a remount inside a container's mount namespace, in its order.\<close>

datatype ns_call =
  UnshareFs | OpenTree string | OpenOwnNs | OpenContainerNs int | SetnsContainer int
| DetachInside string | MoveMountTo string | RemountReadOnly string | SetnsOwn

text \<open>
  A persistent volume, as far as the driver looks at it: its name, its CSI source (driver, handle
  and attributes) and its storage capacity, \<open>None\<close> if it does not fit an \<open>int64\<close>.
\<close>

record csi_source =
  pv_driver :: string
  pv_handle :: string
  pv_attributes :: gomap

record persistent_volume =
  pv_name :: string
  pv_csi :: "csi_source option"
  pv_storage :: "int option"

text \<open>The fields of \<open>statfs(2)\<close> the driver reads: an \<open>int64\<close> and \<open>uint64\<close>s.\<close>

record statfs_t =
  Bsize :: "64 word"
  Blocks :: "64 word"
  Bfree :: "64 word"
  Bavail :: "64 word"
  Files :: "64 word"
  Ffree :: "64 word"

datatype event =
  EStat string "err + bool"
| ELstat string "err option"
| EMkdirAll string "err option"
| ERemove string "err option"
| ERemoveAll string "err option"
| EIsMountPoint string "bool \<times> err option"
| EIsLikelyNotMountPoint string "err + bool"
| EUnmount string "err option"
| ELazyUnmount string "err option"
| ECleanupMountPoint string "err option"
| EBindMount string string bool "err option"
| EStatfs string "err option option"
| EFate string fate
| ESvcMount MountRequest "err option"
| ESvcUnmount string "err option"
| ESvcList "err + MountInfo list"
| EConfigure string int "err option"
| EK8sClient "err option"
| EPVGet string "err + persistent_volume"
| EPVList "err + persistent_volume list"
| ENodeGet string "err + gomap"
| EHttp http_request "err + nat \<times> string"
| EMountInfo "int option" "err + string"
| EProcDir "err + string list"
| ECgroup int "err + string"
| ENsLink "int option" "err + string"
| ENs ns_call "err option"
| ENow int
| ECtx "code option"
| EUsage string "err + statfs_t"
| EGlob string "err + string list"
| EFilerMkdir "string list" string string "err option"
| EFilerRemove "string list" string string bool "err option"
| EFilerExists "string list" string string "err + bool"
| EFilerConfiguration "string list" "err + string"
| EFilerList "string list" string string nat "err option"
| EHealthProbe string string
| ERecovery string string
| ESessionUp string bool
| EForgetMetrics string
| ECmdPipe string "err option"
| ECmdStart string "string list" "err option"
| ESignal nat bool
| EDoneWait nat nat bool

text \<open>
  The security configuration of the attribute store: its \<open>vac\<close> section, the keys and lifetimes
  (in seconds) of the filers' tokens, and what reading a CA file gives: an error, or whether it
  holds a certificate.
\<close>

record vac_config =
  use_tls :: bool
  vac_ca :: string
  grpc_ca :: string
  ca_file :: "string \<Rightarrow> err + bool"
  filer_signing_key :: string
  filer_signing_expires :: int
  filer_read_key :: string
  filer_read_expires :: int

record env =
  vac_cfg :: vac_config
  os_Stat :: "event list \<Rightarrow> string \<Rightarrow> err + bool"
  os_Lstat :: "event list \<Rightarrow> string \<Rightarrow> err option"
  os_MkdirAll :: "event list \<Rightarrow> string \<Rightarrow> err option"
  os_Remove :: "event list \<Rightarrow> string \<Rightarrow> err option"
  os_RemoveAll :: "event list \<Rightarrow> string \<Rightarrow> err option"
  mu_IsMountPoint :: "event list \<Rightarrow> string \<Rightarrow> bool \<times> err option"
  mu_IsLikelyNotMountPoint :: "event list \<Rightarrow> string \<Rightarrow> err + bool"
  mu_Unmount :: "event list \<Rightarrow> string \<Rightarrow> err option"
  mu_CleanupMountPoint :: "event list \<Rightarrow> string \<Rightarrow> err option"
  mu_BindMount :: "event list \<Rightarrow> string \<Rightarrow> string \<Rightarrow> bool \<Rightarrow> err option"
  unix_Detach :: "event list \<Rightarrow> string \<Rightarrow> err option"
  sys_Statfs :: "event list \<Rightarrow> string \<Rightarrow> err option option"
  call_fate :: "event list \<Rightarrow> string \<Rightarrow> fate"
  svc_Mount :: "event list \<Rightarrow> MountRequest \<Rightarrow> err option"
  svc_Unmount :: "event list \<Rightarrow> string \<Rightarrow> err option"
  svc_List :: "event list \<Rightarrow> err + MountInfo list"
  mount_Configure :: "event list \<Rightarrow> string \<Rightarrow> int \<Rightarrow> err option"
  k8s_Client :: "event list \<Rightarrow> err option"
  pv_Get :: "event list \<Rightarrow> string \<Rightarrow> err + persistent_volume"
  pv_List :: "event list \<Rightarrow> err + persistent_volume list"
  node_Get :: "event list \<Rightarrow> string \<Rightarrow> err + gomap"
  gen_Jwt :: "event list \<Rightarrow> string \<Rightarrow> int \<Rightarrow> string"
  http_Do :: "event list \<Rightarrow> http_request \<Rightarrow> err + nat \<times> string"
  proc_MountInfo :: "event list \<Rightarrow> int option \<Rightarrow> err + string"
  proc_Dir :: "event list \<Rightarrow> err + string list"
  proc_Cgroup :: "event list \<Rightarrow> int \<Rightarrow> err + string"
  proc_NsLink :: "event list \<Rightarrow> int option \<Rightarrow> err + string"
  ns_Call :: "event list \<Rightarrow> ns_call \<Rightarrow> err option"
  time_Now :: "event list \<Rightarrow> int"
  ctx_Err :: "event list \<Rightarrow> code option"
  sys_Usage :: "event list \<Rightarrow> string \<Rightarrow> err + statfs_t"
  fs_Glob :: "event list \<Rightarrow> string \<Rightarrow> err + string list"
  filer_Mkdir :: "event list \<Rightarrow> string list \<Rightarrow> string \<Rightarrow> string \<Rightarrow> err option"
  filer_Remove :: "event list \<Rightarrow> string list \<Rightarrow> string \<Rightarrow> string \<Rightarrow> bool \<Rightarrow> err option"
  filer_Exists :: "event list \<Rightarrow> string list \<Rightarrow> string \<Rightarrow> string \<Rightarrow> err + bool"
  filer_Configuration :: "event list \<Rightarrow> string list \<Rightarrow> err + string"
  filer_List :: "event list \<Rightarrow> string list \<Rightarrow> string \<Rightarrow> string \<Rightarrow> nat \<Rightarrow> (string \<times> bool) list \<times> err option"

record world =
  hist :: "event list"
  probes :: "string list"

type_synonym ('w, 'a) io = "('w world_scheme, 'a) state"

definition ext :: "(event list \<Rightarrow> 'r) \<Rightarrow> ('r \<Rightarrow> event) \<Rightarrow> ('w, 'r) io" where
  "ext ask ev = State (\<lambda>w. (ask (hist w), w\<lparr>hist := ev (ask (hist w)) # hist w\<rparr>))"

definition emit :: "event \<Rightarrow> ('w, unit) io" where
  "emit ev = State (\<lambda>w. ((), w\<lparr>hist := ev # hist w\<rparr>))"

abbreviation ret :: "'a \<Rightarrow> ('s, 'a) state" where
  "ret \<equiv> State_Monad.return"

abbreviation modify :: "('s \<Rightarrow> 's) \<Rightarrow> ('s, unit) state" where
  "modify f \<equiv> State_Monad.update f"

definition gets :: "('s \<Rightarrow> 'a) \<Rightarrow> ('s, 'a) state" where
  "gets f = State (\<lambda>s. (f s, s))"

fun for_each :: "'a list \<Rightarrow> ('a \<Rightarrow> ('s, unit) state) \<Rightarrow> ('s, unit) state" where
  "for_each [] f = ret ()"
| "for_each (x # xs) f = do { f x; for_each xs f }"

lemma run_ext [simp]:
  "run_state (ext ask ev) w = (ask (hist w), w\<lparr>hist := ev (ask (hist w)) # hist w\<rparr>)"
  by (simp add: ext_def)

lemma run_emit [simp]: "run_state (emit ev) w = ((), w\<lparr>hist := ev # hist w\<rparr>)"
  by (simp add: emit_def)

lemma run_gets [simp]: "run_state (gets f) s = (f s, s)"
  by (simp add: gets_def)

lemma run_update [simp]: "run_state (modify f) s = ((), f s)"
  by (simp add: State_Monad.update_def)

section \<open>Invariants through programs\<close>

text \<open>
  \<open>keeps I m\<close>: the action \<open>m\<close> preserves \<open>I\<close>. \<open>ensures I m P\<close>: run from a state in \<open>I\<close> it also
  returns a result in \<open>P\<close>. The rules take a program apart along its syntax.
\<close>

definition keeps :: "('s \<Rightarrow> bool) \<Rightarrow> ('s, 'a) state \<Rightarrow> bool" where
  "keeps I m \<longleftrightarrow> (\<forall>s. I s \<longrightarrow> I (snd (run_state m s)))"

definition ensures :: "('s \<Rightarrow> bool) \<Rightarrow> ('s, 'a) state \<Rightarrow> ('a \<Rightarrow> bool) \<Rightarrow> bool" where
  "ensures I m P \<longleftrightarrow> keeps I m \<and> (\<forall>s. I s \<longrightarrow> P (fst (run_state m s)))"

named_theorems keeps_rules \<open>rules that take an invariant through a program\<close>

lemma keepsI: "(\<And>s r s'. I s \<Longrightarrow> run_state m s = (r, s') \<Longrightarrow> I s') \<Longrightarrow> keeps I m"
  by (simp add: keeps_def) (metis prod.collapse)

lemma keepsD: "keeps I m \<Longrightarrow> I s \<Longrightarrow> run_state m s = (r, s') \<Longrightarrow> I s'"
  by (metis keeps_def snd_conv)

lemma keeps_run: "keeps I m \<Longrightarrow> I s \<Longrightarrow> I (snd (run_state m s))"
  by (simp add: keeps_def)

lemma keeps_return [keeps_rules]: "keeps I (ret x)"
  by (simp add: keeps_def)

lemma keeps_gets [keeps_rules]: "keeps I (gets f)"
  by (simp add: keeps_def)

lemma keeps_bind [keeps_rules]:
  "keeps I m \<Longrightarrow> (\<And>x. keeps I (f x)) \<Longrightarrow> keeps I (State_Monad.bind m f)"
  by (auto simp: keeps_def split: prod.splits)

lemma keeps_if [keeps_rules]:
  "(b \<Longrightarrow> keeps I m) \<Longrightarrow> (\<not> b \<Longrightarrow> keeps I n) \<Longrightarrow> keeps I (if b then m else n)"
  by simp

lemma keeps_let [keeps_rules]: "(\<And>y. y = x \<Longrightarrow> keeps I (f y)) \<Longrightarrow> keeps I (Let x f)"
  by simp

lemma keeps_case_sum [keeps_rules]:
  "(\<And>e. x = Inl e \<Longrightarrow> keeps I (f e)) \<Longrightarrow> (\<And>v. x = Inr v \<Longrightarrow> keeps I (g v)) \<Longrightarrow>
   keeps I (case x of Inl e \<Rightarrow> f e | Inr v \<Rightarrow> g v)"
  by (cases x) auto

lemma keeps_case_option [keeps_rules]:
  "(x = None \<Longrightarrow> keeps I m) \<Longrightarrow> (\<And>v. x = Some v \<Longrightarrow> keeps I (g v)) \<Longrightarrow>
   keeps I (case x of None \<Rightarrow> m | Some v \<Rightarrow> g v)"
  by (cases x) auto

lemma keeps_case_prod [keeps_rules]:
  "(\<And>a b. x = (a, b) \<Longrightarrow> keeps I (f a b)) \<Longrightarrow> keeps I (case x of (a, b) \<Rightarrow> f a b)"
  by (cases x) auto

lemma keeps_case_bool [keeps_rules]:
  "(x \<Longrightarrow> keeps I m) \<Longrightarrow> (\<not> x \<Longrightarrow> keeps I n) \<Longrightarrow>
   keeps I (case x of True \<Rightarrow> m | False \<Rightarrow> n)"
  by (cases x) auto

lemma keeps_for_each [keeps_rules]:
  "(\<And>x. x \<in> set xs \<Longrightarrow> keeps I (f x)) \<Longrightarrow> keeps I (for_each xs f)"
  by (induction xs) (auto intro: keeps_return keeps_bind)

lemma ensures_keeps: "ensures I m P \<Longrightarrow> keeps I m"
  by (simp add: ensures_def)

lemma ensures_result:
  "keeps I m \<Longrightarrow> (\<And>s r s'. run_state m s = (r, s') \<Longrightarrow> P r) \<Longrightarrow> ensures I m P"
  unfolding ensures_def by (metis prod.collapse)

lemma ensures_return: "P x \<Longrightarrow> ensures I (ret x) P"
  by (simp add: ensures_def keeps_def)

lemma ensures_bind:
  "ensures I m P \<Longrightarrow> (\<And>x. P x \<Longrightarrow> ensures I (f x) Q) \<Longrightarrow> ensures I (State_Monad.bind m f) Q"
  by (auto simp: ensures_def keeps_def split: prod.splits) (metis fst_conv snd_conv)+

lemma ensures_bind_any:
  "keeps I m \<Longrightarrow> (\<And>x. ensures I (f x) Q) \<Longrightarrow> ensures I (State_Monad.bind m f) Q"
  by (auto simp: ensures_def keeps_def split: prod.splits)

lemma keeps_bind_ensures:
  "ensures I m P \<Longrightarrow> (\<And>x. P x \<Longrightarrow> keeps I (f x)) \<Longrightarrow> keeps I (State_Monad.bind m f)"
  by (auto simp: ensures_def keeps_def split: prod.splits) (metis fst_conv snd_conv)

end
