(* ===== verification/RemovalSafety.thy ===== *)
theory RemovalSafety
  imports MountUtil
begin

text \<open>
  Invariants of runs. The locale \<open>world_invariant\<close> is the contract of a predicate on the state
  that recording a neutral event and changing the statfs probes cannot break; \<open>probe_world\<close>
  adds that the probes (stat, mount-point check, statfs, deadlines) are neutral, \<open>note_world\<close> that
  metrics are, \<open>os_world\<close> that the calls on mounts and files are, \<open>call_world\<close> that those of the mount
  service are too, and \<open>mount_world\<close> that everything but a recursive removal is. Their lemmas carry such a predicate
  through the actions every component is built from. \<open>mount_invariant\<close> is the case of a property
  of the history, which no change of a component's own state can break either. It is
  interpreted on \<open>removal_safe\<close>, the safety property of the mount helpers: a recursive removal
  hits a path just seen unmounted, or one strictly inside the cache directory.
\<close>

section \<open>Invariants of the history\<close>

definition is_removal :: "event \<Rightarrow> bool" where
  "is_removal e \<longleftrightarrow> (case e of ERemoveAll _ _ \<Rightarrow> True | _ \<Rightarrow> False)"

definition is_probe :: "event \<Rightarrow> bool" where
  "is_probe e \<longleftrightarrow> (case e of
     EStat _ _ \<Rightarrow> True | ELstat _ _ \<Rightarrow> True | EIsMountPoint _ _ \<Rightarrow> True
   | EIsLikelyNotMountPoint _ _ \<Rightarrow> True | EStatfs _ _ \<Rightarrow> True | EFate _ _ \<Rightarrow> True
   | EMountInfo _ _ \<Rightarrow> True | EProcDir _ \<Rightarrow> True | ECgroup _ _ \<Rightarrow> True | ENsLink _ _ \<Rightarrow> True | ENow _ \<Rightarrow> True
   | EK8sClient _ \<Rightarrow> True | EPVGet _ _ \<Rightarrow> True | EPVList _ \<Rightarrow> True | ENodeGet _ _ \<Rightarrow> True
   | ECtx _ \<Rightarrow> True | EUsage _ _ \<Rightarrow> True | EGlob _ _ \<Rightarrow> True | EHttp _ _ \<Rightarrow> True
   | _ \<Rightarrow> False)"

text \<open>The calls of driver/metrics.go.\<close>

definition is_metric :: "event \<Rightarrow> bool" where
  "is_metric e \<longleftrightarrow> (case e of EHealthProbe _ _ \<Rightarrow> True | ERecovery _ _ \<Rightarrow> True | ESessionUp _ _ \<Rightarrow> True
     | EForgetMetrics _ \<Rightarrow> True | _ \<Rightarrow> False)"

locale world_invariant =
  fixes I :: "'w world_scheme \<Rightarrow> bool" and neutral :: "event \<Rightarrow> bool"
  assumes I_event: "I w \<Longrightarrow> neutral e \<Longrightarrow> I (w\<lparr>hist := e # hist w\<rparr>)"
    and I_probes: "I w \<Longrightarrow> I (w\<lparr>probes := ps\<rparr>)"
begin

lemma keeps_ext: "(\<And>r. neutral (ev r)) \<Longrightarrow> keeps I (ext ask ev)"
  by (simp add: keeps_def I_event)

lemma keeps_emit: "neutral e \<Longrightarrow> keeps I (emit e)"
  by (simp add: keeps_def I_event)

lemma keeps_reset: "keeps I (resetStatfsProbe path)"
  unfolding resetStatfsProbe_def by (simp add: keeps_def I_probes)

lemma keeps_register: "keeps I (modify (\<lambda>w. if b w then w else w\<lparr>probes := f w\<rparr>))"
  by (simp add: keeps_def I_probes)

end

locale probe_world = world_invariant +
  assumes probe_neutral: "is_probe e \<Longrightarrow> neutral e"
begin

lemma keeps_probe: "(\<And>r. is_probe (ev r)) \<Longrightarrow> keeps I (ext ask ev)"
  by (rule keeps_ext) (rule probe_neutral)

lemma keeps_statfs: "keeps I (probeStatfs E path)"
  unfolding probeStatfs_def
  by (intro keeps_rules keeps_probe keeps_reset keeps_register) (auto simp: is_probe_def)

lemma keeps_healthy: "keeps I (isStagingPathHealthy E path)"
  unfolding isStagingPathHealthy_def
  by (intro keeps_rules keeps_probe keeps_statfs) (auto simp: is_probe_def)

lemma keeps_live: "keeps I (isStagingPathLive E path)"
  unfolding isStagingPathLive_def
  by (intro keeps_rules keeps_probe) (auto simp: is_probe_def)

lemma keeps_timeout: "keeps I fn \<Longrightarrow> keeps I (runWithTimeout E label fn)"
  unfolding runWithTimeout_def
  by (rule keeps_bind, rule keeps_probe, simp add: is_probe_def, split fate.split)
     (intro conjI impI keeps_rules)

end

locale note_world = probe_world +
  assumes metric_neutral: "is_metric e \<Longrightarrow> neutral e"
begin

lemma keeps_note: "is_metric e \<Longrightarrow> keeps I (emit e)"
  by (rule keeps_emit) (rule metric_neutral)

end

lemma metric_not_removal: "is_metric e \<Longrightarrow> \<not> is_removal e"
  by (cases e) (auto simp: is_metric_def is_removal_def)

text \<open>The calls on mounts and single files; no call of the mount service is among them.\<close>

definition is_os_call :: "event \<Rightarrow> bool" where
  "is_os_call e \<longleftrightarrow> (case e of
     EMkdirAll _ _ \<Rightarrow> True | ERemove _ _ \<Rightarrow> True | EUnmount _ _ \<Rightarrow> True | ELazyUnmount _ _ \<Rightarrow> True
   | ECleanupMountPoint _ _ \<Rightarrow> True | EBindMount _ _ _ _ \<Rightarrow> True | EConfigure _ _ _ \<Rightarrow> True
   | ENs _ _ \<Rightarrow> True
   | _ \<Rightarrow> False)"

lemma os_call_not_removal: "is_os_call e \<Longrightarrow> \<not> is_removal e"
  by (cases e) (auto simp: is_os_call_def is_removal_def)

locale os_world = probe_world +
  assumes os_neutral: "is_os_call e \<Longrightarrow> neutral e"
begin

lemma keeps_os: "(\<And>r. is_os_call (ev r)) \<Longrightarrow> keeps I (ext ask ev)"
  by (rule keeps_ext) (rule os_neutral)

lemma keeps_checkMount: "keeps I (checkMount E path)"
  unfolding checkMount_def
  by (intro keeps_rules keeps_os keeps_probe keeps_reset) (auto simp: is_os_call_def is_probe_def)

end

text \<open>The calls of the mount service.\<close>

definition is_svc :: "event \<Rightarrow> bool" where
  "is_svc e \<longleftrightarrow> (case e of ESvcMount _ _ \<Rightarrow> True | ESvcUnmount _ _ \<Rightarrow> True | ESvcList _ \<Rightarrow> True | _ \<Rightarrow> False)"

lemma svc_not_removal: "is_svc e \<Longrightarrow> \<not> is_removal e"
  by (cases e) (auto simp: is_svc_def is_removal_def)

locale call_world = os_world +
  assumes svc_neutral: "is_svc e \<Longrightarrow> neutral e"
begin

lemma keeps_svc: "(\<And>r. is_svc (ev r)) \<Longrightarrow> keeps I (ext ask ev)"
  by (rule keeps_ext) (rule svc_neutral)

end

locale mount_world = probe_world +
  assumes mount_neutral: "\<not> is_removal e \<Longrightarrow> neutral e"
begin

lemma keeps_call: "(\<And>r. \<not> is_removal (ev r)) \<Longrightarrow> keeps I (ext ask ev)"
  by (rule keeps_ext) (rule mount_neutral)

end

sublocale mount_world \<subseteq> note_world
  by unfold_locales (rule mount_neutral [OF metric_not_removal])

sublocale mount_world \<subseteq> call_world
  by unfold_locales
     (erule mount_neutral [OF os_call_not_removal] mount_neutral [OF svc_not_removal])+

lemma probe_not_removal: "is_probe e \<Longrightarrow> \<not> is_removal e"
  by (cases e) (auto simp: is_probe_def is_removal_def)

locale mount_invariant =
  fixes inv :: "event list \<Rightarrow> bool"
  assumes inv_step: "inv h \<Longrightarrow> \<not> is_removal e \<Longrightarrow> inv (e # h)"
begin

abbreviation holds :: "'w world_scheme \<Rightarrow> bool" where
  "holds w \<equiv> inv (hist w)"

lemma keeps_modify: "(\<And>w. hist (f w) = hist w) \<Longrightarrow> keeps holds (modify f)"
  by (simp add: keeps_def)

sublocale mount_world "\<lambda>w. inv (hist w)" "\<lambda>e. \<not> is_removal e"
  by unfold_locales (auto simp: inv_step probe_not_removal)

end

section \<open>When a removal is justified\<close>

text \<open>
  Reading the history backwards from the removal: the last thing that speaks about the path
  is a mount-point check that said no, or a successful lazy unmount, and nothing the driver
  did since mounted anything there.
\<close>

fun detached :: "string \<Rightarrow> event list \<Rightarrow> bool" where
  "detached p [] = False"
| "detached p (EIsMountPoint q (isMnt, None) # h) = (if q = p then \<not> isMnt else detached p h)"
| "detached p (ELazyUnmount q None # h) = (q = p \<or> detached p h)"
| "detached p (EBindMount s q ro r # h) = (q \<noteq> p \<and> detached p h)"
| "detached p (ESvcMount req r # h) = (mr_TargetPath req \<noteq> p \<and> detached p h)"
| "detached p (e # h) = detached p h"

fun removal_safe :: "string \<Rightarrow> event list \<Rightarrow> bool" where
  "removal_safe base [] = True"
| "removal_safe base (ERemoveAll p r # h) =
     ((detached p h \<or> path_inside base p) \<and> removal_safe base h)"
| "removal_safe base (e # h) = removal_safe base h"

lemma removal_safe_step:
  "removal_safe base h \<Longrightarrow> \<not> is_removal e \<Longrightarrow> removal_safe base (e # h)"
  by (cases e) (auto simp: is_removal_def)

interpretation removal: mount_invariant "removal_safe base" for base
  by unfold_locales (rule removal_safe_step)

lemma cleanupCorrupted_removal_safe:
  "keeps (\<lambda>w. removal_safe base (hist w)) (cleanupCorruptedStagingPath E path)"
  by (rule keepsI)
     (auto simp: cleanupCorruptedStagingPath_def resetStatfsProbe_def
       split: option.splits if_splits prod.splits)

lemma cleanupStale_removal_safe:
  "keeps (\<lambda>w. removal_safe base (hist w)) (cleanupStaleStagingPath E path)"
  by (rule keepsI)
     (auto simp: cleanupStaleStagingPath_def resetStatfsProbe_def
       split: option.splits if_splits prod.splits
       dest!: keepsD [OF cleanupCorrupted_removal_safe [of base], rotated])

section \<open>Properties of the staging path helpers\<close>

text \<open>An environment in which every path is a directory and a mount point, and every call works.\<close>

definition calm_env :: env where
  "calm_env = \<lparr>vac_cfg = \<lparr>use_tls = False, vac_ca = '''', grpc_ca = '''', ca_file = \<lambda>f. Inr True,
       filer_signing_key = '''', filer_signing_expires = 0, filer_read_key = '''',
       filer_read_expires = 0\<rparr>,
     os_Stat = \<lambda>h p. Inr True, os_Lstat = \<lambda>h p. None, os_MkdirAll = \<lambda>h p. None,
     os_Remove = \<lambda>h p. None, os_RemoveAll = \<lambda>h p. None, mu_IsMountPoint = \<lambda>h p. (True, None),
     mu_IsLikelyNotMountPoint = \<lambda>h p. Inr False, mu_Unmount = \<lambda>h p. None,
     mu_CleanupMountPoint = \<lambda>h p. None, mu_BindMount = \<lambda>h s p ro. None,
     unix_Detach = \<lambda>h p. None, sys_Statfs = \<lambda>h p. Some None, call_fate = \<lambda>h l. Completes,
     svc_Mount = \<lambda>h r. None, svc_Unmount = \<lambda>h v. None, svc_List = \<lambda>h. Inr [],
     mount_Configure = \<lambda>h s q. None, k8s_Client = \<lambda>h. None,
     pv_Get = \<lambda>h n. Inl (errorf ''not found''), pv_List = \<lambda>h. Inr [], node_Get = \<lambda>h n. Inr [],
     gen_Jwt = \<lambda>h k n. '''', http_Do = \<lambda>h r. Inr (200, ''''), proc_MountInfo = \<lambda>h p. Inr '''', proc_Dir = \<lambda>h. Inr [],
     proc_Cgroup = \<lambda>h p. Inr '''', proc_NsLink = \<lambda>h p. Inr '''', ns_Call = \<lambda>h c. None,
     time_Now = \<lambda>h. 0, ctx_Err = \<lambda>h. None,
     sys_Usage = \<lambda>h p. Inr \<lparr>Bsize = 4096, Blocks = 100, Bfree = 50, Bavail = 40, Files = 10, Ffree = 5\<rparr>,
     fs_Glob = \<lambda>h p. Inr [], filer_Mkdir = \<lambda>h f p n. None, filer_Remove = \<lambda>h f p n i. None,
     filer_Exists = \<lambda>h f p n. Inr True, filer_Configuration = \<lambda>h f. Inr '''',
     filer_List = \<lambda>h f d a n. ([], None)\<rparr>"

text \<open>The same environment, except that nothing is mounted.\<close>

definition unmounted_env :: env where
  "unmounted_env = calm_env\<lparr>mu_IsMountPoint := \<lambda>h p. (False, None)\<rparr>"

definition start_world :: world where
  "start_world = \<lparr>hist = [], probes = []\<rparr>"

text \<open>
  Safety invariant of \<open>cleanupStaleStagingPath\<close>, whatever the kernel, the mount helper and
  the lazy unmount answer: every recursive removal it performs hits a path for which the most
  recent relevant call was a mount-point check that said "not a mount point" or a successful
  lazy unmount, with nothing mounted there since.
\<close>

theorem cleanupStaleStagingPath_safe:
  assumes "removal_safe base (hist w)"
  shows "removal_safe base (hist (snd (run_state (cleanupStaleStagingPath E path) w)))"
  by (rule keeps_run [OF cleanupStale_removal_safe assms])

theorem cleanupStaleStagingPath_safe_witness:
  "removal_safe ''/c'' (hist (snd (run_state (cleanupStaleStagingPath unmounted_env ''/s'')
     start_world)))
   \<and> ERemoveAll ''/s'' None \<in> set (hist (snd (run_state
     (cleanupStaleStagingPath unmounted_env ''/s'') start_world)))"
proof
  show "removal_safe ''/c'' (hist (snd (run_state (cleanupStaleStagingPath unmounted_env ''/s'')
     start_world)))"
    by (rule cleanupStaleStagingPath_safe) (simp add: start_world_def)
qed (simp add: cleanupStaleStagingPath_def unmounted_env_def calm_env_def start_world_def
      resetStatfsProbe_def)


text \<open>
  A staging path that is still a live mount after the unmount (lstat works and the
  mount-point check keeps saying yes) is refused: \<open>cleanupStaleStagingPath\<close> returns an error
  and issues neither a removal nor a forced cleanup nor a lazy unmount, whatever else happens.
\<close>

theorem cleanupStale_refuses_live_mount:
  assumes "\<And>h. os_Lstat E h path = None" and "\<And>h. mu_IsMountPoint E h path = (True, None)"
    and "run_state (cleanupStaleStagingPath E path) w = (r, w')"
  shows "r \<noteq> None \<and> probes w' = probes w \<and>
    (\<exists>u. hist w' = [EIsMountPoint path (True, None), ELstat path None, EUnmount path u] @ hist w)"
  using assms(3) by (auto simp: cleanupStaleStagingPath_def assms(1,2))

theorem cleanupStale_refuses_live_mount_witness:
  "fst (run_state (cleanupStaleStagingPath calm_env ''/s'') start_world) \<noteq> None"
  using cleanupStale_refuses_live_mount [of calm_env "''/s''" start_world
      "fst (run_state (cleanupStaleStagingPath calm_env ''/s'') start_world)"
      "snd (run_state (cleanupStaleStagingPath calm_env ''/s'') start_world)"]
  by (simp add: calm_env_def)

text \<open>
  Whenever \<open>cleanupStaleStagingPath\<close> reports success, no statfs probe of the old mount is
  left registered for the path, so the next probe describes the mount that replaces it; and
  the path is either gone (lstat says so), removed, detached, or cleaned by the mount helper.
\<close>

theorem cleanupStale_success_resets_probe:
  assumes "run_state (cleanupStaleStagingPath E path) w = (None, w')"
  shows "path \<notin> set (probes w') \<and> hist w' \<noteq> hist w \<and>
    (case hd (hist w') of
       ELstat p r \<Rightarrow> p = path \<and> (\<exists>e. r = Some e \<and> is_not_exist e)
     | ERemoveAll p r \<Rightarrow> p = path \<and> (r = None \<or> (\<exists>e. r = Some e \<and> is_not_exist e))
     | ECleanupMountPoint p r \<Rightarrow> p = path \<and> r = None
     | _ \<Rightarrow> False)"
  using assms
  by (auto simp: cleanupStaleStagingPath_def cleanupCorruptedStagingPath_def
      resetStatfsProbe_def split: option.splits if_splits prod.splits)

theorem cleanupStale_success_resets_probe_witness:
  "\<exists>w'. run_state (cleanupStaleStagingPath unmounted_env ''/s'') (start_world\<lparr>probes := [''/s'']\<rparr>)
      = (None, w') \<and> ''/s'' \<notin> set (probes w')"
proof -
  have run: "\<exists>w'. run_state (cleanupStaleStagingPath unmounted_env ''/s'')
      (start_world\<lparr>probes := [''/s'']\<rparr>) = (None, w')"
    by (simp add: cleanupStaleStagingPath_def unmounted_env_def calm_env_def start_world_def
        resetStatfsProbe_def)
  then show ?thesis using cleanupStale_success_resets_probe by blast
qed

text \<open>
  Health implies liveness: a staging path that \<open>isStagingPathHealthy\<close> accepts is one that
  \<open>isStagingPathLive\<close>, asked from the same state, accepts too. So the teardown gate (not
  live) never fires on a mount the health check trusts.
\<close>

theorem healthy_implies_live:
  assumes "fst (run_state (isStagingPathHealthy E path) w)"
  shows "fst (run_state (isStagingPathLive E path) w)"
  using assms
  by (auto simp: isStagingPathHealthy_def isStagingPathLive_def split: sum.splits if_splits
      prod.splits)

theorem healthy_implies_live_witness:
  "fst (run_state (isStagingPathHealthy calm_env ''/s'') start_world) \<and>
   fst (run_state (isStagingPathLive calm_env ''/s'') start_world)"
proof -
  have "fst (run_state (isStagingPathHealthy calm_env ''/s'') start_world)"
    by (simp add: isStagingPathHealthy_def calm_env_def start_world_def probeStatfs_def
        resetStatfsProbe_def is_corrupted_def)
  then show ?thesis using healthy_implies_live by blast
qed

end
