(* ===== verification/GoUrl.thy ===== *)
theory GoUrl
  imports GoStd
begin

text \<open>
  The part of Go's \<open>net/url\<close> the volume ID code relies on: \<open>URL.String\<close> of a URL with a
  scheme, a host and a path, and \<open>Parse\<close> down to the scheme, host and path of the result.
  Percent-escaping follows \<open>shouldEscape\<close> in the modes \<open>encodeHost\<close> and \<open>encodePath\<close>; a
  colon in an unbracketed host must start a valid optional port (Go 1.26, the version of
  \<open>go.mod\<close>). For a bracketed IPv6 literal only the brackets and the port are checked, not
  the address inside.
\<close>

section \<open>Percent-escaping\<close>

definition hex_digit :: "nat \<Rightarrow> char" where
  "hex_digit n = (if n < 10 then char_of (48 + n) else char_of (55 + n))"

definition is_hex_char :: "char \<Rightarrow> bool" where
  "is_hex_char c \<longleftrightarrow> is_digit_char c
     \<or> 97 \<le> (of_char c :: nat) \<and> (of_char c :: nat) \<le> 102
     \<or> 65 \<le> (of_char c :: nat) \<and> (of_char c :: nat) \<le> 70"

definition unhex :: "char \<Rightarrow> nat" where
  "unhex c =
     (if is_digit_char c then of_char c - 48
      else if 97 \<le> (of_char c :: nat) then of_char c - 87
      else of_char c - 55)"

definition host_char :: "char \<Rightarrow> bool" where
  "host_char c \<longleftrightarrow> is_alnum_char c \<or> c \<in> set ''-_.~!$&()*+,;=:[]<>'' \<or> c = CHR 34 \<or> c = CHR 39"

definition path_char :: "char \<Rightarrow> bool" where
  "path_char c \<longleftrightarrow> is_alnum_char c \<or> c \<in> set ''-_.~$&+,/:;=@''"

definition escape_char :: "(char \<Rightarrow> bool) \<Rightarrow> char \<Rightarrow> string" where
  "escape_char ok c =
     (if ok c then [c]
      else [CHR ''%'', hex_digit (of_char c div 16), hex_digit (of_char c mod 16)])"

definition url_escape :: "(char \<Rightarrow> bool) \<Rightarrow> string \<Rightarrow> string" where
  "url_escape ok s = concat (map (escape_char ok) s)"

text \<open>
  \<open>unescape\<close>: in a host only \<open>%25\<close> and bytes outside ASCII may be escaped, and a byte that
  would need an escape is an error.
\<close>

fun url_unescape :: "bool \<Rightarrow> string \<Rightarrow> string option" where
  "url_unescape host [] = Some []"
| "url_unescape host (c # s) =
     (if c = CHR ''%'' then
        (case s of
           a # b # t \<Rightarrow>
             if is_hex_char a \<and> is_hex_char b
                \<and> \<not> (host \<and> unhex a < 8 \<and> \<not> (a = CHR ''2'' \<and> b = CHR ''5''))
             then map_option (Cons (char_of (16 * unhex a + unhex b))) (url_unescape host t)
             else None
         | _ \<Rightarrow> None)
      else if host \<and> (of_char c :: nat) < 128 \<and> \<not> host_char c then None
      else map_option (Cons c) (url_unescape host s))"

section \<open>String and Parse\<close>

text \<open>\<open>(&url.URL{Scheme: scheme, Host: host, Path: path}).String()\<close> for a non-empty host.\<close>

definition url_string :: "string \<Rightarrow> string \<Rightarrow> string \<Rightarrow> string" where
  "url_string scheme host path =
     (let p = (if path = ''*'' then ''*'' else url_escape path_char path)
      in scheme @ ''://'' @ url_escape host_char host
         @ (if p \<noteq> '''' \<and> \<not> has_prefix p ''/'' then ''/'' else '''') @ p)"

definition scheme_char :: "char \<Rightarrow> bool" where
  "scheme_char c \<longleftrightarrow> is_alnum_char c \<or> c \<in> set ''+-.''"

definition get_scheme :: "string \<Rightarrow> (string \<times> string) option" where
  "get_scheme raw =
     (let pre = takeWhile scheme_char raw; rest = dropWhile scheme_char raw
      in if rest \<noteq> [] \<and> hd rest = CHR '':'' then
           (if pre = [] then None
            else if is_lower_char (hd pre) \<or> is_upper_char (hd pre) then Some (pre, tl rest)
            else Some ('''', raw))
         else Some ('''', raw))"

text \<open>\<open>strings.LastIndex\<close> at one byte: the parts before and after its last occurrence.\<close>

definition cut_last :: "char \<Rightarrow> string \<Rightarrow> (string \<times> string) option" where
  "cut_last d s =
     (if d \<in> set s
      then Some (rev (tl (dropWhile (\<lambda>c. c \<noteq> d) (rev s))), rev (takeWhile (\<lambda>c. c \<noteq> d) (rev s)))
      else None)"

definition valid_optional_port :: "string \<Rightarrow> bool" where
  "valid_optional_port p \<longleftrightarrow>
     p = '''' \<or> has_prefix p '':'' \<and> list_all is_digit_char (tl p)"

definition parse_host :: "string \<Rightarrow> string option" where
  "parse_host h =
     (if has_prefix h ''['' then
        (case cut_last CHR '']'' h of
           None \<Rightarrow> None
         | Some (_, port) \<Rightarrow> if valid_optional_port port then url_unescape True h else None)
      else if valid_optional_port (dropWhile (\<lambda>c. c \<noteq> CHR '':'') h) then url_unescape True h
      else None)"

definition valid_userinfo :: "string \<Rightarrow> bool" where
  "valid_userinfo u \<longleftrightarrow>
     list_all (\<lambda>c. is_alnum_char c \<or> c \<in> set ''-._:~!$&()*+,;=%@'' \<or> c = CHR 39) u
     \<and> (case str_cut CHR '':'' u of (name, pw, _) \<Rightarrow>
          url_unescape False name \<noteq> None \<and> url_unescape False pw \<noteq> None)"

definition parse_authority :: "string \<Rightarrow> string option" where
  "parse_authority a =
     (case cut_last CHR ''@'' a of
        None \<Rightarrow> parse_host a
      | Some (user, h) \<Rightarrow>
          (case parse_host h of
             None \<Rightarrow> None
           | Some host \<Rightarrow> if valid_userinfo user then Some host else None))"

definition ctl_char :: "char \<Rightarrow> bool" where
  "ctl_char c \<longleftrightarrow> (of_char c :: nat) < 32 \<or> (of_char c :: nat) = 127"

text \<open>
  \<open>url.Parse\<close> for a string with a scheme: its scheme, host and path. A string without one
  gives the empty scheme and is not decomposed further, since no caller looks at it; a
  rootless path is opaque and leaves host and path empty.
\<close>

definition url_parse :: "string \<Rightarrow> (string \<times> string \<times> string) option" where
  "url_parse raw =
     (case str_cut CHR ''#'' raw of (u, frag, _) \<Rightarrow>
        if list_ex ctl_char u \<or> url_unescape False frag = None then None
        else (case get_scheme u of
           None \<Rightarrow> None
         | Some (scheme, rest0) \<Rightarrow>
             (if scheme = '''' then Some ('''', '''', '''')
              else (case str_cut CHR ''?'' rest0 of (rest, _, _) \<Rightarrow>
                if \<not> has_prefix rest ''/'' then Some (to_lower scheme, '''', '''')
                else if has_prefix rest ''//'' then
                  (let a = drop 2 rest
                   in case parse_authority (takeWhile (\<lambda>c. c \<noteq> CHR ''/'') a) of
                        None \<Rightarrow> None
                      | Some host \<Rightarrow>
                          map_option (\<lambda>p. (to_lower scheme, host, p))
                            (url_unescape False (dropWhile (\<lambda>c. c \<noteq> CHR ''/'') a)))
                else map_option (\<lambda>p. (to_lower scheme, '''', p)) (url_unescape False rest)))))"

section \<open>Escaping round trips\<close>

lemma hex_digit_props:
  assumes "n < 16"
  shows "is_hex_char (hex_digit n)" and "unhex (hex_digit n) = n"
  using assms
  by (auto simp: hex_digit_def is_hex_char_def unhex_def is_digit_char_def)

lemma of_char_div16: "(of_char c :: nat) div 16 < 16"
proof -
  have "(of_char c :: nat) < 256" by simp
  then show ?thesis by linarith
qed

lemma unescape_escape_char:
  "\<not> ok CHR ''%'' \<Longrightarrow>
   url_unescape False (escape_char ok c @ s) = map_option (Cons c) (url_unescape False s)"
  by (auto simp: escape_char_def hex_digit_props of_char_div16)

lemma unescape_escape:
  assumes "\<not> ok CHR ''%''"
  shows "url_unescape False (url_escape ok s) = Some s"
  using assms by (induction s) (auto simp: url_escape_def unescape_escape_char)

lemma not_path_char [simp]:
  "\<not> path_char CHR ''%''" "\<not> path_char CHR ''#''" "\<not> path_char CHR ''?''"
  by (auto simp: path_char_def is_alnum_char_def is_digit_char_def is_lower_char_def
      is_upper_char_def)

lemma not_host_char [simp]:
  "\<not> host_char CHR ''%''" "\<not> host_char CHR ''#''" "\<not> host_char CHR ''?''"
  "\<not> host_char CHR ''@''" "\<not> host_char CHR ''/''"
  by (auto simp: host_char_def is_alnum_char_def is_digit_char_def is_lower_char_def
      is_upper_char_def)

lemma url_escape_id: "list_all ok s \<Longrightarrow> url_escape ok s = s"
  by (induction s) (auto simp: url_escape_def escape_char_def)

lemma unescape_host_id: "list_all host_char s \<Longrightarrow> url_unescape True s = Some s"
  by (induction s) auto

lemma hex_digit_alnum: "n < 16 \<Longrightarrow> is_alnum_char (hex_digit n)"
  by (auto simp: hex_digit_def is_alnum_char_def is_digit_char_def is_lower_char_def
      is_upper_char_def)

lemma set_url_escape:
  "c \<in> set (url_escape ok s) \<Longrightarrow> ok c \<or> c = CHR ''%'' \<or> is_alnum_char c"
  by (auto simp: url_escape_def escape_char_def hex_digit_alnum of_char_div16 split: if_splits)

lemma ctl_char_not_ok: "path_char c \<or> host_char c \<or> c = CHR ''%'' \<Longrightarrow> \<not> ctl_char c"
  by (auto simp: path_char_def host_char_def ctl_char_def is_alnum_char_def is_digit_char_def
      is_lower_char_def is_upper_char_def)

lemma alnum_not_special:
  "is_alnum_char c \<Longrightarrow> c \<noteq> CHR ''#'' \<and> c \<noteq> CHR ''?'' \<and> c \<noteq> CHR ''/'' \<and> c \<noteq> CHR ''@''
     \<and> c \<noteq> CHR '':'' \<and> c \<noteq> CHR ''['' \<and> \<not> ctl_char c"
  by (auto simp: is_alnum_char_def is_digit_char_def is_lower_char_def is_upper_char_def
      ctl_char_def)

lemma escaped_path_chars:
  assumes "c \<in> set (url_escape path_char p)"
  shows "c \<noteq> CHR ''#''" and "c \<noteq> CHR ''?''" and "\<not> ctl_char c"
  using set_url_escape [OF assms] ctl_char_not_ok [of c] alnum_not_special [of c]
  by auto

lemma str_cut_none: "d \<notin> set s \<Longrightarrow> str_cut d s = (s, [], False)"
  by (induction s) auto

lemma cut_last_none: "d \<notin> set s \<Longrightarrow> cut_last d s = None"
  by (simp add: cut_last_def)

end
