(* ===== verification/VolumeIds.thy ===== *)
theory VolumeIds
  imports GoUrl
begin

text \<open>
  Volume IDs and the paths derived from them: \<open>EncodeVolumeID\<close> / \<open>DecodeVolumeID\<close> and
  \<open>GetCacheDir\<close> (pkg/driver/utils.go), \<open>LocalSocketPath\<close> (pkg/mountmanager/socket.go) and
  the two \<open>ParseEndpoint\<close> functions. A volume's ID carries everything needed to find it
  again, so the two codecs must be inverse to each other on every address and path the
  controller hands out.
\<close>

section \<open>The volume ID codec\<close>

definition EncodeVolumeID :: "string \<Rightarrow> string \<Rightarrow> string" where
  "EncodeVolumeID filerAddress volumePath =
     (if filerAddress = '''' then volumePath
      else url_string ''filer'' filerAddress volumePath)"

definition DecodeVolumeID :: "string \<Rightarrow> string \<times> string" where
  "DecodeVolumeID volumeID =
     (case url_parse volumeID of
        None \<Rightarrow> ('''', volumeID)
      | Some (scheme, host, p) \<Rightarrow>
          if scheme \<noteq> ''filer'' then ('''', volumeID) else (host, p))"

text \<open>
  An address the codec is made for: characters a URL host holds unescaped, no bracketed
  IPv6 literal, and at most one colon, which starts a port.
\<close>

definition plain_filer_address :: "string \<Rightarrow> bool" where
  "plain_filer_address f \<longleftrightarrow>
     f \<noteq> '''' \<and> list_all (\<lambda>c. host_char c \<and> c \<noteq> CHR ''['') f
     \<and> valid_optional_port (dropWhile (\<lambda>c. c \<noteq> CHR '':'') f)"

lemma decode_absolute_path:
  assumes "path_is_abs p"
  shows "DecodeVolumeID p = ('''', p)"
proof -
  obtain s where p: "p = CHR ''/'' # s" using assms by (auto simp: path_is_abs_iff)
  have "get_scheme (CHR ''/'' # t) = Some ('''', CHR ''/'' # t)" for t
    by (simp add: get_scheme_def scheme_char_def is_alnum_char_def is_digit_char_def
        is_lower_char_def is_upper_char_def)
  moreover obtain t frag b where "str_cut CHR ''#'' p = (CHR ''/'' # t, frag, b)"
    using p by (cases "str_cut CHR ''#'' s") auto
  ultimately show ?thesis
    by (auto simp: DecodeVolumeID_def url_parse_def)
qed

lemma get_scheme_filer: "get_scheme (''filer:'' @ s) = Some (''filer'', s)"
  by (simp add: get_scheme_def scheme_char_def is_alnum_char_def is_digit_char_def
      is_lower_char_def is_upper_char_def)

lemma to_lower_filer: "to_lower ''filer'' = ''filer''"
  by (simp add: to_lower_def lower_char_def)

lemma plain_filer_address_host:
  assumes "plain_filer_address f"
  shows "parse_authority f = Some f" and "url_escape host_char f = f"
    and "CHR ''/'' \<notin> set f" and "CHR ''#'' \<notin> set f" and "CHR ''?'' \<notin> set f"
    and "\<not> list_ex ctl_char f"
proof -
  have chars: "list_all host_char f" and "CHR ''['' \<notin> set f" and "f \<noteq> []"
    and port: "valid_optional_port (dropWhile (\<lambda>c. c \<noteq> CHR '':'') f)"
    using assms by (auto simp: plain_filer_address_def list_all_iff)
  have no: "d \<notin> set f" if "\<not> host_char d" for d
    using chars that by (auto simp: list_all_iff)
  show "CHR ''/'' \<notin> set f" "CHR ''#'' \<notin> set f" "CHR ''?'' \<notin> set f"
    by (simp_all add: no)
  show "\<not> list_ex ctl_char f"
    using chars ctl_char_not_ok by (auto simp: list_ex_iff list_all_iff)
  show "url_escape host_char f = f" using chars by (rule url_escape_id)
  have "\<not> has_prefix f ''[''"
    using \<open>CHR ''['' \<notin> set f\<close> by (cases f) (auto simp: has_prefix_def)
  moreover have "url_unescape True f = Some f" using chars by (rule unescape_host_id)
  ultimately have "parse_host f = Some f" using port by (simp add: parse_host_def)
  moreover have "cut_last CHR ''@'' f = None" by (rule cut_last_none) (simp add: no)
  ultimately show "parse_authority f = Some f" by (simp add: parse_authority_def)
qed

lemma escape_path_abs:
  "url_escape path_char (CHR ''/'' # s) = CHR ''/'' # url_escape path_char s"
  by (simp add: url_escape_def escape_char_def path_char_def)

lemma url_parse_filer:
  assumes f: "plain_filer_address f" and p: "path_is_abs p"
  shows "url_parse (url_string ''filer'' f p) = Some (''filer'', f, p)"
proof -
  note host = plain_filer_address_host [OF f]
  obtain s where s: "p = CHR ''/'' # s" using p by (auto simp: path_is_abs_iff)
  define q where "q = url_escape path_char p"
  have q: "q = CHR ''/'' # url_escape path_char s" by (simp add: q_def s escape_path_abs)
  have unq: "url_unescape False q = Some p" by (simp add: q_def unescape_escape)
  have qchars: "CHR ''#'' \<notin> set q" "CHR ''?'' \<notin> set q" "\<not> list_ex ctl_char q"
    using escaped_path_chars [of _ p] by (auto simp: q_def list_ex_iff)
  define rest where "rest = ''//'' @ f @ q"
  have rest: "has_prefix rest ''/''" "has_prefix rest ''//''" "drop 2 rest = f @ q"
    by (auto simp: rest_def has_prefix_def)
  define u where "u = ''filer:'' @ rest"
  have str: "url_string ''filer'' f p = u"
    using q
    by (simp add: u_def rest_def url_string_def host Let_def s escape_path_abs has_prefix_def)
  have "CHR ''#'' \<notin> set u" "CHR ''?'' \<notin> set rest" and ctl: "\<not> list_ex ctl_char u"
    using host qchars by (auto simp: ctl_char_def u_def rest_def)
  then have cuts: "str_cut CHR ''#'' u = (u, [], False)" "str_cut CHR ''?'' rest = (rest, [], False)"
    by (simp_all add: str_cut_none)
  have scheme: "get_scheme u = Some (''filer'', rest)"
    unfolding u_def by (rule get_scheme_filer)
  have authority: "takeWhile (\<lambda>c. c \<noteq> CHR ''/'') (f @ q) = f"
    "dropWhile (\<lambda>c. c \<noteq> CHR ''/'') (f @ q) = q"
    using host(3) by (auto simp: q takeWhile_append dropWhile_append)
  show ?thesis
    unfolding str url_parse_def
    by (simp add: cuts ctl scheme rest authority host unq to_lower_filer)
qed

lemma decode_encode:
  assumes "f = '''' \<or> plain_filer_address f" and "path_is_abs p"
  shows "DecodeVolumeID (EncodeVolumeID f p) = (f, p)"
proof (cases "f = ''''")
  case True
  with assms show ?thesis by (simp add: EncodeVolumeID_def decode_absolute_path)
next
  case False
  with assms show ?thesis
    by (simp add: EncodeVolumeID_def DecodeVolumeID_def url_parse_filer)
qed

text \<open>
  C33: The volume ID codec round-trips: for every absolute volume path and every filer address
  that is empty or plain (URL host characters, no brackets, at most one port),
  \<open>DecodeVolumeID\<close> returns exactly what \<open>EncodeVolumeID\<close> was given.
\<close>

theorem DecodeVolumeID_EncodeVolumeID:
  assumes "f = '''' \<or> plain_filer_address f" and "path_is_abs p"
  shows "DecodeVolumeID (EncodeVolumeID f p) = (f, p)"
  using assms by (rule decode_encode)

theorem DecodeVolumeID_EncodeVolumeID_witness:
  "DecodeVolumeID (EncodeVolumeID ''filer:8888'' ''/buckets/my vol'') = (''filer:8888'', ''/buckets/my vol'')
   \<and> EncodeVolumeID ''filer:8888'' ''/buckets/my vol'' = ''filer://filer:8888/buckets/my%20vol''"
proof
  have "plain_filer_address ''filer:8888''" by code_simp
  moreover have "path_is_abs ''/buckets/my vol''" by code_simp
  ultimately show "DecodeVolumeID (EncodeVolumeID ''filer:8888'' ''/buckets/my vol'') =
      (''filer:8888'', ''/buckets/my vol'')"
    by (intro DecodeVolumeID_EncodeVolumeID) simp_all
qed code_simp

text \<open>
  An address with an explicit gRPC port, the form \<open>host:port.grpcPort\<close> of SeaweedFS server
  addresses, does not survive the codec: its ID no longer parses as a URL, so \<open>DecodeVolumeID\<close>
  returns no filer and the whole ID as the path.
\<close>

theorem grpc_port_address_is_lost:
  "DecodeVolumeID (EncodeVolumeID ''filer:8888.18888'' ''/buckets/v'')
     = ('''', ''filer://filer:8888.18888/buckets/v'')"
  by code_simp

section \<open>Paths derived from a volume ID\<close>

text \<open>
  \<open>crypto/sha256\<close> with \<open>hex.EncodeToString\<close> is the parameter \<open>sha256_hex\<close>. The code relies
  on its output being hexadecimal digits, which \<open>hex_digest\<close> states.
\<close>

type_synonym digest = "string \<Rightarrow> string"

definition hex_digest :: "digest \<Rightarrow> bool" where
  "hex_digest d \<longleftrightarrow> (\<forall>s. d s \<noteq> '''' \<and> list_all is_hex_char (d s))"

definition DefaultSocketDir :: string where
  "DefaultSocketDir = ''/var/lib/seaweedfs-mount''"

definition LocalSocketPath :: "digest \<Rightarrow> string \<Rightarrow> string \<Rightarrow> string" where
  "LocalSocketPath sha256_hex baseDir volumeID =
     (let dir = (if baseDir = '''' then DefaultSocketDir else baseDir);
          hashStr = take 16 (sha256_hex volumeID)
      in path_join [dir, ''seaweedfs-mount-'' @ hashStr @ ''.sock''])"

definition GetLocalSocket :: "digest \<Rightarrow> string \<Rightarrow> string \<Rightarrow> string" where
  "GetLocalSocket sha256_hex volumeSocketDir volumeID =
     LocalSocketPath sha256_hex volumeSocketDir volumeID"

definition GetCacheDir :: "digest \<Rightarrow> string \<Rightarrow> string \<Rightarrow> string \<Rightarrow> string" where
  "GetCacheDir sha256_hex tempDir cacheBase volumeID =
     path_join [if cacheBase = '''' then tempDir else cacheBase, sha256_hex volumeID]"

lemma hex_digest_elem:
  assumes "hex_digest d"
  shows "plain_elem (d s)"
proof -
  have hex: "d s \<noteq> []" "list_all is_hex_char (d s)" using assms by (auto simp: hex_digest_def)
  have "\<not> is_hex_char CHR ''.''" "\<not> is_hex_char CHR ''/''"
    by (simp_all add: is_hex_char_def is_digit_char_def)
  then show ?thesis
    using hex by (cases "d s") (auto simp: plain_elem_def list_all_iff)
qed

lemma clean_elems_snoc:
  "plain_elem e \<Longrightarrow> clean_elems rooted out (es @ [e]) = clean_elems rooted out es @ [e]"
  by (induction rooted out es rule: clean_elems.induct)
     (auto simp: plain_elem_def split: list.splits)

lemma path_clean_snoc:
  assumes "path_is_abs base" and "plain_elem e"
  obtains es where "list_all plain_elem es" and "path_clean base = abs_path es"
    and "path_join [base, e] = abs_path (es @ [e])"
proof
  let ?es = "clean_elems True [] (split_on CHR ''/'' base)"
  show "list_all plain_elem ?es"
    by (rule clean_elems_rooted_plain) (auto simp: split_on_no_sep)
  show "path_clean base = abs_path ?es"
    using assms(1) by (simp add: path_clean_def abs_path_def)
  obtain b where b: "base = CHR ''/'' # b" using assms(1) by (auto simp: path_is_abs_iff)
  have "CHR ''/'' \<notin> set e" using assms(2) by (simp add: plain_elem_def)
  then have "split_on CHR ''/'' (base @ CHR ''/'' # e) = split_on CHR ''/'' base @ [e]"
    by (simp only: split_on_append_sep) (simp add: split_on_id)
  moreover have "path_is_abs (base @ CHR ''/'' # e)" by (simp add: b path_is_abs_iff)
  moreover have "path_join [base, e] = path_clean (base @ CHR ''/'' # e)"
    using b by (simp add: path_join_def)
  ultimately show "path_join [base, e] = abs_path (?es @ [e])"
    using assms(2) by (simp add: path_clean_def abs_path_def clean_elems_snoc)
qed

lemma abs_path_snoc_inside:
  assumes "path_is_abs base" and "path_clean base = abs_path es"
    and "list_all plain_elem (es @ [e])" and "\<not> has_prefix e ''..''"
  shows "path_inside base (abs_path (es @ [e]))"
proof -
  have "list_all plain_elem es" "e \<noteq> ''.''" using assms(3) by (auto simp: plain_elem_def)
  moreover have "abs_path (es @ [e]) \<noteq> abs_path es"
    using assms(3) by (subst abs_path_inj) auto
  ultimately show ?thesis
    using assms(2-4)
    by (simp add: path_inside_def filepath_rel_def path_elems_abs_path)
qed

lemma GetCacheDir_shape:
  assumes "hex_digest d" and "path_is_abs (if cacheBase = '''' then tempDir else cacheBase)"
  obtains es where "list_all plain_elem (es @ [d volumeID])"
    and "path_clean (if cacheBase = '''' then tempDir else cacheBase) = abs_path es"
    and "GetCacheDir d tempDir cacheBase volumeID = abs_path (es @ [d volumeID])"
proof -
  have plain: "plain_elem (d volumeID)" using assms(1) by (rule hex_digest_elem)
  show thesis
  proof (rule path_clean_snoc [OF assms(2) plain])
    fix es
    assume "list_all plain_elem es"
      and "path_clean (if cacheBase = '''' then tempDir else cacheBase) = abs_path es"
      and "path_join [if cacheBase = '''' then tempDir else cacheBase, d volumeID] =
        abs_path (es @ [d volumeID])"
    with plain show thesis by (intro that [of es]) (auto simp: GetCacheDir_def)
  qed
qed

lemma hex_not_dotdot:
  assumes "hex_digest d"
  shows "\<not> has_prefix (d s) ''..''"
proof -
  have "\<not> is_hex_char CHR ''.''" by (simp add: is_hex_char_def is_digit_char_def)
  then show ?thesis
    using assms by (auto simp: hex_digest_def has_prefix_def prefix_def list_all_iff
        dest!: spec [of _ s])
qed

lemma cache_dir_inside:
  assumes "hex_digest d" and "path_is_abs (if cacheBase = '''' then tempDir else cacheBase)"
  shows "path_inside (if cacheBase = '''' then tempDir else cacheBase)
           (path_clean (GetCacheDir d tempDir cacheBase volumeID))"
proof (rule GetCacheDir_shape [OF assms])
  fix es
  assume es: "list_all plain_elem (es @ [d volumeID])"
    "path_clean (if cacheBase = '''' then tempDir else cacheBase) = abs_path es"
    "GetCacheDir d tempDir cacheBase volumeID = abs_path (es @ [d volumeID])"
  then show ?thesis
    using abs_path_snoc_inside [OF assms(2) es(2) es(1) hex_not_dotdot [OF assms(1)]]
    by simp
qed

lemma cache_dir_inj:
  assumes "hex_digest d" and "path_is_abs (if cacheBase = '''' then tempDir else cacheBase)"
    and "GetCacheDir d tempDir cacheBase v = GetCacheDir d tempDir cacheBase u"
  shows "d v = d u"
proof (rule GetCacheDir_shape [OF assms(1,2), of v], rule GetCacheDir_shape [OF assms(1,2), of u])
  fix es fs
  assume "list_all plain_elem (es @ [d v])" "list_all plain_elem (fs @ [d u])"
    "GetCacheDir d tempDir cacheBase v = abs_path (es @ [d v])"
    "GetCacheDir d tempDir cacheBase u = abs_path (fs @ [d u])"
  with assms(3) have "es @ [d v] = fs @ [d u]" by (metis abs_path_inj)
  then show "d v = d u" by simp
qed

section \<open>Endpoints\<close>

text \<open>
  \<open>strings.SplitN(s, "://", 2)\<close>: \<open>None\<close> when the separator does not occur (one part).
\<close>

fun split_scheme :: "string \<Rightarrow> (string \<times> string) option" where
  "split_scheme [] = None"
| "split_scheme (c # s) =
     (if prefix ''://'' (c # s) then Some ([], drop 2 s)
      else map_option (\<lambda>(a, b). (c # a, b)) (split_scheme s))"

text \<open>pkg/mountmanager/endpoint.go and pkg/driver/utils.go: two readings of an endpoint.\<close>

definition mountParseEndpoint :: "string \<Rightarrow> (string \<times> string) option" where
  "mountParseEndpoint endpoint =
     (case split_scheme endpoint of
        None \<Rightarrow> None
      | Some (s, a) \<Rightarrow> if a = '''' then None else Some (to_lower s, a))"

definition driverParseEndpoint :: "string \<Rightarrow> (string \<times> string) option" where
  "driverParseEndpoint ep =
     (if has_prefix (to_lower ep) ''unix://'' \<or> has_prefix (to_lower ep) ''tcp://'' then
        (case split_scheme ep of
           None \<Rightarrow> None
         | Some (s, a) \<Rightarrow> if a \<noteq> '''' then Some (s, a) else None)
      else None)"

lemma driver_endpoint_agrees:
  "driverParseEndpoint ep = Some (s, a) \<Longrightarrow> mountParseEndpoint ep = Some (to_lower s, a)"
  by (auto simp: driverParseEndpoint_def mountParseEndpoint_def split: if_splits option.splits)

lemma split_scheme_join:
  "split_scheme ep = Some (s, a) \<Longrightarrow> ep = s @ ''://'' @ a"
proof (induction ep arbitrary: s)
  case (Cons c ep)
  then show ?case by (auto split: if_splits simp: prefix_def)
qed simp

end
