(* ===== verification/Parameters.thy ===== *)
theory Parameters
  imports HostIO
begin

text \<open>
  Mount parameters: the keys a VolumeAttributesClass may change, the checks of their values
  (controllerserver.go), the data locality names (pkg/datalocality) and the overlay of
  persisted parameters at stage time (vacstore.go). A Go map is an association list with
  distinct keys; a \<open>range\<close> visits it in list order, so a theorem for every list holds for
  every iteration order.
\<close>

section \<open>Go maps\<close>

text \<open>\<open>m[k]\<close> on a \<open>map[string]string\<close>: the zero value when the key is absent.\<close>

definition goget :: "gomap \<Rightarrow> string \<Rightarrow> string" where
  "goget m k = (case map_of m k of None \<Rightarrow> '''' | Some v \<Rightarrow> v)"

abbreviation goset :: "string \<Rightarrow> string \<Rightarrow> gomap \<Rightarrow> gomap" where
  "goset \<equiv> AList.update"

definition gomap_ok :: "gomap \<Rightarrow> bool" where
  "gomap_ok m \<longleftrightarrow> distinct (map fst m)"

text \<open>Copying every accepted binding of one map over another.\<close>

fun overlay :: "(string \<Rightarrow> bool) \<Rightarrow> gomap \<Rightarrow> gomap \<Rightarrow> gomap" where
  "overlay keep m [] = m"
| "overlay keep m ((k, v) # kvs) = overlay keep (if keep k then goset k v m else m) kvs"

lemma gomap_ok_update: "gomap_ok m \<Longrightarrow> gomap_ok (goset k v m)"
  by (simp add: gomap_ok_def distinct_update)

lemma gomap_ok_overlay: "gomap_ok m \<Longrightarrow> gomap_ok (overlay keep m kvs)"
  by (induction keep m kvs rule: overlay.induct) (simp_all add: gomap_ok_update)

lemma map_of_overlay:
  "gomap_ok kvs \<Longrightarrow> map_of (overlay keep m kvs) k =
     (if keep k \<and> k \<in> fst ` set kvs then map_of kvs k else map_of m k)"
proof (induction keep m kvs rule: overlay.induct)
  case (2 keep m j v kvs)
  then have ok: "gomap_ok kvs" "j \<notin> fst ` set kvs" by (auto simp: gomap_ok_def)
  have IH: "map_of (overlay keep n kvs) k =
      (if keep k \<and> k \<in> fst ` set kvs then map_of kvs k else map_of n k)"
    if "n = (if keep j then goset j v m else m)" for n
    using 2(1) ok(1) that by simp
  show ?case using ok(2) by (auto simp: IH update_conv')
qed simp

lemma gomap_all_iff:
  "gomap_ok m \<Longrightarrow> (\<forall>(k, v) \<in> set m. P k v) \<longleftrightarrow> (\<forall>k v. map_of m k = Some v \<longrightarrow> P k v)"
  by (auto simp: gomap_ok_def)

section \<open>Data locality (pkg/datalocality/mapping.go)\<close>

datatype DataLocality = NoLocality | Write_preferLocalDc

definition dl_FromString :: "string \<Rightarrow> DataLocality option" where
  "dl_FromString s =
     (let l = to_lower s
      in if l = ''none'' then Some NoLocality
         else if l = ''write_preferlocaldc'' then Some Write_preferLocalDc
         else None)"

primrec dl_String :: "DataLocality \<Rightarrow> string" where
  "dl_String NoLocality = ''none''"
| "dl_String Write_preferLocalDc = ''write_preferlocaldc''"

lemma dl_round_trip: "dl_FromString (dl_String d) = Some d"
  by (cases d) (simp_all add: dl_FromString_def to_lower_def lower_char_def)

definition CheckDataLocality :: "DataLocality \<Rightarrow> string \<Rightarrow> err option" where
  "CheckDataLocality dataLocality dataCenter =
     (if dataLocality \<noteq> NoLocality \<and> dataCenter = '''' then
        Some (errorf ''dataLocality set, but not all locality-definitions were set'')
      else None)"

section \<open>Mutable parameters\<close>

definition mutableMountParameters :: "string list" where
  "mutableMountParameters = [''diskType'', ''replication'', ''ttl'', ''dataCenter'',
     ''dataLocality'', ''uidMap'', ''gidMap'', ''chunkSizeLimitMB'', ''volumeServerAccess'',
     ''readRetryTime'', ''concurrentReaders'', ''concurrentWriters'', ''cacheCapacityMB'',
     ''cacheMetaTtlSec'', ''writebackCache'', ''metadataFlushSeconds'', ''dlm'']"

definition is_mutable :: "string \<Rightarrow> bool" where
  "is_mutable key \<longleftrightarrow> key \<in> set mutableMountParameters"

definition validateMutableParameterValues :: "string \<Rightarrow> string \<Rightarrow> err option" where
  "validateMutableParameterValues key value =
     (if value = '''' then None
      else if key = ''dataLocality'' then
        (case dl_FromString value of
           None \<Rightarrow> Some (errorf (''invalid dataLocality '' @ quoted value))
         | Some _ \<Rightarrow> None)
      else if key \<in> {''concurrentReaders'', ''concurrentWriters'', ''cacheCapacityMB'',
          ''cacheMetaTtlSec'', ''chunkSizeLimitMB'', ''metadataFlushSeconds''} then
        (case parse_int64 value of
           None \<Rightarrow> Some (errorf (key @ '' must be an integer, got '' @ quoted value))
         | Some _ \<Rightarrow> None)
      else if key \<in> {''writebackCache'', ''dlm''} then
        (case parse_bool value of
           None \<Rightarrow> Some (errorf (key @ '' must be a boolean, got '' @ quoted value))
         | Some _ \<Rightarrow> None)
      else None)"

definition validateWritebackDlmCombo :: "gomap \<Rightarrow> err option" where
  "validateWritebackDlmCombo params =
     (let wb = goget params ''writebackCache''; dlm = goget params ''dlm''
      in if wb \<noteq> '''' \<and> dlm \<noteq> '''' \<and> parse_bool wb = Some True \<and> parse_bool dlm = Some True
         then Some (errorf (''writebackCache and dlm are mutually exclusive: weed mount disables ''
           @ ''the distributed lock manager when writeback caching is enabled''))
         else None)"

fun unknown_keys :: "gomap \<Rightarrow> string list" where
  "unknown_keys [] = []"
| "unknown_keys ((key, value) # m) =
     (if is_mutable key then unknown_keys m else key # unknown_keys m)"

fun invalid_values :: "gomap \<Rightarrow> string list" where
  "invalid_values [] = []"
| "invalid_values ((key, value) # m) =
     (if \<not> is_mutable key then invalid_values m
      else (case validateMutableParameterValues key value of
              Some err \<Rightarrow> err_text err # invalid_values m
            | None \<Rightarrow> invalid_values m))"

definition validateMutableParameters :: "gomap \<Rightarrow> err option" where
  "validateMutableParameters params =
     (let unknown = unknown_keys params; invalid = invalid_values params
      in if unknown \<noteq> [] then
           Some (errorf (''parameters are not modifiable on SeaweedFS volumes (structural or unknown): ''
             @ str_join '', '' unknown))
         else if invalid \<noteq> [] then
           Some (errorf (''invalid parameter values: '' @ str_join ''; '' invalid))
         else validateWritebackDlmCombo params)"

fun validateConstrainedParameterValues :: "gomap \<Rightarrow> err option" where
  "validateConstrainedParameterValues [] = None"
| "validateConstrainedParameterValues ((key, value) # m) =
     (if \<not> is_mutable key then validateConstrainedParameterValues m
      else (case validateMutableParameterValues key value of
              Some err \<Rightarrow> Some err
            | None \<Rightarrow> validateConstrainedParameterValues m))"

text \<open>vacstore.go: persisted values overlay the context, structural keys excluded.\<close>

definition mergePersistedVolumeAttributes :: "gomap \<Rightarrow> gomap \<Rightarrow> gomap" where
  "mergePersistedVolumeAttributes volContext persisted = overlay is_mutable volContext persisted"

text \<open>
  The set \<open>ControllerModifyVolume\<close> validates: the PV's mutable attributes with the request's
  parameters over them.
\<close>

definition effective_parameters :: "gomap \<Rightarrow> gomap \<Rightarrow> gomap" where
  "effective_parameters attrs params = overlay (\<lambda>_. True) (overlay is_mutable [] attrs) params"

section \<open>What the checks say\<close>

lemma unknown_keys_iff: "unknown_keys m = [] \<longleftrightarrow> (\<forall>(k, v) \<in> set m. is_mutable k)"
  by (induction m rule: unknown_keys.induct) auto

lemma invalid_values_iff:
  "invalid_values m = [] \<longleftrightarrow>
     (\<forall>(k, v) \<in> set m. is_mutable k \<longrightarrow> validateMutableParameterValues k v = None)"
  by (induction m rule: invalid_values.induct) (auto split: option.splits)

lemma validateConstrained_iff:
  "validateConstrainedParameterValues m = None \<longleftrightarrow>
     (\<forall>(k, v) \<in> set m. is_mutable k \<longrightarrow> validateMutableParameterValues k v = None)"
  by (induction m rule: validateConstrainedParameterValues.induct) (auto split: option.splits)

lemma validateMutable_iff:
  "validateMutableParameters m = None \<longleftrightarrow>
     (\<forall>(k, v) \<in> set m. is_mutable k \<and> validateMutableParameterValues k v = None)
     \<and> validateWritebackDlmCombo m = None"
  using unknown_keys_iff [of m] invalid_values_iff [of m]
  by (auto simp: validateMutableParameters_def Let_def split: if_splits; blast)

lemma mutable_keys [simp]: "is_mutable ''writebackCache''" "is_mutable ''dlm''"
  by (simp_all add: is_mutable_def mutableMountParameters_def)

text \<open>Both checks only read the mutable keys, so maps that agree there fare alike.\<close>

definition agree_on_mutable :: "gomap \<Rightarrow> gomap \<Rightarrow> bool" where
  "agree_on_mutable m n \<longleftrightarrow> gomap_ok m \<and> gomap_ok n
     \<and> (\<forall>k. is_mutable k \<longrightarrow> map_of m k = map_of n k)"

lemma agree_checks:
  assumes "agree_on_mutable m n"
  shows "validateWritebackDlmCombo m = validateWritebackDlmCombo n"
    and "validateConstrainedParameterValues m = None \<longleftrightarrow>
      validateConstrainedParameterValues n = None"
proof -
  show "validateWritebackDlmCombo m = validateWritebackDlmCombo n"
    using assms by (simp add: validateWritebackDlmCombo_def goget_def agree_on_mutable_def)
  have ok: "gomap_ok m" "gomap_ok n" using assms by (simp_all add: agree_on_mutable_def)
  show "validateConstrainedParameterValues m = None \<longleftrightarrow>
      validateConstrainedParameterValues n = None"
    using assms unfolding validateConstrained_iff gomap_all_iff [OF ok(1)] gomap_all_iff [OF ok(2)]
    by (metis agree_on_mutable_def)
qed

lemma staged_agrees_with_effective:
  assumes "gomap_ok attrs" and "gomap_ok params" and "\<forall>(k, v) \<in> set params. is_mutable k"
  shows "agree_on_mutable (mergePersistedVolumeAttributes attrs params)
    (effective_parameters attrs params)"
proof -
  have nil: "gomap_ok []" by (simp add: gomap_ok_def)
  have in_iff: "k \<in> fst ` set attrs \<longleftrightarrow> map_of attrs k \<noteq> None" for k
    by (simp add: map_of_eq_None_iff)
  show ?thesis
    using assms nil unfolding agree_on_mutable_def mergePersistedVolumeAttributes_def
      effective_parameters_def
    by (auto simp: map_of_overlay gomap_ok_overlay in_iff)
qed

section \<open>Properties\<close>

text \<open>
  A modification the controller accepts never breaks a later stage: if
  \<open>validateMutableParameters\<close> accepts the request and the effective set (the PV's attributes
  with the request over them) passes both checks, then the context \<open>stageNewVolume\<close> builds from
  the same attributes and the persisted request passes both checks too, whatever other keys the
  PV carries.
\<close>

theorem accepted_modify_can_stage:
  assumes "gomap_ok attrs" and "gomap_ok params"
    and "validateMutableParameters params = None"
    and "validateConstrainedParameterValues (effective_parameters attrs params) = None"
    and "validateWritebackDlmCombo (effective_parameters attrs params) = None"
  shows "validateConstrainedParameterValues (mergePersistedVolumeAttributes attrs params) = None
    \<and> validateWritebackDlmCombo (mergePersistedVolumeAttributes attrs params) = None"
proof -
  have "\<forall>(k, v) \<in> set params. is_mutable k"
    using assms(3) unfolding validateMutable_iff by auto
  from agree_checks [OF staged_agrees_with_effective [OF assms(1,2) this]] assms(4,5)
  show ?thesis by simp
qed

theorem accepted_modify_can_stage_witness:
  "validateWritebackDlmCombo (mergePersistedVolumeAttributes
     [(''collection'', ''c''), (''dlm'', ''true'')] [(''dlm'', ''false''), (''writebackCache'', ''1'')])
   = None"
proof -
  have "gomap_ok [(''collection'', ''c''), (''dlm'', ''true'')]"
    "gomap_ok [(''dlm'', ''false''), (''writebackCache'', ''1'')]"
    "validateMutableParameters [(''dlm'', ''false''), (''writebackCache'', ''1'')] = None"
    "validateConstrainedParameterValues (effective_parameters
      [(''collection'', ''c''), (''dlm'', ''true'')] [(''dlm'', ''false''), (''writebackCache'', ''1'')])
      = None"
    "validateWritebackDlmCombo (effective_parameters
      [(''collection'', ''c''), (''dlm'', ''true'')] [(''dlm'', ''false''), (''writebackCache'', ''1'')])
      = None"
    by code_simp+
  from accepted_modify_can_stage [OF this] show ?thesis by blast
qed

text \<open>
  A stale or corrupted persisted entry cannot smuggle structural values into a mount: for
  every key that is not mutable the merged context is the volume context, and for a mutable key
  the persisted value wins exactly when the entry has one.
\<close>

theorem merge_only_changes_mutable_keys:
  assumes "gomap_ok persisted"
  shows "map_of (mergePersistedVolumeAttributes volContext persisted) k =
    (if is_mutable k \<and> map_of persisted k \<noteq> None then map_of persisted k
     else map_of volContext k)"
  using assms by (simp add: mergePersistedVolumeAttributes_def map_of_overlay map_of_eq_None_iff)

theorem merge_only_changes_mutable_keys_witness:
  "map_of (mergePersistedVolumeAttributes [(''collection'', ''a'')]
     [(''collection'', ''evil''), (''ttl'', ''5m'')]) ''collection'' = Some ''a''"
proof -
  have "gomap_ok [(''collection'', ''evil''), (''ttl'', ''5m'')]" by (simp add: gomap_ok_def)
  from merge_only_changes_mutable_keys [OF this, of "[(''collection'', ''a'')]" "''collection''"]
  show ?thesis by (simp add: is_mutable_def mutableMountParameters_def)
qed

text \<open>
  C31: \<open>validateMutableParameters\<close> accepts a class exactly when every key is mutable, every
  value is empty or well formed for its key, and writeback caching is not combined with the
  lock manager.
\<close>

theorem validateMutableParameters_spec:
  "validateMutableParameters params = None \<longleftrightarrow>
     (\<forall>(k, v) \<in> set params. is_mutable k \<and> (v = '''' \<or>
        (k = ''dataLocality'' \<longrightarrow> to_lower v \<in> {''none'', ''write_preferlocaldc''})
        \<and> (k \<in> {''concurrentReaders'', ''concurrentWriters'', ''cacheCapacityMB'',
             ''cacheMetaTtlSec'', ''chunkSizeLimitMB'', ''metadataFlushSeconds''} \<longrightarrow>
             parse_int64 v \<noteq> None)
        \<and> (k \<in> {''writebackCache'', ''dlm''} \<longrightarrow> parse_bool v \<noteq> None)))
     \<and> \<not> (parse_bool (goget params ''writebackCache'') = Some True
          \<and> parse_bool (goget params ''dlm'') = Some True)"
proof -
  have vals: "validateMutableParameterValues k v = None \<longleftrightarrow> v = '''' \<or>
      (k = ''dataLocality'' \<longrightarrow> to_lower v \<in> {''none'', ''write_preferlocaldc''})
      \<and> (k \<in> {''concurrentReaders'', ''concurrentWriters'', ''cacheCapacityMB'',
           ''cacheMetaTtlSec'', ''chunkSizeLimitMB'', ''metadataFlushSeconds''} \<longrightarrow>
           parse_int64 v \<noteq> None)
      \<and> (k \<in> {''writebackCache'', ''dlm''} \<longrightarrow> parse_bool v \<noteq> None)" for k v
    by (auto simp: validateMutableParameterValues_def dl_FromString_def Let_def
        split: option.splits)
  have "validateWritebackDlmCombo params = None \<longleftrightarrow>
      \<not> (parse_bool (goget params ''writebackCache'') = Some True
         \<and> parse_bool (goget params ''dlm'') = Some True)"
    by (auto simp: validateWritebackDlmCombo_def Let_def parse_bool_def)
  then show ?thesis unfolding validateMutable_iff vals by simp
qed

theorem validateMutableParameters_spec_witness:
  "validateMutableParameters [(''cacheCapacityMB'', ''-5''), (''dlm'', '''')] = None"
  unfolding validateMutableParameters_spec by code_simp

end
