(* ===== verification/Driver.thy ===== *)
theory Driver
  imports VolumeIds Parameters
begin

text \<open>
  The driver object (pkg/driver/driver.go) every server shares: its configuration, the access
  modes and controller capabilities it advertises, the choice of a filer, and the small helpers
  on topology keys and access modes. \<open>libs\<close> collects the pure functions of packages outside
  \<open>src/\<close> that the driver calls.
\<close>

section \<open>Libraries\<close>

record libs =
  sha256_hex :: "string \<Rightarrow> string"
  sha1_hex :: "string \<Rightarrow> string"
  os_TempDir :: string
  ToAddresses :: "string \<Rightarrow> string list"
  ToHttpAddress :: "string \<Rightarrow> string"
  VerifyS3BucketName :: "string \<Rightarrow> bool"
  json_Marshal :: "gomap \<Rightarrow> string"
  json_Unmarshal :: "string \<Rightarrow> err + gomap"
  IsDNS1123Subdomain :: "string \<Rightarrow> bool"
  ErrNotFound_text :: string

section \<open>CSI enumerations\<close>

datatype AccessMode =
  UNKNOWN | SINGLE_NODE_WRITER | SINGLE_NODE_READER_ONLY | MULTI_NODE_READER_ONLY
| MULTI_NODE_SINGLE_WRITER | MULTI_NODE_MULTI_WRITER | SINGLE_NODE_SINGLE_WRITER
| SINGLE_NODE_MULTI_WRITER

datatype ControllerCap =
  RPC_UNKNOWN | CREATE_DELETE_VOLUME | PUBLISH_UNPUBLISH_VOLUME | EXPAND_VOLUME
| CAP_SINGLE_NODE_MULTI_WRITER | MODIFY_VOLUME | LIST_VOLUMES

primrec cap_name :: "ControllerCap \<Rightarrow> string" where
  "cap_name RPC_UNKNOWN = ''UNKNOWN''"
| "cap_name CREATE_DELETE_VOLUME = ''CREATE_DELETE_VOLUME''"
| "cap_name PUBLISH_UNPUBLISH_VOLUME = ''PUBLISH_UNPUBLISH_VOLUME''"
| "cap_name EXPAND_VOLUME = ''EXPAND_VOLUME''"
| "cap_name CAP_SINGLE_NODE_MULTI_WRITER = ''SINGLE_NODE_MULTI_WRITER''"
| "cap_name MODIFY_VOLUME = ''MODIFY_VOLUME''"
| "cap_name LIST_VOLUMES = ''LIST_VOLUMES''"

text \<open>
  A volume capability, reduced to its access mode; \<open>None\<close> is a nil \<open>AccessMode\<close>, whose
  \<open>GetMode()\<close> is \<open>UNKNOWN\<close>.
\<close>

type_synonym VolumeCapability = "AccessMode option"

definition GetMode :: "VolumeCapability \<Rightarrow> AccessMode" where
  "GetMode cap = (case cap of None \<Rightarrow> UNKNOWN | Some m \<Rightarrow> m)"

section \<open>The driver\<close>

record SeaweedFsDriver =
  dr_name :: string
  dr_nodeID :: string
  dr_endpoint :: string
  mountEndpoint :: string
  volumeSocketDir :: string
  vcap :: "AccessMode list"
  cscap :: "ControllerCap list"
  filers :: "string list"
  filerIndex :: nat
  ConcurrentWriters :: int
  ConcurrentReaders :: int
  MountExtraArgs :: "string list"
  CacheCapacityMB :: int
  CacheMetaTtlSec :: int
  CacheDir :: string
  UidMap :: string
  GidMap :: string
  dr_DataCenter :: string
  dr_DataLocality :: DataLocality
  TopologyKeys :: "string list"

definition AddVolumeCapabilityAccessModes ::
  "AccessMode list \<Rightarrow> SeaweedFsDriver \<Rightarrow> SeaweedFsDriver" where
  "AddVolumeCapabilityAccessModes vc n = n\<lparr>vcap := vcap n @ vc\<rparr>"

definition AddControllerServiceCapabilities ::
  "ControllerCap list \<Rightarrow> SeaweedFsDriver \<Rightarrow> SeaweedFsDriver" where
  "AddControllerServiceCapabilities cl n = n\<lparr>cscap := cscap n @ cl\<rparr>"

text \<open>\<open>filepath.Dir\<close> of the socket address, or the default when the endpoint is unusable.\<close>

definition socket_dir_of :: "string \<Rightarrow> string" where
  "socket_dir_of ep =
     (if ep = '''' then DefaultSocketDir
      else (case mountParseEndpoint ep of
              None \<Rightarrow> DefaultSocketDir
            | Some (s, address) \<Rightarrow>
                if address \<noteq> '''' then path_dir address else DefaultSocketDir))"

definition NewSeaweedFsDriver ::
  "libs \<Rightarrow> string \<Rightarrow> string \<Rightarrow> string \<Rightarrow> string \<Rightarrow> string \<Rightarrow> bool \<Rightarrow> SeaweedFsDriver" where
  "NewSeaweedFsDriver L name filer nodeID endpoint mountEp enableAttacher =
     (let n0 = \<lparr>dr_name = name, dr_nodeID = nodeID, dr_endpoint = endpoint,
        mountEndpoint = mountEp, volumeSocketDir = socket_dir_of mountEp, vcap = [], cscap = [],
        filers = ToAddresses L filer, filerIndex = 0, ConcurrentWriters = 0,
        ConcurrentReaders = 0, MountExtraArgs = [], CacheCapacityMB = 0, CacheMetaTtlSec = 0,
        CacheDir = '''', UidMap = '''', GidMap = '''', dr_DataCenter = '''',
        dr_DataLocality = NoLocality, TopologyKeys = []\<rparr>;
          n1 = AddVolumeCapabilityAccessModes [MULTI_NODE_MULTI_WRITER, SINGLE_NODE_WRITER,
            SINGLE_NODE_MULTI_WRITER, SINGLE_NODE_SINGLE_WRITER] n0;
          n2 = AddControllerServiceCapabilities [CREATE_DELETE_VOLUME,
            CAP_SINGLE_NODE_MULTI_WRITER, EXPAND_VOLUME, MODIFY_VOLUME] n1
      in if enableAttacher then AddControllerServiceCapabilities [PUBLISH_UNPUBLISH_VOLUME] n2
         else n2)"

definition ValidateControllerServiceRequest :: "SeaweedFsDriver \<Rightarrow> ControllerCap \<Rightarrow> err option" where
  "ValidateControllerServiceRequest d c =
     (if c = RPC_UNKNOWN then None
      else if c \<in> set (cscap d) then None
      else Some (status_error InvalidArgument (cap_name c)))"

definition CloneWithFiler :: "libs \<Rightarrow> SeaweedFsDriver \<Rightarrow> string \<Rightarrow> SeaweedFsDriver" where
  "CloneWithFiler L d filer = d\<lparr>filers := ToAddresses L filer, filerIndex := 0\<rparr>"

text \<open>
  The body of \<open>WithFilerClient\<close>'s retry: starting at \<open>filerIndex\<close> and wrapping around, ask each
  filer once until one succeeds, and remember that one. \<open>call\<close> is the gRPC call on one filer;
  \<open>x\<close> counts the filers still to ask.
\<close>

fun filer_rotation ::
  "(string \<Rightarrow> err option) \<Rightarrow> string list \<Rightarrow> nat \<Rightarrow> nat \<Rightarrow> err option \<Rightarrow> err option \<times> nat option" where
  "filer_rotation call fs i 0 err = (err, None)"
| "filer_rotation call fs i (Suc x) err =
     (case call (fs ! i) of
        None \<Rightarrow> (None, Some i)
      | Some e \<Rightarrow> filer_rotation call fs (if Suc i \<ge> length fs then 0 else Suc i) x (Some e))"

definition WithFilerClient_attempt ::
  "SeaweedFsDriver \<Rightarrow> (string \<Rightarrow> err option) \<Rightarrow> err option \<times> SeaweedFsDriver" where
  "WithFilerClient_attempt d call =
     (case filer_rotation call (filers d) (filerIndex d) (length (filers d)) None of
        (err, Some i) \<Rightarrow> (err, d\<lparr>filerIndex := i\<rparr>)
      | (err, None) \<Rightarrow> (err, d))"

section \<open>Access modes and topology\<close>

definition isValidVolumeCapabilities :: "AccessMode list \<Rightarrow> VolumeCapability list \<Rightarrow> bool" where
  "isValidVolumeCapabilities driverVolumeCaps volCaps =
     list_all (\<lambda>c. list_ex (\<lambda>d. d = GetMode c) driverVolumeCaps) volCaps"

definition isReadOnlyAccessMode :: "AccessMode \<Rightarrow> bool" where
  "isReadOnlyAccessMode mode = list_ex (\<lambda>m. mode = m) [SINGLE_NODE_READER_ONLY, MULTI_NODE_READER_ONLY]"

text \<open>\<open>cap\<close> is the request's capability, which the handlers have checked to be present.\<close>

definition isVolumeReadOnly :: "VolumeCapability \<Rightarrow> bool" where
  "isVolumeReadOnly cap = (case cap of None \<Rightarrow> False | Some m \<Rightarrow> isReadOnlyAccessMode m)"

definition isPublishVolumeReadOnly :: "bool \<Rightarrow> VolumeCapability \<Rightarrow> bool" where
  "isPublishVolumeReadOnly readonly cap =
     (if readonly then True
      else (case cap of None \<Rightarrow> False | Some m \<Rightarrow> isReadOnlyAccessMode m))"

definition is_space :: "char \<Rightarrow> bool" where
  "is_space c \<longleftrightarrow> c = CHR '' '' \<or> (9 \<le> (of_char c :: nat) \<and> (of_char c :: nat) \<le> 13)"

text \<open>\<open>strings.TrimSpace\<close> on ASCII text.\<close>

definition trim_space :: "string \<Rightarrow> string" where
  "trim_space s = rev (dropWhile is_space (rev (dropWhile is_space s)))"

definition ParseTopologyKeys :: "string \<Rightarrow> string list" where
  "ParseTopologyKeys keys = filter (\<lambda>k. k \<noteq> '''') (map trim_space (split_on CHR '','' keys))"

text \<open>Identity server: the topology capability is advertised exactly when keys are configured.\<close>

datatype PluginCapability = CONTROLLER_SERVICE | EXPANSION_ONLINE | VOLUME_ACCESSIBILITY_CONSTRAINTS

definition GetPluginCapabilities :: "SeaweedFsDriver \<Rightarrow> PluginCapability list" where
  "GetPluginCapabilities d = [CONTROLLER_SERVICE, EXPANSION_ONLINE] @
     (if TopologyKeys d \<noteq> [] then [VOLUME_ACCESSIBILITY_CONSTRAINTS] else [])"

section \<open>Properties of the filer rotation\<close>

lemma filer_rotation_success:
  "filer_rotation call fs i x err = (r, Some j) \<Longrightarrow> r = None \<and> call (fs ! j) = None"
  by (induction call fs i x err rule: filer_rotation.induct) (auto split: option.splits)

lemma filer_rotation_index:
  "filer_rotation call fs i x err = (r, Some j) \<Longrightarrow> i < length fs \<Longrightarrow> j < length fs"
proof (induction call fs i x err rule: filer_rotation.induct)
  case (2 call fs i x err)
  from 2(3) have "(if Suc i \<ge> length fs then 0 else Suc i) < length fs"
    by (cases fs) auto
  then show ?case using 2 by (auto split: option.splits)
qed simp

lemma filer_rotation_failure:
  "filer_rotation call fs i x err = (r, None) \<Longrightarrow> i < length fs \<Longrightarrow> k < x \<Longrightarrow>
   call (fs ! ((i + k) mod length fs)) \<noteq> None"
proof (induction call fs i x err arbitrary: k rule: filer_rotation.induct)
  case (2 call fs i x err)
  then obtain e where e: "call (fs ! i) = Some e" by (auto split: option.splits)
  let ?j = "if Suc i \<ge> length fs then 0 else Suc i"
  show ?case
  proof (cases k)
    case 0
    then show ?thesis using 2 e by simp
  next
    case (Suc m)
    have "(?j + m) mod length fs = (i + k) mod length fs"
    proof (cases "Suc i \<ge> length fs")
      case True
      then have n: "Suc i = length fs" using 2(3) by simp
      have "i + k = m + length fs" using n Suc by simp
      then show ?thesis using True by simp
    qed (simp add: Suc)
    moreover have "call (fs ! ((?j + m) mod length fs)) \<noteq> None"
      using 2(1) [OF e, of m] 2(2-4) e Suc by (cases fs) auto
    ultimately show ?thesis by simp
  qed
qed simp

lemma filer_rotation_error:
  "filer_rotation call fs i x err = (r, None) \<Longrightarrow> r = None \<longleftrightarrow> x = 0 \<and> err = None"
  by (induction call fs i x err rule: filer_rotation.induct) (auto split: option.splits)

text \<open>
  A filer call fails over completely: one attempt of \<open>WithFilerClient\<close> on a driver with at
  least one filer succeeds if and only if some configured filer answers, the index it remembers
  is in range and names a filer that answered, and an attempt that fails has asked every filer.
\<close>

theorem filer_attempt_complete:
  assumes "filerIndex d < length (filers d)" and "WithFilerClient_attempt d call = (r, d')"
  shows "(r = None \<longleftrightarrow> (\<exists>f \<in> set (filers d). call f = None))
    \<and> filers d' = filers d \<and> filerIndex d' < length (filers d')
    \<and> (r = None \<longrightarrow> call (filers d' ! filerIndex d') = None)"
proof -
  obtain s j where rot: "filer_rotation call (filers d) (filerIndex d) (length (filers d)) None = (s, j)"
    by fastforce
  show ?thesis
  proof (cases j)
    case None
    have all: "call f \<noteq> None" if "f \<in> set (filers d)" for f
    proof -
      obtain m where m: "m < length (filers d)" "f = filers d ! m"
        using \<open>f \<in> set (filers d)\<close> by (auto simp: in_set_conv_nth)
      let ?k = "(m + length (filers d) - filerIndex d) mod length (filers d)"
      have "(filerIndex d + ?k) mod length (filers d) = m"
        using m(1) assms(1) by (simp add: mod_add_right_eq)
      moreover have "?k < length (filers d)" using assms(1) by (intro mod_less_divisor) auto
      ultimately show ?thesis
        using filer_rotation_failure [OF rot [unfolded None] assms(1), of ?k] m by simp
    qed
    have "s \<noteq> None" using filer_rotation_error [OF rot [unfolded None]] assms(1) by auto
    then show ?thesis using assms rot None all by (fastforce simp: WithFilerClient_attempt_def)
  next
    case (Some i)
    then show ?thesis
      using assms rot filer_rotation_success [OF rot [unfolded Some]]
        filer_rotation_index [OF rot [unfolded Some] assms(1)]
      by (auto simp: WithFilerClient_attempt_def)
  qed
qed

definition demo_libs :: libs where
  "demo_libs = \<lparr>sha256_hex = \<lambda>s. ''00'', sha1_hex = \<lambda>s. ''00'', os_TempDir = ''/tmp'',
     ToAddresses = \<lambda>s. filter (\<lambda>p. p \<noteq> '''') (split_on CHR '','' s), ToHttpAddress = \<lambda>s. s,
     VerifyS3BucketName = \<lambda>s. True, json_Marshal = \<lambda>m. ''{}'', json_Unmarshal = \<lambda>s. Inr [],
     IsDNS1123Subdomain = \<lambda>s. s \<noteq> '''' \<and> list_all (\<lambda>c. is_lower_char c \<or> is_digit_char c \<or> c = CHR ''-'') s,
     ErrNotFound_text = ''filer: no entry is found in filer store''\<rparr>"

definition demo_driver :: SeaweedFsDriver where
  "demo_driver = NewSeaweedFsDriver demo_libs ''csi'' ''a:8888,b:8888'' ''node''
     ''unix:///csi.sock'' ''unix:///run/mount/m.sock'' True"

theorem filer_attempt_complete_witness:
  "fst (WithFilerClient_attempt demo_driver
     (\<lambda>f. if f = ''a:8888'' then Some (errorf ''down'') else None)) = None"
proof -
  have two: "filers demo_driver = [''a:8888'', ''b:8888'']" "filerIndex demo_driver = 0"
    by (simp_all add: demo_driver_def NewSeaweedFsDriver_def demo_libs_def
        AddVolumeCapabilityAccessModes_def AddControllerServiceCapabilities_def)
  from filer_attempt_complete [OF _ prod.collapse [symmetric], of demo_driver
      "\<lambda>f. if f = ''a:8888'' then Some (errorf ''down'') else None"]
  show ?thesis by (simp add: two)
qed

text \<open>
  With no filer configured an attempt reports success without calling anything, so an
  operation such as creating a bucket is reported done although no filer was asked.
\<close>

theorem no_filer_reports_success:
  "WithFilerClient_attempt (d\<lparr>filers := []\<rparr>) call = (None, d\<lparr>filers := []\<rparr>)"
  by (simp add: WithFilerClient_attempt_def)

end
