(* ===== verification/MountArgs.thy ===== *)
theory MountArgs
  imports Driver "HOL-Library.Multiset"
begin

text \<open>
  pkg/driver/mounter.go: from a volume to the command line of its weed mount process. Go
  iterates a map in no fixed order; \<open>ord\<close> is the order of the ranges of a run, of which only
  \<open>range_order\<close> is assumed: a range visits every binding once.
\<close>

section \<open>Checks and quota\<close>

definition name_space :: "char \<Rightarrow> bool" where
  "name_space c \<longleftrightarrow> c = CHR '' '' \<or> c = CHR 0x09 \<or> c = CHR 0x0D \<or> c = CHR 0x0A"

definition managed_flags :: "string list" where
  "managed_flags = [''dir'', ''dirAutoCreate'', ''localSocket'', ''cacheDir'', ''readOnly'',
     ''filer'', ''filer.path'', ''collection'', ''collectionQuotaMB'']"

text \<open>The flag name of an argument: one leading dash removed, up to the first \<open>=\<close>.\<close>

definition flag_name :: "string \<Rightarrow> string" where
  "flag_name arg = fst (str_cut CHR ''='' (if has_prefix arg ''-'' then tl arg else arg))"

fun ValidateMountArgs :: "string list \<Rightarrow> err option" where
  "ValidateMountArgs [] = None"
| "ValidateMountArgs (arg # args) =
     (let name = flag_name arg
      in if \<not> has_prefix arg ''-'' \<or> name = '''' \<or> has_prefix name ''-'' \<or> list_ex name_space name
         then Some (errorf (''invalid mount argument '' @ quoted arg
           @ '': use -name=value or boolean -name''))
         else if name \<in> set managed_flags
         then Some (errorf (''mount argument '' @ quoted name @ '' is managed by the CSI driver''))
         else ValidateMountArgs args)"

definition volumeCapacityKey :: string where
  "volumeCapacityKey = ''volumeCapacity''"

definition bytesPerMiB :: int where
  "bytesPerMiB = 1024 * 1024"

definition initialCollectionQuotaMB :: "string \<Rightarrow> string" where
  "initialCollectionQuotaMB capacityBytes =
     (case parse_int64 capacityBytes of
        None \<Rightarrow> ''''
      | Some capacity \<Rightarrow>
          if capacity \<le> 1 then ''''
          else (let mb = capacity div bytesPerMiB
                in format_int (if capacity mod bytesPerMiB \<noteq> 0 then mb + 1 else mb)))"

section \<open>The mount service client (pkg/mountmanager/client.go)\<close>

definition NewClient :: "string \<Rightarrow> err option" where
  "NewClient endpoint =
     (case mountParseEndpoint endpoint of
        None \<Rightarrow> Some (errorf (''invalid endpoint: '' @ endpoint))
      | Some (scheme, address) \<Rightarrow>
          if scheme \<noteq> ''unix'' then Some (errorf (''unsupported endpoint scheme: '' @ scheme))
          else None)"

section \<open>Mounters\<close>

record mountServiceMounter =
  mo_volumeID :: string
  mo_readOnly :: bool
  mo_volContext :: gomap

text \<open>The driver of a mounter is the one it is used with.\<close>

definition newMounter ::
  "string \<Rightarrow> bool \<Rightarrow> SeaweedFsDriver \<Rightarrow> gomap \<Rightarrow> err + mountServiceMounter" where
  "newMounter volumeID readOnly driver volContext =
     (case NewClient (mountEndpoint driver) of
        Some err \<Rightarrow> Inl err
      | None \<Rightarrow> Inr \<lparr>mo_volumeID = volumeID, mo_readOnly = readOnly, mo_volContext = volContext\<rparr>)"

definition newUnmounter :: "SeaweedFsDriver \<Rightarrow> err option" where
  "newUnmounter driver = NewClient (mountEndpoint driver)"

definition filer_path_of :: "string \<Rightarrow> gomap \<Rightarrow> string" where
  "filer_path_of volumeID volumeContext =
     (let cleanVolumeID = snd (DecodeVolumeID volumeID)
      in if path_is_abs cleanVolumeID then cleanVolumeID
         else if goget volumeContext ''path'' = '''' then path_join [''/buckets'', volumeID]
         else goget volumeContext ''path'')"

definition collection_of :: "string \<Rightarrow> gomap \<Rightarrow> string" where
  "collection_of filerPath volumeContext =
     (if goget volumeContext ''collection'' = '''' then path_base filerPath
      else goget volumeContext ''collection'')"

definition default_args_map :: "SeaweedFsDriver \<Rightarrow> string \<Rightarrow> string \<Rightarrow> string list \<Rightarrow> gomap \<Rightarrow> gomap" where
  "default_args_map driver filerPath collection fs volumeContext =
     [(''collection'', collection),
      (''collectionQuotaMB'', initialCollectionQuotaMB (goget volumeContext volumeCapacityKey)),
      (''filer'', str_join '','' fs), (''filer.path'', filerPath),
      (''cacheCapacityMB'', format_int (CacheCapacityMB driver)),
      (''cacheMetaTtlSec'', format_int (CacheMetaTtlSec driver)),
      (''concurrentReaders'', format_int (ConcurrentReaders driver)),
      (''concurrentWriters'', format_int (ConcurrentWriters driver)),
      (''map.uid'', UidMap driver), (''map.gid'', GidMap driver), (''disk'', ''''),
      (''dataCenter'', ''''), (''replication'', ''''), (''ttl'', ''''), (''chunkSizeLimitMB'', ''''),
      (''volumeServerAccess'', ''''), (''readRetryTime'', ''''), (''writebackCache'', ''''),
      (''metadataFlushSeconds'', ''''), (''dlm'', '''')]"

definition ignoredArgs :: "string list" where
  "ignoredArgs = [''collectionQuotaMB'', ''dataLocality'', ''path'', ''parentDir'', ''volumeName'',
     volumeCapacityKey]"

definition parameter_arg :: "string \<Rightarrow> string" where
  "parameter_arg key =
     (if key = ''uidMap'' then ''map.uid'' else if key = ''gidMap'' then ''map.gid''
      else if key = ''diskType'' then ''disk'' else key)"

text \<open>The range over the volume context.\<close>

fun context_args :: "gomap \<Rightarrow> gomap \<Rightarrow> gomap" where
  "context_args argsMap [] = argsMap"
| "context_args argsMap ((key, value) # ctx) =
     (if key \<in> set ignoredArgs then context_args argsMap ctx
      else if map_of argsMap (parameter_arg key) = None then context_args argsMap ctx
      else context_args (if value \<noteq> '''' then goset (parameter_arg key) value argsMap else argsMap) ctx)"

definition render_args :: "gomap \<Rightarrow> string list" where
  "render_args argsMap =
     map (\<lambda>(key, value). ''-'' @ key @ ''='' @ value) (filter (\<lambda>(key, value). value \<noteq> '''') argsMap)"

text \<open>The locality of a mount: the driver's, overridden by the volume context.\<close>

definition locality_of :: "SeaweedFsDriver \<Rightarrow> gomap \<Rightarrow> err + DataLocality \<times> string" where
  "locality_of driver volumeContext =
     (let contextLocality = goget volumeContext ''dataLocality'';
          contextDataCenter = goget volumeContext ''dataCenter'';
          dataCenter = (if contextDataCenter \<noteq> '''' then contextDataCenter else dr_DataCenter driver)
      in case (if contextLocality \<noteq> '''' then dl_FromString contextLocality
               else Some (dr_DataLocality driver)) of
           None \<Rightarrow> Inl (errorf (''invalid volumeContext dataLocality: '' @ contextLocality))
         | Some dataLocality \<Rightarrow>
             (case CheckDataLocality dataLocality dataCenter of
                Some err \<Rightarrow> Inl err
              | None \<Rightarrow> Inr (dataLocality, dataCenter)))"

definition buildMountArgs ::
  "(gomap \<Rightarrow> gomap) \<Rightarrow> SeaweedFsDriver \<Rightarrow> mountServiceMounter \<Rightarrow> string \<Rightarrow> string \<Rightarrow> string \<Rightarrow>
   string list \<Rightarrow> err + string list" where
  "buildMountArgs ord driver m targetPath cacheDir localSocket fs =
     (case ValidateMountArgs (MountExtraArgs driver) of
        Some err \<Rightarrow> Inl err
      | None \<Rightarrow>
     (let volumeContext = mo_volContext m;
          filerPath = filer_path_of (mo_volumeID m) volumeContext;
          collection = collection_of filerPath volumeContext;
          args = [''-logtostderr=true'', ''mount'', ''-dirAutoCreate=true'', ''-umask=000'',
            ''-dir='' @ targetPath, ''-localSocket='' @ localSocket, ''-cacheDir='' @ cacheDir]
            @ (if mo_readOnly m then [''-readOnly''] else []);
          argsMap = default_args_map driver filerPath collection fs volumeContext
      in case locality_of driver volumeContext of
           Inl err \<Rightarrow> Inl err
         | Inr (dataLocality, dataCenter) \<Rightarrow>
             (let argsMap1 = (if dataLocality = Write_preferLocalDc
                              then goset ''dataCenter'' dataCenter argsMap else argsMap);
                  argsMap2 = context_args argsMap1 (ord volumeContext)
              in Inr (args @ render_args (ord argsMap2) @ MountExtraArgs driver))))"

text \<open>The filers of a mount: the volume ID's, else the context's, else the driver's.\<close>

definition mount_filers :: "SeaweedFsDriver \<Rightarrow> mountServiceMounter \<Rightarrow> string list" where
  "mount_filers driver m =
     (let filerAddr = fst (DecodeVolumeID (mo_volumeID m));
          customFiler = goget (mo_volContext m) ''filer''
      in if filerAddr \<noteq> '''' then [filerAddr]
         else if customFiler \<noteq> '''' then [customFiler] else filers driver)"

text \<open>
  \<open>None\<close> is success; the unmounter it returns is the volume's, and is used through
  \<open>unmounter_Unmount\<close>.
\<close>

definition mounter_Mount ::
  "libs \<Rightarrow> (gomap \<Rightarrow> gomap) \<Rightarrow> env \<Rightarrow> SeaweedFsDriver \<Rightarrow> mountServiceMounter \<Rightarrow> string \<Rightarrow>
   ('w, err option) io" where
  "mounter_Mount L ord E driver m target =
     (if target = '''' then ret (Some (errorf ''target path is required''))
      else
       (let cacheDir = GetCacheDir (sha256_hex L) (os_TempDir L) (CacheDir driver) (mo_volumeID m);
            localSocket = GetLocalSocket (sha256_hex L) (volumeSocketDir driver) (mo_volumeID m)
        in case buildMountArgs ord driver m target cacheDir localSocket (mount_filers driver m) of
             Inl err \<Rightarrow> ret (Some err)
           | Inr args \<Rightarrow>
               (let req = \<lparr>mr_VolumeID = mo_volumeID m, mr_TargetPath = target,
                  mr_CacheDir = cacheDir, mr_MountArgs = args, mr_LocalSocket = localSocket,
                  mr_VolumeContext = mo_volContext m, mr_ReadOnly = mo_readOnly m\<rparr>
                in ext (\<lambda>h. svc_Mount E h req) (ESvcMount req))))"

definition unmounter_Unmount :: "env \<Rightarrow> string \<Rightarrow> ('w, err option) io" where
  "unmounter_Unmount E volumeID = ext (\<lambda>h. svc_Unmount E h volumeID) (ESvcUnmount volumeID)"

section \<open>Lemmas\<close>

definition range_order :: "(gomap \<Rightarrow> gomap) \<Rightarrow> bool" where
  "range_order ord \<longleftrightarrow> (\<forall>m. mset (ord m) = mset m)"

lemma range_order_set: "range_order ord \<Longrightarrow> set (ord m) = set m"
  by (metis range_order_def set_mset_mset)

lemma range_order_ok: "range_order ord \<Longrightarrow> gomap_ok m \<Longrightarrow> gomap_ok (ord m)"
  unfolding range_order_def gomap_ok_def by (metis mset_eq_imp_distinct_iff mset_map)

lemma range_order_map_of: "range_order ord \<Longrightarrow> gomap_ok m \<Longrightarrow> map_of (ord m) = map_of m"
  using range_order_set [of ord m] range_order_ok [of ord m]
  by (auto simp: gomap_ok_def intro!: map_of_eqI)

lemma ValidateMountArgs_iff:
  "ValidateMountArgs args = None \<longleftrightarrow> (\<forall>a \<in> set args. has_prefix a ''-'' \<and> flag_name a \<noteq> ''''
     \<and> \<not> has_prefix (flag_name a) ''-'' \<and> \<not> list_ex name_space (flag_name a)
     \<and> flag_name a \<notin> set managed_flags)"
  by (induction args rule: ValidateMountArgs.induct) (auto simp: Let_def)

lemma context_args_keys: "map fst (context_args m ctx) = map fst m"
proof (induction m ctx rule: context_args.induct)
  case (2 m key val ctx)
  have "map fst (goset k v m) = map fst m" if "map_of m k \<noteq> None" for k v
    using that by (induction m) (auto split: if_splits)
  then show ?case using 2 by (auto split: if_splits)
qed simp

lemma context_args_untouched:
  "\<forall>(j, v) \<in> set ctx. parameter_arg j \<noteq> k \<or> j \<in> set ignoredArgs \<or> v = '''' \<Longrightarrow>
   map_of (context_args m ctx) k = map_of m k"
  by (induction m ctx rule: context_args.induct) (auto simp: update_conv')

lemma str_cut_append: "d \<notin> set k \<Longrightarrow> str_cut d (k @ d # v) = (k, v, True)"
  by (induction k) auto

lemma flag_name_rendered: "CHR ''='' \<notin> set k \<Longrightarrow> flag_name (''-'' @ k @ ''='' @ v) = k"
  by (simp add: flag_name_def has_prefix_def str_cut_append)

lemma fixed_flags:
  "flag_name ''-logtostderr=true'' = ''logtostderr''" "flag_name ''mount'' = ''mount''"
  "flag_name ''-dirAutoCreate=true'' = ''dirAutoCreate''" "flag_name ''-umask=000'' = ''umask''"
  "flag_name ''-readOnly'' = ''readOnly''"
  by code_simp+

lemma args_map_keys:
  "map fst (context_args (if b then goset ''dataCenter'' dc (default_args_map d fp c fs ctx)
     else default_args_map d fp c fs ctx) kvs) = map fst (default_args_map d fp c fs [])"
  by (simp add: context_args_keys default_args_map_def)

lemma args_map_flags:
  "\<forall>k \<in> fst ` set (default_args_map d fp c fs ctx). CHR ''='' \<notin> set k
     \<and> k \<notin> {''dir'', ''localSocket'', ''cacheDir'', ''readOnly'', ''dirAutoCreate'', ''umask'',
        ''logtostderr'', ''mount''}"
  by (simp add: default_args_map_def)

text \<open>The final map of arguments of a build that succeeds.\<close>

definition final_args_map ::
  "(gomap \<Rightarrow> gomap) \<Rightarrow> SeaweedFsDriver \<Rightarrow> mountServiceMounter \<Rightarrow> string list \<Rightarrow> DataLocality \<Rightarrow>
   string \<Rightarrow> gomap" where
  "final_args_map ord driver m fs dl dc =
     (let fp = filer_path_of (mo_volumeID m) (mo_volContext m);
          m0 = default_args_map driver fp (collection_of fp (mo_volContext m)) fs (mo_volContext m)
      in context_args (if dl = Write_preferLocalDc then goset ''dataCenter'' dc m0 else m0)
           (ord (mo_volContext m)))"

lemma build_ok:
  assumes "buildMountArgs ord driver m target cacheDir sock fs = Inr args"
  obtains dl dc where "locality_of driver (mo_volContext m) = Inr (dl, dc)"
    and "args = [''-logtostderr=true'', ''mount'', ''-dirAutoCreate=true'', ''-umask=000'',
      ''-dir='' @ target, ''-localSocket='' @ sock, ''-cacheDir='' @ cacheDir]
      @ (if mo_readOnly m then [''-readOnly''] else [])
      @ render_args (ord (final_args_map ord driver m fs dl dc)) @ MountExtraArgs driver"
    and "ValidateMountArgs (MountExtraArgs driver) = None"
  using assms
  by (auto simp: buildMountArgs_def final_args_map_def Let_def split: option.splits sum.splits)

lemma final_args_map_ok: "gomap_ok (final_args_map ord driver m fs dl dc)"
  unfolding gomap_ok_def final_args_map_def Let_def args_map_keys
  by (simp add: default_args_map_def)

lemma final_args_map_keys:
  "fst ` set (final_args_map ord driver m fs dl dc) = fst ` set (default_args_map d fp c gs ctx)"
proof -
  have "map fst (final_args_map ord driver m fs dl dc) = map fst (default_args_map d fp c gs ctx)"
    unfolding final_args_map_def Let_def args_map_keys by (simp add: default_args_map_def)
  then show ?thesis by (metis set_map)
qed

lemma rendered_flags:
  assumes "range_order ord" and "a \<in> set (render_args (ord (final_args_map ord driver m fs dl dc)))"
  shows "flag_name a \<notin> {''dir'', ''localSocket'', ''cacheDir'', ''readOnly'', ''dirAutoCreate'',
    ''umask'', ''logtostderr'', ''mount''}"
proof -
  obtain k v where kv: "a = ''-'' @ k @ ''='' @ v" "(k, v) \<in> set (final_args_map ord driver m fs dl dc)"
    using assms(2) range_order_set [OF assms(1)] by (auto simp: render_args_def)
  have "k \<in> fst ` set (final_args_map ord driver m fs dl dc)" using kv(2) by force
  then show ?thesis
    using args_map_flags kv(1) flag_name_rendered
    unfolding final_args_map_keys [of ord driver m fs dl dc driver "''''" "''''" fs "[]"]
    by fastforce
qed

lemma filter_none: "(\<And>a. a \<in> set xs \<Longrightarrow> \<not> P a) \<Longrightarrow> filter P xs = []"
  by (simp add: filter_empty_conv)

section \<open>Properties\<close>

text \<open>
  C32: The flags that tie a mount process to its volume are the driver's alone: in every command
  line \<open>buildMountArgs\<close> produces, whatever extra arguments the operator configured, whatever the
  volume context holds and in whatever order the maps are visited, \<open>-dir\<close>, \<open>-localSocket\<close>,
  \<open>-cacheDir\<close> and \<open>-readOnly\<close> occur exactly as the driver sets them and nowhere else.
\<close>

theorem managed_flags_are_the_drivers:
  assumes "range_order ord"
    and "buildMountArgs ord driver m target cacheDir sock fs = Inr args"
  shows "filter (\<lambda>a. flag_name a \<in> {''dir'', ''localSocket'', ''cacheDir'', ''readOnly''}) args
    = [''-dir='' @ target, ''-localSocket='' @ sock, ''-cacheDir='' @ cacheDir]
      @ (if mo_readOnly m then [''-readOnly''] else [])"
proof -
  obtain dl dc where args: "args = [''-logtostderr=true'', ''mount'', ''-dirAutoCreate=true'',
      ''-umask=000'', ''-dir='' @ target, ''-localSocket='' @ sock, ''-cacheDir='' @ cacheDir]
      @ (if mo_readOnly m then [''-readOnly''] else [])
      @ render_args (ord (final_args_map ord driver m fs dl dc)) @ MountExtraArgs driver"
    and extra: "ValidateMountArgs (MountExtraArgs driver) = None"
    using assms(2) by (rule build_ok)
  let ?P = "\<lambda>a. flag_name a \<in> {''dir'', ''localSocket'', ''cacheDir'', ''readOnly''}"
  have 1: "filter ?P (render_args (ord (final_args_map ord driver m fs dl dc))) = []"
    by (rule filter_none) (use rendered_flags [OF assms(1)] in blast)
  have 2: "filter ?P (MountExtraArgs driver) = []"
    using extra by (intro filter_none) (auto simp: ValidateMountArgs_iff managed_flags_def)
  show ?thesis
    unfolding args filter_append 1 2
    using flag_name_rendered [of "''dir''" target] flag_name_rendered [of "''localSocket''" sock]
      flag_name_rendered [of "''cacheDir''" cacheDir]
    by (simp add: fixed_flags)
qed

theorem managed_flags_are_the_drivers_witness:
  "filter (\<lambda>a. flag_name a \<in> {''dir'', ''localSocket'', ''cacheDir'', ''readOnly''})
     (projr (buildMountArgs id demo_driver \<lparr>mo_volumeID = ''/buckets/v'', mo_readOnly = True,
       mo_volContext = [(''cacheDir'', ''/evil''), (''ttl'', ''1d'')]\<rparr> ''/t'' ''/c'' ''/s'' [''f'']))
   = [''-dir=/t'', ''-localSocket=/s'', ''-cacheDir=/c'', ''-readOnly'']"
proof -
  let ?m = "\<lparr>mo_volumeID = ''/buckets/v'', mo_readOnly = True,
       mo_volContext = [(''cacheDir'', ''/evil''), (''ttl'', ''1d'')]\<rparr>"
  have ord: "range_order id" by (simp add: range_order_def)
  have "isl (buildMountArgs id demo_driver ?m ''/t'' ''/c'' ''/s'' [''f'']) = False" by code_simp
  then have "buildMountArgs id demo_driver ?m ''/t'' ''/c'' ''/s'' [''f''] =
      Inr (projr (buildMountArgs id demo_driver ?m ''/t'' ''/c'' ''/s'' [''f'']))"
    by (metis sum.collapse(2))
  from managed_flags_are_the_drivers [OF ord this] show ?thesis by simp
qed

text \<open>
  A volume is mounted from where it was created: for a volume ID that encodes filer \<open>f\<close> and
  path \<open>p\<close>, and a volume context without \<open>filer\<close> and \<open>filer.path\<close> entries, every command line
  has \<open>-filer=f\<close> and \<open>-filer.path=p\<close>, whatever filers the driver itself uses.
\<close>

theorem mount_args_follow_volume_id:
  assumes "range_order ord" and "gomap_ok (mo_volContext m)"
    and "mo_volumeID m = EncodeVolumeID f p" and "plain_filer_address f" and "path_is_abs p"
    and "goget (mo_volContext m) ''filer'' = ''''" and "goget (mo_volContext m) ''filer.path'' = ''''"
    and "buildMountArgs ord driver m target cacheDir sock (mount_filers driver m) = Inr args"
  shows "''-filer='' @ f \<in> set args \<and> ''-filer.path='' @ p \<in> set args"
proof -
  have dec: "DecodeVolumeID (mo_volumeID m) = (f, p)"
    using decode_encode assms(3-5) by simp
  have f: "mount_filers driver m = [f]" "f \<noteq> ''''"
    using dec assms(4) by (auto simp: mount_filers_def plain_filer_address_def)
  have p: "filer_path_of (mo_volumeID m) (mo_volContext m) = p" "p \<noteq> ''''"
    using dec assms(5) by (auto simp: filer_path_of_def path_is_abs_iff)
  obtain dl dc where args: "args = [''-logtostderr=true'', ''mount'', ''-dirAutoCreate=true'',
      ''-umask=000'', ''-dir='' @ target, ''-localSocket='' @ sock, ''-cacheDir='' @ cacheDir]
      @ (if mo_readOnly m then [''-readOnly''] else [])
      @ render_args (ord (final_args_map ord driver m (mount_filers driver m) dl dc))
      @ MountExtraArgs driver"
    using assms(8) by (rule build_ok)
  let ?final = "final_args_map ord driver m (mount_filers driver m) dl dc"
  have rendered: "''-'' @ k @ ''='' @ v \<in> set args"
    if "map_of ?final k = Some v" "v \<noteq> ''''" for k v
    using map_of_SomeD [OF that(1)] that(2) range_order_set [OF assms(1)]
    unfolding args render_args_def by force
  have keep: "map_of ?final k = map_of (default_args_map driver p (collection_of p (mo_volContext m))
      [f] (mo_volContext m)) k"
    if "k \<in> {''filer'', ''filer.path''}" "goget (mo_volContext m) k = ''''" for k
  proof -
    have none: "v = ''''" if "(k, v) \<in> set (mo_volContext m)" for v
      using assms(2) that \<open>goget (mo_volContext m) k = ''''\<close> by (simp add: gomap_ok_def goget_def)
    have "\<forall>(j, v) \<in> set (ord (mo_volContext m)). parameter_arg j \<noteq> k \<or> j \<in> set ignoredArgs \<or> v = ''''"
      using that(1) none unfolding range_order_set [OF assms(1)]
      by (auto simp: parameter_arg_def split: if_splits)
    then show ?thesis
      using that(1) by (auto simp: final_args_map_def Let_def context_args_untouched f p update_conv')
  qed
  have "map_of ?final ''filer'' = Some f" "map_of ?final ''filer.path'' = Some p"
    using keep [of "''filer''"] keep [of "''filer.path''"] assms(6,7)
    by (simp_all add: default_args_map_def)
  then show ?thesis using rendered f(2) p(2) by fastforce
qed

theorem mount_args_follow_volume_id_witness:
  "''-filer=f:1'' \<in> set (projr (buildMountArgs rev demo_driver
     \<lparr>mo_volumeID = ''filer://f:1/buckets/v'', mo_readOnly = False, mo_volContext = [(''ttl'', ''1d'')]\<rparr>
     ''/t'' ''/c'' ''/s'' [''f:1'']))"
proof -
  let ?m = "\<lparr>mo_volumeID = ''filer://f:1/buckets/v'', mo_readOnly = False,
    mo_volContext = [(''ttl'', ''1d'')]\<rparr>"
  have ord: "range_order rev" by (simp add: range_order_def)
  have fs: "mount_filers demo_driver ?m = [''f:1'']" by code_simp
  have "isl (buildMountArgs rev demo_driver ?m ''/t'' ''/c'' ''/s'' [''f:1'']) = False" by code_simp
  then have run: "buildMountArgs rev demo_driver ?m ''/t'' ''/c'' ''/s'' (mount_filers demo_driver ?m)
    = Inr (projr (buildMountArgs rev demo_driver ?m ''/t'' ''/c'' ''/s'' [''f:1'']))"
    unfolding fs by (metis sum.collapse(2))
  have "plain_filer_address ''f:1''" "path_is_abs ''/buckets/v''"
    "mo_volumeID ?m = EncodeVolumeID ''f:1'' ''/buckets/v''"
    "goget (mo_volContext ?m) ''filer'' = ''''" "goget (mo_volContext ?m) ''filer.path'' = ''''"
    "gomap_ok (mo_volContext ?m)"
    by code_simp+
  from mount_args_follow_volume_id [OF ord this(6,3,1,2,4,5) run] show ?thesis by simp
qed

text \<open>
  The filer encoded in a volume ID does not prevail over the volume context, although the
  code chooses it first: a context entry \<open>filer\<close> replaces the flag's value when the context is
  copied over the argument map.
\<close>

theorem context_filer_overrides_volume_id:
  "mount_filers demo_driver \<lparr>mo_volumeID = ''filer://f:1/buckets/v'', mo_readOnly = False,
      mo_volContext = [(''filer'', ''g:2'')]\<rparr> = [''f:1'']
   \<and> ''-filer=g:2'' \<in> set (projr (buildMountArgs id demo_driver
      \<lparr>mo_volumeID = ''filer://f:1/buckets/v'', mo_readOnly = False, mo_volContext = [(''filer'', ''g:2'')]\<rparr>
      ''/t'' ''/c'' ''/s'' [''f:1'']))"
  by code_simp

text \<open>
  Two context keys for one flag make the command line depend on Go's map order: with both
  \<open>diskType\<close> and \<open>disk\<close> in the context, either may win.
\<close>

theorem disk_flag_depends_on_map_order:
  "''-disk=ssd'' \<in> set (projr (buildMountArgs id demo_driver \<lparr>mo_volumeID = ''/buckets/v'',
      mo_readOnly = False, mo_volContext = [(''disk'', ''hdd''), (''diskType'', ''ssd'')]\<rparr>
      ''/t'' ''/c'' ''/s'' [''f'']))
   \<and> ''-disk=hdd'' \<in> set (projr (buildMountArgs rev demo_driver \<lparr>mo_volumeID = ''/buckets/v'',
      mo_readOnly = False, mo_volContext = [(''disk'', ''hdd''), (''diskType'', ''ssd'')]\<rparr>
      ''/t'' ''/c'' ''/s'' [''f'']))"
  by code_simp

text \<open>
  The collection quota is the capacity in MiB rounded up: for a capacity of more than one
  byte the printed quota \<open>q\<close> is positive and satisfies \<open>(q - 1) * 2^20 < capacity \<le> q * 2^20\<close>,
  with no overflow of the 64-bit arithmetic; a capacity of one byte or less, and text that is
  not a 64-bit decimal, give no quota.
\<close>

theorem initial_quota_bounds:
  "case parse_int64 s of
     None \<Rightarrow> initialCollectionQuotaMB s = ''''
   | Some c \<Rightarrow>
       if c \<le> 1 then initialCollectionQuotaMB s = ''''
       else \<exists>q. initialCollectionQuotaMB s = format_int q \<and> 0 < q
         \<and> (q - 1) * 2 ^ 20 < c \<and> c \<le> q * 2 ^ 20 \<and> fits_int64 q"
proof (cases "parse_int64 s")
  case None
  then show ?thesis by (simp add: initialCollectionQuotaMB_def)
next
  case (Some c)
  then have fit: "fits_int64 c" by (auto simp: parse_int64_def Let_def split: if_splits)
  show ?thesis
  proof (cases "c \<le> 1")
    case True
    then show ?thesis using Some by (simp add: initialCollectionQuotaMB_def)
  next
    case False
    let ?q = "if c mod bytesPerMiB \<noteq> 0 then c div bytesPerMiB + 1 else c div bytesPerMiB"
    have q: "initialCollectionQuotaMB s = format_int ?q"
      using Some False by (simp add: initialCollectionQuotaMB_def Let_def)
    define a b where ab: "a = c div bytesPerMiB" "b = c mod bytesPerMiB"
    have c: "c = a * 1048576 + b" "0 \<le> b" "b < 1048576"
      unfolding ab bytesPerMiB_def by simp_all
    then have a: "0 \<le> a" using False by simp
    have "0 < ?q \<and> (?q - 1) * 2 ^ 20 < c \<and> c \<le> ?q * 2 ^ 20"
      using c a False unfolding ab [symmetric] by auto
    moreover have "?q \<le> c" "0 \<le> ?q" using c a False unfolding ab [symmetric] by auto
    then have "fits_int64 ?q" using fit by (simp add: fits_int64_def int64_min_def)
    ultimately show ?thesis using Some False q by auto
  qed
qed

theorem initial_quota_bounds_witness:
  "\<exists>q. initialCollectionQuotaMB ''1048577'' = format_int q \<and> 0 < q \<and> (q - 1) * 2 ^ 20 < 1048577"
proof -
  have "parse_int64 ''1048577'' = Some 1048577" by code_simp
  with initial_quota_bounds [of "''1048577''"] show ?thesis by auto
qed

text \<open>
  With checked parameters, one thing is left for which a command line is refused: a locality is
  asked for, by the volume or else by the driver, and neither names a data centre.
\<close>

definition lacks_data_centre :: "SeaweedFsDriver \<Rightarrow> gomap \<Rightarrow> bool" where
  "lacks_data_centre driver ctx \<longleftrightarrow> goget ctx ''dataCenter'' = '''' \<and> dr_DataCenter driver = ''''
     \<and> (let l = goget ctx ''dataLocality''
        in if l \<noteq> '''' then dl_FromString l = Some Write_preferLocalDc else dr_DataLocality driver = Write_preferLocalDc)"

lemma checked_args:
  assumes "validateConstrainedParameterValues ctx = None" and "ValidateMountArgs (MountExtraArgs driver) = None"
    and "mo_volContext m = ctx \<or> (\<exists>n. mo_volContext m = goset volumeCapacityKey n ctx)"
  shows "isl (buildMountArgs ord driver m target cacheDir sock fs) \<longleftrightarrow> lacks_data_centre driver ctx"
proof -
  have mut: "is_mutable ''dataLocality''" by (simp add: is_mutable_def mutableMountParameters_def)
  have "dl_FromString (goget ctx ''dataLocality'') \<noteq> None" if "goget ctx ''dataLocality'' \<noteq> ''''"
  proof -
    have "(''dataLocality'', goget ctx ''dataLocality'') \<in> set ctx"
      using that by (auto simp: goget_def dest: map_of_SomeD split: option.splits)
    then have "validateMutableParameterValues ''dataLocality'' (goget ctx ''dataLocality'') = None"
      using assms(1) mut by (auto simp: validateConstrained_iff)
    with that show ?thesis by (auto simp: validateMutableParameterValues_def split: option.splits)
  qed
  then obtain dl where dl: "(if goget ctx ''dataLocality'' \<noteq> '''' then dl_FromString (goget ctx ''dataLocality'')
      else Some (dr_DataLocality driver)) = Some dl"
    by fastforce
  then have "isl (locality_of driver ctx) \<longleftrightarrow> lacks_data_centre driver ctx"
    by (cases dl; cases "goget ctx ''dataLocality'' = ''''")
       (simp_all add: locality_of_def lacks_data_centre_def CheckDataLocality_def Let_def)
  moreover have "locality_of driver (mo_volContext m) = locality_of driver ctx"
    using assms(3) by (auto simp: locality_of_def goget_def update_conv' volumeCapacityKey_def)
  ultimately show ?thesis
    using assms(2) by (cases "locality_of driver ctx") (auto simp: buildMountArgs_def Let_def)
qed

text \<open>
  A class the controller accepts can still break the next mount: data locality without a
  data centre passes \<open>validateMutableParameters\<close>, and on a driver without a data centre of its
  own every mount built from it fails.
\<close>

theorem accepted_locality_breaks_mount:
  assumes "dr_DataCenter driver = ''''" and "ValidateMountArgs (MountExtraArgs driver) = None"
  shows "validateMutableParameters [(''dataLocality'', ''write_preferLocalDc'')] = None
    \<and> isl (buildMountArgs ord driver \<lparr>mo_volumeID = v, mo_readOnly = ro,
        mo_volContext = [(''dataLocality'', ''write_preferLocalDc'')]\<rparr> target cacheDir sock fs)"
proof
  show "validateMutableParameters [(''dataLocality'', ''write_preferLocalDc'')] = None" by code_simp
  have "dl_FromString ''write_preferLocalDc'' = Some Write_preferLocalDc" by code_simp
  then show "isl (buildMountArgs ord driver \<lparr>mo_volumeID = v, mo_readOnly = ro,
      mo_volContext = [(''dataLocality'', ''write_preferLocalDc'')]\<rparr> target cacheDir sock fs)"
    using assms by (simp add: buildMountArgs_def Let_def locality_of_def goget_def
        CheckDataLocality_def)
qed

theorem accepted_locality_breaks_mount_witness:
  "isl (buildMountArgs id demo_driver \<lparr>mo_volumeID = ''/buckets/v'', mo_readOnly = False,
      mo_volContext = [(''dataLocality'', ''write_preferLocalDc'')]\<rparr> ''/t'' ''/c'' ''/s'' [''f''])"
proof -
  have "dr_DataCenter demo_driver = ''''" "ValidateMountArgs (MountExtraArgs demo_driver) = None"
    by code_simp+
  from accepted_locality_breaks_mount [OF this] show ?thesis by blast
qed

end
