(* ===== verification/MountTable.thy ===== *)
theory MountTable
  imports MountUtil Driver
begin

text \<open>
  /proc/self/mountinfo (pkg/driver/container_remount_linux.go): its parser, the device of a
  mount, and the selection of a volume's publish paths by device.
\<close>

section \<open>Parsing\<close>

record mountInfoEntry =
  mie_device :: string
  mie_root :: string
  mie_mountpoint :: string
  mie_fstype :: string
  mie_readOnly :: bool

text \<open>
  \<open>bufio.Scanner\<close> with the default split function: lines without their terminator. A line
  that does not fit the scanner's buffer ends the scan, which the second component says.
\<close>

definition MaxScanTokenSize :: int where
  "MaxScanTokenSize = 65536"

definition strip_cr :: "string \<Rightarrow> string" where
  "strip_cr l = (if l \<noteq> [] \<and> last l = CHR 0x0D then butlast l else l)"

definition scan_lines :: "string \<Rightarrow> string list \<times> bool" where
  "scan_lines s =
     (let ls = split_on CHR 0x0A s;
          tokens = (if last ls = [] then butlast ls else ls);
          scanned = takeWhile (\<lambda>l. int (length l) < MaxScanTokenSize) tokens
      in (map strip_cr scanned, length scanned < length tokens))"

text \<open>
  \<open>unicode.IsSpace\<close> at the front of a text, as the width of the white space in bytes: the ASCII
  ones, NEL (U+0085) and NBSP (U+00A0), and U+1680, U+2000 to U+200A, U+2028, U+2029, U+202F,
  U+205F and U+3000 in UTF-8.
\<close>

definition space2 :: "nat \<Rightarrow> nat \<Rightarrow> bool" where
  "space2 a b \<longleftrightarrow> a = 0xC2 \<and> (b = 0x85 \<or> b = 0xA0)"

definition space3 :: "nat \<Rightarrow> nat \<Rightarrow> nat \<Rightarrow> bool" where
  "space3 a b c \<longleftrightarrow> a = 0xE1 \<and> b = 0x9A \<and> c = 0x80
     \<or> a = 0xE2 \<and> b = 0x80 \<and> (0x80 \<le> c \<and> c \<le> 0x8A \<or> c = 0xA8 \<or> c = 0xA9 \<or> c = 0xAF)
     \<or> a = 0xE2 \<and> b = 0x81 \<and> c = 0x9F
     \<or> a = 0xE3 \<and> b = 0x80 \<and> c = 0x80"

definition space_width :: "string \<Rightarrow> nat" where
  "space_width s =
     (case s of
        [] \<Rightarrow> 0
      | a # s1 \<Rightarrow>
          if is_space a then 1
          else (case s1 of
                  [] \<Rightarrow> 0
                | b # s2 \<Rightarrow>
                    if space2 (of_char a) (of_char b) then 2
                    else (case s2 of
                            [] \<Rightarrow> 0
                          | c # _ \<Rightarrow> if space3 (of_char a) (of_char b) (of_char c) then 3 else 0)))"

text \<open>\<open>strings.Fields\<close>: the maximal runs without white space.\<close>

fun split_spaces :: "string \<Rightarrow> string list" where
  "split_spaces [] = [[]]"
| "split_spaces (c # s) =
     (if space_width (c # s) = 0
      then (case split_spaces s of [] \<Rightarrow> [[c]] | w # ws \<Rightarrow> (c # w) # ws)
      else [] # split_spaces (drop (space_width (c # s) - 1) s))"

definition str_fields :: "string \<Rightarrow> string list" where
  "str_fields s = filter (\<lambda>w. w \<noteq> []) (split_spaces s)"

definition isOctalDigit :: "char \<Rightarrow> bool" where
  "isOctalDigit c \<longleftrightarrow> 48 \<le> (of_char c :: nat) \<and> (of_char c :: nat) \<le> 55"

text \<open>The byte three octal digits stand for; \<open>char_of\<close> wraps at 256 as the shift of a byte does.\<close>

definition octal_byte :: "char \<Rightarrow> char \<Rightarrow> char \<Rightarrow> char" where
  "octal_byte a b c =
     char_of ((of_char a - 48) * 64 + (of_char b - 48) * 8 + (of_char c - 48 :: nat))"

fun unescapeMountField :: "string \<Rightarrow> string" where
  "unescapeMountField (b # x # y # z # s) =
     (if b = CHR 0x5C \<and> isOctalDigit x \<and> isOctalDigit y \<and> isOctalDigit z
      then octal_byte x y z # unescapeMountField s
      else b # unescapeMountField (x # y # z # s))"
| "unescapeMountField s = s"

definition index_of :: "string \<Rightarrow> string list \<Rightarrow> nat option" where
  "index_of x xs = (if x \<in> set xs then Some (length (takeWhile (\<lambda>y. y \<noteq> x) xs)) else None)"

definition parse_mount_line :: "string \<Rightarrow> mountInfoEntry option" where
  "parse_mount_line line =
     (let fields = str_fields line
      in if length fields < 7 then None
         else Some \<lparr>mie_device = fields ! 2,
           mie_root = unescapeMountField (fields ! 3),
           mie_mountpoint = unescapeMountField (fields ! 4),
           mie_fstype = (case index_of ''-'' (drop 6 fields) of
              None \<Rightarrow> ''''
            | Some i \<Rightarrow> if i + 7 < length fields then fields ! (i + 7) else ''''),
           mie_readOnly = list_ex (\<lambda>opt. opt = ''ro'') (split_on CHR '','' (fields ! 5))\<rparr>)"

definition ErrTooLong :: err where
  "ErrTooLong = errorf ''bufio.Scanner: token too long''"

definition parseMountInfoReader :: "string \<Rightarrow> mountInfoEntry list \<times> err option" where
  "parseMountInfoReader s =
     (case scan_lines s of (lines, too_long) \<Rightarrow>
        (List.map_filter parse_mount_line lines, if too_long then Some ErrTooLong else None))"

text \<open>
  The table of a process; \<open>None\<close> is \<open>os.Getpid()\<close>. No caller looks at the entries that come
  with an error.
\<close>

definition parseMountInfo :: "env \<Rightarrow> int option \<Rightarrow> ('w, err + mountInfoEntry list) io" where
  "parseMountInfo E pid = do {
     r \<leftarrow> ext (\<lambda>h. proc_MountInfo E h pid) (EMountInfo pid);
     (case r of
        Inl err \<Rightarrow> ret (Inl err)
      | Inr content \<Rightarrow>
          (case parseMountInfoReader content of
             (entries, None) \<Rightarrow> ret (Inr entries)
           | (entries, Some err) \<Rightarrow> ret (Inl err)))
   }"

section \<open>Queries\<close>

fun best_entry :: "string \<Rightarrow> mountInfoEntry option \<Rightarrow> mountInfoEntry list \<Rightarrow> mountInfoEntry option" where
  "best_entry mountPath best [] = best"
| "best_entry mountPath best (e # es) =
     best_entry mountPath
       (if mie_mountpoint e = mountPath
           \<and> length (mie_mountpoint e) \<ge> (case best of None \<Rightarrow> 0 | Some b \<Rightarrow> length (mie_mountpoint b))
        then Some e else best) es"

definition getMountDevice :: "env \<Rightarrow> string \<Rightarrow> ('w, err + string) io" where
  "getMountDevice E mountPath = do {
     r \<leftarrow> parseMountInfo E None;
     (case r of
        Inl err \<Rightarrow> ret (Inl (wrap_err ''parse self mountinfo: '' err))
      | Inr entries \<Rightarrow>
          (case best_entry mountPath None entries of
             None \<Rightarrow> ret (Inl (errorf (''no mount entry found for '' @ mountPath)))
           | Some best \<Rightarrow>
               if mie_device best = '''' then
                 ret (Inl (errorf (''no mount entry found for '' @ mountPath)))
               else ret (Inr (mie_device best))))
   }"

definition isFuseFS :: "string \<Rightarrow> bool" where
  "isFuseFS fstype \<longleftrightarrow> has_prefix fstype ''fuse'' \<and> fstype \<noteq> ''fusectl''"

definition findContainerMountsByDevice ::
  "env \<Rightarrow> int \<Rightarrow> string \<Rightarrow> ('w, err + mountInfoEntry list) io" where
  "findContainerMountsByDevice E pid oldDevice = do {
     r \<leftarrow> parseMountInfo E (Some pid);
     (case r of
        Inl err \<Rightarrow> ret (Inl err)
      | Inr entries \<Rightarrow>
          ret (Inr (filter (\<lambda>e. mie_device e = oldDevice \<and> isFuseFS (mie_fstype e)) entries)))
   }"

fun pod_uid_in :: "string list \<Rightarrow> string" where
  "pod_uid_in (p # q # ps) = (if p = ''pods'' then q else pod_uid_in (q # ps))"
| "pod_uid_in _ = ''''"

definition extractPodUID :: "string \<Rightarrow> string" where
  "extractPodUID publishPath = pod_uid_in (split_on CHR ''/'' publishPath)"

definition isCSIPublishPath :: "string \<Rightarrow> bool" where
  "isCSIPublishPath mountpoint \<longleftrightarrow>
     path_base mountpoint = ''mount'' \<and> extractPodUID mountpoint \<noteq> ''''
     \<and> str_contains mountpoint ''/volumes/kubernetes.io~csi/''"

definition is_publish_bind :: "string \<Rightarrow> string \<Rightarrow> mountInfoEntry \<Rightarrow> bool" where
  "is_publish_bind device stagingPath e \<longleftrightarrow>
     mie_device e = device \<and> isFuseFS (mie_fstype e) \<and> mie_mountpoint e \<noteq> stagingPath
     \<and> isCSIPublishPath (mie_mountpoint e)"

fun filterPublishPaths ::
  "mountInfoEntry list \<Rightarrow> string \<Rightarrow> string \<Rightarrow> (string \<times> bool) list" where
  "filterPublishPaths [] device stagingPath = []"
| "filterPublishPaths (e # es) device stagingPath =
     (let rest = filterPublishPaths es device stagingPath
      in if is_publish_bind device stagingPath e \<and> map_of rest (mie_mountpoint e) = None
         then (mie_mountpoint e, mie_readOnly e) # rest else rest)"

definition findPublishPathsByDevice ::
  "env \<Rightarrow> string \<Rightarrow> string \<Rightarrow> ('w, err + (string \<times> bool) list) io" where
  "findPublishPathsByDevice E device stagingPath = do {
     r \<leftarrow> parseMountInfo E None;
     (case r of
        Inl err \<Rightarrow> ret (Inl err)
      | Inr entries \<Rightarrow> ret (Inr (filterPublishPaths entries device stagingPath)))
   }"

section \<open>Lemmas\<close>

text \<open>How the kernel writes a path: white space and backslash in octal.\<close>

definition escape_mount_char :: "char \<Rightarrow> string" where
  "escape_mount_char c =
     (if c = CHR '' '' then [CHR 0x5C, CHR ''0'', CHR ''4'', CHR ''0'']
      else if c = CHR 0x09 then [CHR 0x5C, CHR ''0'', CHR ''1'', CHR ''1'']
      else if c = CHR 0x0A then [CHR 0x5C, CHR ''0'', CHR ''1'', CHR ''2'']
      else if c = CHR 0x5C then [CHR 0x5C, CHR ''1'', CHR ''3'', CHR ''4'']
      else [c])"

definition escape_mount_field :: "string \<Rightarrow> string" where
  "escape_mount_field s = concat (map escape_mount_char s)"

lemma unescape_plain: "c \<noteq> CHR 0x5C \<Longrightarrow> unescapeMountField (c # s) = c # unescapeMountField s"
proof (cases s)
  case (Cons x s')
  moreover assume "c \<noteq> CHR 0x5C"
  ultimately show ?thesis by (cases s'; cases "tl s'") auto
qed simp

lemma octal_codes:
  "octal_byte CHR ''0'' CHR ''4'' CHR ''0'' = CHR '' ''"
  "octal_byte CHR ''0'' CHR ''1'' CHR ''1'' = CHR 0x09"
  "octal_byte CHR ''0'' CHR ''1'' CHR ''2'' = CHR 0x0A"
  "octal_byte CHR ''1'' CHR ''3'' CHR ''4'' = CHR 0x5C"
  "isOctalDigit CHR ''0''" "isOctalDigit CHR ''1''" "isOctalDigit CHR ''2''"
  "isOctalDigit CHR ''3''" "isOctalDigit CHR ''4''"
  by code_simp+

lemma unescape_escape_field: "unescapeMountField (escape_mount_field s) = s"
proof (induction s)
  case (Cons c s)
  have "unescapeMountField (escape_mount_char c @ t) = c # unescapeMountField t" for t
    by (auto simp: escape_mount_char_def octal_codes unescape_plain)
  then show ?case using Cons by (simp add: escape_mount_field_def)
qed (simp add: escape_mount_field_def)

fun has_space :: "string \<Rightarrow> bool" where
  "has_space [] \<longleftrightarrow> False"
| "has_space (c # s) \<longleftrightarrow> space_width (c # s) \<noteq> 0 \<or> has_space s"

definition word :: "string \<Rightarrow> bool" where
  "word w \<longleftrightarrow> w \<noteq> [] \<and> \<not> has_space w"

lemma split_spaces_nonempty [simp]: "split_spaces s \<noteq> []"
  by (cases s) (auto split: list.splits)

lemma split_spaces_word: "\<not> has_space w \<Longrightarrow> split_spaces w = [w]"
  by (induction w) auto

lemma is_space_ascii: "is_space c \<Longrightarrow> (of_char c :: nat) < 128"
  by (auto simp: is_space_def)

text \<open>White space outside ASCII consists of bytes outside ASCII.\<close>

lemma wide_spaces: "a < 128 \<Longrightarrow> \<not> space2 a b" "b < 128 \<Longrightarrow> \<not> space2 a b" "a < 128 \<Longrightarrow> \<not> space3 a b c"
  "b < 128 \<Longrightarrow> \<not> space3 a b c" "c < 128 \<Longrightarrow> \<not> space3 a b c"
  by (auto simp: space2_def space3_def)

lemma space_width_ascii: "(of_char c :: nat) < 128 \<Longrightarrow> \<not> is_space c \<Longrightarrow> space_width (c # s) = 0"
  by (simp add: space_width_def wide_spaces split: list.split)

lemma space_width_append:
  "space_width (a # s) = 0 \<Longrightarrow> (of_char c :: nat) < 128 \<Longrightarrow> space_width ((a # s) @ c # t) = 0"
  by (auto simp: space_width_def wide_spaces split: list.splits if_splits)

lemma split_spaces_append:
  "\<not> has_space s \<Longrightarrow> is_space c \<Longrightarrow> split_spaces (s @ c # t) = s # split_spaces t"
proof (induction s)
  case Nil
  then show ?case by (simp add: space_width_def)
next
  case (Cons a s)
  then have "space_width (a # s @ c # t) = 0" using space_width_append [of a s c t] is_space_ascii by simp
  then show ?case using Cons by simp
qed

lemma str_fields_join: "\<forall>w \<in> set ws. word w \<Longrightarrow> str_fields (str_join '' '' ws) = ws"
proof (induction "'' ''" ws rule: str_join.induct)
  case (2 w)
  then show ?case by (simp add: str_fields_def word_def split_spaces_word)
next
  case (3 w v ws)
  then have IH: "str_fields (str_join '' '' (v # ws)) = v # ws" by simp
  have "is_space CHR '' ''" by (simp add: is_space_def)
  then show ?case
    using 3(2) IH unfolding str_fields_def
    by (simp add: split_spaces_append word_def split_spaces_word)
qed (simp add: str_fields_def)

text \<open>White space the kernel does not escape.\<close>

fun bare_space :: "string \<Rightarrow> bool" where
  "bare_space [] \<longleftrightarrow> False"
| "bare_space (c # s) \<longleftrightarrow> space_width (c # s) \<noteq> 0 \<and> c \<notin> {CHR '' '', CHR 0x09, CHR 0x0A} \<or> bare_space s"

lemma escaped_head:
  "escape_mount_field (b # s) = b # escape_mount_field s \<or> (\<exists>t. escape_mount_field (b # s) = CHR 0x5C # t)"
  by (simp add: escape_mount_field_def escape_mount_char_def)

lemma escaped_width:
  assumes "space_width (c # s) = 0"
  shows "space_width (c # escape_mount_field s) = 0"
proof -
  have c: "\<not> is_space c" using assms by (auto simp: space_width_def split: if_splits)
  have sl: "(of_char (CHR 0x5C) :: nat) < 128" by simp
  show ?thesis
  proof (cases s)
    case Nil
    then show ?thesis using c by (simp add: escape_mount_field_def space_width_def)
  next
    case (Cons b s2)
    show ?thesis
    proof (cases "escape_mount_field s = b # escape_mount_field s2")
      case False
      with escaped_head [of b s2] Cons obtain t where "escape_mount_field s = CHR 0x5C # t" by auto
      then show ?thesis using c by (simp add: space_width_def wide_spaces split: list.split)
    next
      case True
      show ?thesis
      proof (cases s2)
        case Nil
        then show ?thesis using assms c True Cons by (simp add: escape_mount_field_def space_width_def split: if_splits)
      next
        case Cons2: (Cons d s3)
        from escaped_head [of d s3] show ?thesis
          using assms c True Cons Cons2 by (auto simp: space_width_def wide_spaces split: if_splits)
      qed
    qed
  qed
qed

lemma escaped_no_space: "\<not> bare_space s \<Longrightarrow> \<not> has_space (escape_mount_field s)"
proof (induction s)
  case (Cons c s)
  have plain: "\<not> is_space CHR 0x5C" "\<not> is_space CHR ''0''" "\<not> is_space CHR ''1''" "\<not> is_space CHR ''2''"
    "\<not> is_space CHR ''3''" "\<not> is_space CHR ''4''"
    by (simp_all add: is_space_def)
  have IH: "\<not> has_space (escape_mount_field s)" using Cons by simp
  show ?case
  proof (cases "c \<in> {CHR '' '', CHR 0x09, CHR 0x0A, CHR 0x5C}")
    case True
    then show ?thesis
      using IH plain by (auto simp: escape_mount_field_def escape_mount_char_def space_width_ascii)
  next
    case False
    then have "space_width (c # s) = 0" using Cons.prems by auto
    from escaped_width [OF this] show ?thesis
      using False IH by (simp add: escape_mount_field_def escape_mount_char_def)
  qed
qed (simp add: escape_mount_field_def)

lemma escape_word: "s \<noteq> [] \<Longrightarrow> \<not> bare_space s \<Longrightarrow> word (escape_mount_field s)"
  using escaped_no_space [of s]
  by (cases s) (auto simp: word_def escape_mount_field_def escape_mount_char_def)

section \<open>The parser reads what the kernel writes\<close>

definition mount_line_words ::
  "string \<Rightarrow> string \<Rightarrow> string list \<Rightarrow> string \<Rightarrow> string \<Rightarrow> mountInfoEntry \<Rightarrow> string list" where
  "mount_line_words ident parent optional source superopts e =
     [ident, parent, mie_device e, escape_mount_field (mie_root e),
      escape_mount_field (mie_mountpoint e), if mie_readOnly e then ''ro,relatime'' else ''rw,relatime'']
     @ optional @ [''-'', mie_fstype e, source, superopts]"

definition kernel_path :: "string \<Rightarrow> bool" where
  "kernel_path p \<longleftrightarrow> p \<noteq> [] \<and> \<not> bare_space p"

definition kernel_entry ::
  "string \<times> string \<times> string list \<times> string \<times> string \<times> mountInfoEntry \<Rightarrow> bool" where
  "kernel_entry l = (case l of (ident, parent, optional, source, superopts, e) \<Rightarrow>
     word ident \<and> word parent \<and> list_all word optional \<and> ''-'' \<notin> set optional \<and> word source
     \<and> word superopts \<and> word (mie_device e) \<and> word (mie_fstype e)
     \<and> kernel_path (mie_root e) \<and> kernel_path (mie_mountpoint e))"

definition kernel_line ::
  "string \<times> string \<times> string list \<times> string \<times> string \<times> mountInfoEntry \<Rightarrow> string" where
  "kernel_line l = (case l of (ident, parent, optional, source, superopts, e) \<Rightarrow>
     str_join '' '' (mount_line_words ident parent optional source superopts e))"

lemma takeWhile_append_stop: "x \<notin> set xs \<Longrightarrow> takeWhile (\<lambda>y. y \<noteq> x) (xs @ x # ys) = xs"
  by (induction xs) auto

lemma const_words: "word ''-''" "word ''ro,relatime''" "word ''rw,relatime''"
  by code_simp+

lemma opts_read:
  "list_ex (\<lambda>opt. opt = ''ro'') (split_on CHR '','' (if b then ''ro,relatime'' else ''rw,relatime'')) = b"
proof (cases b)
  case True
  have "list_ex (\<lambda>opt. opt = ''ro'') (split_on CHR '','' ''ro,relatime'')" by code_simp
  with True show ?thesis by simp
next
  case False
  have "\<not> list_ex (\<lambda>opt. opt = ''ro'') (split_on CHR '','' ''rw,relatime'')" by code_simp
  with False show ?thesis by simp
qed

lemma kernel_line_words:
  assumes "kernel_entry (ident, parent, optional, source, superopts, e)"
  shows "\<forall>w \<in> set (mount_line_words ident parent optional source superopts e). word w"
  using assms const_words
  by (auto simp: kernel_entry_def mount_line_words_def list_all_iff kernel_path_def
      intro!: escape_word)

lemma parse_kernel_line:
  assumes "kernel_entry l"
  shows "parse_mount_line (kernel_line l) = Some (snd (snd (snd (snd (snd l)))))"
proof -
  obtain ident parent optional source superopts e
    where l: "l = (ident, parent, optional, source, superopts, e)" by (cases l) auto
  let ?ws = "mount_line_words ident parent optional source superopts e"
  have fields: "str_fields (str_join '' '' ?ws) = ?ws"
    by (rule str_fields_join [OF kernel_line_words]) (use assms l in simp)
  have drop6: "drop 6 ?ws = optional @ ''-'' # [mie_fstype e, source, superopts]"
    by (simp add: mount_line_words_def)
  have dash: "index_of ''-'' (drop 6 ?ws) = Some (length optional)"
    using assms unfolding drop6 l
    by (simp add: index_of_def kernel_entry_def takeWhile_append_stop)
  have fs: "?ws ! (length optional + 7) = mie_fstype e" "length optional + 7 < length ?ws"
    by (simp_all add: mount_line_words_def nth_append)
  have "?ws ! 2 = mie_device e" "?ws ! 3 = escape_mount_field (mie_root e)"
    "?ws ! 4 = escape_mount_field (mie_mountpoint e)"
    "?ws ! 5 = (if mie_readOnly e then ''ro,relatime'' else ''rw,relatime'')"
    "\<not> length ?ws < 7"
    by (simp_all add: mount_line_words_def)
  then show ?thesis
    unfolding parse_mount_line_def kernel_line_def l
    by (simp add: fields dash fs Let_def unescape_escape_field opts_read)
qed

lemma split_newlines:
  "\<forall>l \<in> set ls. CHR 0x0A \<notin> set l \<Longrightarrow>
   split_on CHR 0x0A (concat (map (\<lambda>l. l @ [CHR 0x0A]) ls)) = ls @ [[]]"
proof (induction ls)
  case (Cons l ls)
  have "split_on CHR 0x0A (l @ CHR 0x0A # concat (map (\<lambda>l. l @ [CHR 0x0A]) ls)) = [l] @ ls @ [[]]"
    using Cons by (simp only: split_on_append_sep) (simp add: split_on_id)
  then show ?case by simp
qed simp

lemma str_join_chars: "c \<in> set (str_join sep ws) \<Longrightarrow> c \<in> set sep \<or> (\<exists>w \<in> set ws. c \<in> set w)"
  by (induction sep ws rule: str_join.induct) auto

lemma str_join_last: "ws \<noteq> [] \<Longrightarrow> last ws \<noteq> [] \<Longrightarrow>
  str_join sep ws \<noteq> [] \<and> last (str_join sep ws) = last (last ws)"
  by (induction sep ws rule: str_join.induct) auto

lemma spaced: "c \<in> set w \<Longrightarrow> is_space c \<Longrightarrow> has_space w"
  by (induction w) (auto simp: space_width_def)

lemma word_char: "word w \<Longrightarrow> c \<in> set w \<Longrightarrow> \<not> is_space c"
  using spaced by (auto simp: word_def)

lemma space_chars: "is_space CHR 0x0A" "is_space CHR 0x0D"
  by (simp_all add: is_space_def)

lemma kernel_line_clean:
  assumes "kernel_entry l"
  shows "CHR 0x0A \<notin> set (kernel_line l)" and "strip_cr (kernel_line l) = kernel_line l"
proof -
  obtain ident parent optional source superopts e
    where l: "l = (ident, parent, optional, source, superopts, e)" by (cases l) auto
  let ?ws = "mount_line_words ident parent optional source superopts e"
  have words: "\<forall>w \<in> set ?ws. word w" using kernel_line_words assms l by simp
  then show "CHR 0x0A \<notin> set (kernel_line l)"
    using space_chars(1) by (auto simp: kernel_line_def l dest!: str_join_chars dest: word_char)
  have lw: "last ?ws = superopts" "?ws \<noteq> []" by (simp_all add: mount_line_words_def)
  have sup: "word superopts" using assms by (simp add: kernel_entry_def l)
  then have ne: "superopts \<noteq> []" by (simp add: word_def)
  then have "last (kernel_line l) = last superopts"
    using str_join_last [of ?ws "'' ''"] lw by (simp add: kernel_line_def l)
  moreover have "last superopts \<noteq> CHR 0x0D"
    using word_char [OF sup last_in_set [OF ne]] space_chars(2) by auto
  ultimately show "strip_cr (kernel_line l) = kernel_line l" by (simp add: strip_cr_def)
qed

text \<open>A line the scanner's buffer holds.\<close>

definition short_line ::
  "string \<times> string \<times> string list \<times> string \<times> string \<times> mountInfoEntry \<Rightarrow> bool" where
  "short_line l \<longleftrightarrow> int (length (kernel_line l)) < MaxScanTokenSize"

lemma takeWhile_length_all: "length (takeWhile P xs) < length xs \<longleftrightarrow> \<not> list_all P xs"
  by (induction xs) auto

lemma kernel_table_lines:
  assumes "list_all kernel_entry ls"
  shows "scan_lines (concat (map (\<lambda>l. kernel_line l @ [CHR 0x0A]) ls))
    = (map kernel_line (takeWhile short_line ls), \<not> list_all short_line ls)"
proof -
  have "split_on CHR 0x0A (concat (map (\<lambda>l. l @ [CHR 0x0A]) (map kernel_line ls)))
      = map kernel_line ls @ [[]]"
    using assms kernel_line_clean(1) by (intro split_newlines) (auto simp: list_all_iff)
  moreover have "takeWhile (\<lambda>l. int (length l) < MaxScanTokenSize) (map kernel_line ls)
      = map kernel_line (takeWhile short_line ls)"
    by (simp add: takeWhile_map comp_def short_line_def [abs_def])
  moreover have "map strip_cr (map kernel_line (takeWhile short_line ls))
      = map kernel_line (takeWhile short_line ls)"
    using assms kernel_line_clean(2) by (auto simp: list_all_iff dest: set_takeWhileD)
  moreover have "list_all (\<lambda>l. int (length l) < MaxScanTokenSize) (map kernel_line ls) = list_all short_line ls"
    by (simp add: list_all_iff short_line_def)
  ultimately show ?thesis
    by (simp add: scan_lines_def comp_def takeWhile_length_all)
qed

lemma best_entry_last:
  "best_entry p b es = (case filter (\<lambda>e. mie_mountpoint e = p) es of [] \<Rightarrow> b
     | m # ms \<Rightarrow> Some (last (m # ms)))"
  if "case b of None \<Rightarrow> True | Some e \<Rightarrow> mie_mountpoint e = p"
  using that
proof (induction p b es rule: best_entry.induct)
  case (2 p b e es)
  then show ?case by (auto split: list.splits option.splits)
qed simp

lemma filterPublishPaths_dom:
  "fst ` set (filterPublishPaths es device staging)
     = mie_mountpoint ` {e \<in> set es. is_publish_bind device staging e}"
proof (induction es)
  case (Cons e es)
  then show ?case by (auto simp: Let_def map_of_eq_None_iff image_iff)
qed simp

lemma filterPublishPaths_distinct: "distinct (map fst (filterPublishPaths es device staging))"
  by (induction es) (auto simp: Let_def map_of_eq_None_iff)

section \<open>Properties\<close>


definition demo_entry :: mountInfoEntry where
  "demo_entry = \<lparr>mie_device = ''0:52'', mie_root = ''/a b'', mie_mountpoint = ''/pods/u/m'',
     mie_fstype = ''fuse.seaweedfs'', mie_readOnly = True\<rparr>"


text \<open>
  A carriage return or a no-break space in a path cuts the field: the entry is read with a shorter
  mount point, and the options are looked for in the wrong field, so a read-only mount is taken for a
  writable one; no error tells.
\<close>

theorem unescaped_space_is_misread:
  "parseMountInfoReader (''36 35 0:52 / /pods/a'' @ [CHR 0x0D] @ ''b rw,relatime - fuse.seaweedfs fs rw'' @ [CHR 0x0A])
     = ([\<lparr>mie_device = ''0:52'', mie_root = ''/'', mie_mountpoint = ''/pods/a'', mie_fstype = ''fuse.seaweedfs'',
           mie_readOnly = False\<rparr>], None)
   \<and> parseMountInfoReader (''36 35 0:52 / /pods/a'' @ [CHR 0xC2, CHR 0xA0] @ ''b ro,relatime - fuse.seaweedfs fs rw'' @ [CHR 0x0A])
     = ([\<lparr>mie_device = ''0:52'', mie_root = ''/'', mie_mountpoint = ''/pods/a'', mie_fstype = ''fuse.seaweedfs'',
           mie_readOnly = False\<rparr>], None)"
  by code_simp

text \<open>
  The publish paths recovered for a session are exactly the CSI publish mounts of that
  session's device: a mount point is selected if and only if some FUSE mount of the device, other
  than the staging path, is mounted there at a kubelet publish path; none is selected twice, and
  the staging path never is.
\<close>

theorem filterPublishPaths_exact:
  "(p \<in> fst ` set (filterPublishPaths entries device staging) \<longleftrightarrow>
     (\<exists>e \<in> set entries. mie_mountpoint e = p \<and> mie_device e = device \<and> isFuseFS (mie_fstype e)
        \<and> isCSIPublishPath p \<and> p \<noteq> staging))
   \<and> distinct (map fst (filterPublishPaths entries device staging))"
  unfolding filterPublishPaths_dom
  by (auto simp: is_publish_bind_def filterPublishPaths_distinct)

end
