(* ===== verification/Volumes.thy ===== *)
theory Volumes
  imports RemovalSafety MountArgs MountTable
begin

text \<open>
  A volume on the node (pkg/driver/volume.go) and the release of its resources
  (\<open>CleanupVolumeResources\<close> in utils.go). A volume is a value here: an operation that mutates it
  returns the new one, and the node server stores it back. The mounter and unmounter talk to
  the mount service; \<open>bindMountFn\<close> is the production one, a bind mount.
\<close>

section \<open>Volumes\<close>

record Volume =
  vol_VolumeId :: string
  vol_StagedPath :: string
  vol_mounter :: "mountServiceMounter option"
  vol_unmounter :: "string option"
  vol_localSocket :: string
  vol_publishPaths :: "(string \<times> bool) list"
  vol_volContext :: "gomap option"
  vol_readOnly :: bool

definition NewVolume :: "libs \<Rightarrow> string \<Rightarrow> mountServiceMounter \<Rightarrow> SeaweedFsDriver \<Rightarrow> Volume" where
  "NewVolume L volumeID mounter driver = \<lparr>vol_VolumeId = volumeID, vol_StagedPath = '''',
     vol_mounter = Some mounter, vol_unmounter = None,
     vol_localSocket = LocalSocketPath (sha256_hex L) (volumeSocketDir driver) volumeID,
     vol_publishPaths = [], vol_volContext = None, vol_readOnly = False\<rparr>"

definition AddPublishPath :: "string \<Rightarrow> bool \<Rightarrow> Volume \<Rightarrow> Volume" where
  "AddPublishPath path readOnly vol =
     vol\<lparr>vol_publishPaths := AList.update path readOnly (vol_publishPaths vol)\<rparr>"

definition HasPublishPath :: "string \<Rightarrow> Volume \<Rightarrow> bool" where
  "HasPublishPath path vol \<longleftrightarrow> map_of (vol_publishPaths vol) path \<noteq> None"

definition RemovePublishPath :: "string \<Rightarrow> Volume \<Rightarrow> Volume" where
  "RemovePublishPath path vol =
     vol\<lparr>vol_publishPaths := AList.delete path (vol_publishPaths vol)\<rparr>"

text \<open>
  \<open>Stage\<close> is only reached with a mounter (\<open>stageNewVolume\<close> made it); a volume without one would
  be a nil dereference in the source.
\<close>

definition Stage ::
  "libs \<Rightarrow> (gomap \<Rightarrow> gomap) \<Rightarrow> env \<Rightarrow> SeaweedFsDriver \<Rightarrow> mountServiceMounter \<Rightarrow> Volume \<Rightarrow> string \<Rightarrow>
   ('w, err + Volume) io" where
  "Stage L ord E driver mounter vol stagingTargetPath = do {
     m \<leftarrow> checkMount E stagingTargetPath;
     (case m of
        Inl err \<Rightarrow> ret (Inl err)
      | Inr isMnt \<Rightarrow> do {
          (if isMnt then do {
             u \<leftarrow> ext (\<lambda>h. mu_Unmount E h stagingTargetPath) (EUnmount stagingTargetPath);
             (case u of None \<Rightarrow> resetStatfsProbe stagingTargetPath | Some _ \<Rightarrow> ret ())
           } else ret ());
          r \<leftarrow> mounter_Mount L ord E driver mounter stagingTargetPath;
          (case r of
             Some err \<Rightarrow> ret (Inl err)
           | None \<Rightarrow> ret (Inr (vol\<lparr>vol_StagedPath := stagingTargetPath,
               vol_unmounter := Some (mo_volumeID mounter)\<rparr>)))
        })
   }"

definition defaultBindMount :: "env \<Rightarrow> string \<Rightarrow> string \<Rightarrow> bool \<Rightarrow> ('w, err option) io" where
  "defaultBindMount E source target readOnly =
     ext (\<lambda>h. mu_BindMount E h source target readOnly) (EBindMount source target readOnly)"

definition Publish :: "env \<Rightarrow> string \<Rightarrow> string \<Rightarrow> bool \<Rightarrow> ('w, err option) io" where
  "Publish E stagingTargetPath targetPath readOnly = do {
     m \<leftarrow> checkMount E targetPath;
     (case m of
        Inl err \<Rightarrow> ret (Some err)
      | Inr isMnt \<Rightarrow>
          if isMnt then ret None
          else defaultBindMount E stagingTargetPath targetPath readOnly)
   }"

text \<open>A size of one byte stands for no quota.\<close>

definition Quota :: "env \<Rightarrow> Volume \<Rightarrow> int \<Rightarrow> ('w, err option) io" where
  "Quota E vol sizeByte =
     (let size = (if sizeByte = 1 then 0 else sizeByte)
      in ext (\<lambda>h. mount_Configure E h (vol_localSocket vol) size)
           (EConfigure (vol_localSocket vol) size))"

definition CleanupMountPoint :: "env \<Rightarrow> string \<Rightarrow> ('w, err option) io" where
  "CleanupMountPoint E path = ext (\<lambda>h. mu_CleanupMountPoint E h path) (ECleanupMountPoint path)"

definition Unpublish :: "env \<Rightarrow> string \<Rightarrow> ('w, err option) io" where
  "Unpublish E targetPath = do {
     c \<leftarrow> CleanupMountPoint E targetPath;
     (case c of
        Some err \<Rightarrow> ret (Some err)
      | None \<Rightarrow> do { resetStatfsProbe targetPath; ret None })
   }"

definition cache_base :: "libs \<Rightarrow> SeaweedFsDriver \<Rightarrow> string" where
  "cache_base L driver = (if CacheDir driver = '''' then os_TempDir L else CacheDir driver)"

definition CleanupVolumeResources ::
  "libs \<Rightarrow> env \<Rightarrow> SeaweedFsDriver \<Rightarrow> string \<Rightarrow> ('w, unit) io" where
  "CleanupVolumeResources L E driver volumeID = do {
     let cacheDir = GetCacheDir (sha256_hex L) (os_TempDir L) (CacheDir driver) volumeID;
     let cleanCacheBase = path_clean (cache_base L driver);
     let cleanCacheDir = path_clean cacheDir;
     (if path_inside cleanCacheBase cleanCacheDir then do {
        ext (\<lambda>h. os_RemoveAll E h cleanCacheDir) (ERemoveAll cleanCacheDir);
        ret ()
      } else ret ());
     let localSocket = GetLocalSocket (sha256_hex L) (volumeSocketDir driver) volumeID;
     ext (\<lambda>h. os_Remove E h localSocket) (ERemove localSocket);
     ret ()
   }"

definition Unstage ::
  "libs \<Rightarrow> env \<Rightarrow> SeaweedFsDriver \<Rightarrow> Volume \<Rightarrow> string \<Rightarrow> ('w, err option) io" where
  "Unstage L E driver vol stagingTargetPath = do {
     failed \<leftarrow> (case vol_unmounter vol of
        None \<Rightarrow> CleanupMountPoint E stagingTargetPath
      | Some u \<Rightarrow> do {
          r \<leftarrow> unmounter_Unmount E u;
          (case r of
             Some err \<Rightarrow> ret (Some err)
           | None \<Rightarrow> do {
               rm \<leftarrow> ext (\<lambda>h. os_Remove E h stagingTargetPath) (ERemove stagingTargetPath);
               (case rm of
                  Some err \<Rightarrow> if \<not> is_not_exist err then ret (Some err) else ret None
                | None \<Rightarrow> ret None)
             })
        });
     (case failed of
        Some err \<Rightarrow> ret (Some err)
      | None \<Rightarrow> do {
          resetStatfsProbe stagingTargetPath;
          CleanupVolumeResources L E driver (vol_VolumeId vol);
          ret None
        })
   }"

section \<open>The mount helpers keep the mount invariants\<close>

context probe_world
begin

lemma keeps_getMountDevice: "keeps I (getMountDevice E path)"
  unfolding getMountDevice_def parseMountInfo_def
  by (intro keeps_rules keeps_probe) (auto simp: is_probe_def)

lemma keeps_findPublishPaths: "keeps I (findPublishPathsByDevice E device path)"
  unfolding findPublishPathsByDevice_def parseMountInfo_def
  by (intro keeps_rules keeps_probe) (auto simp: is_probe_def)

end

context os_world
begin

lemma keeps_Publish: "keeps I (Publish E staging target ro)"
  unfolding Publish_def defaultBindMount_def
  by (intro keeps_rules keeps_os keeps_checkMount) (auto simp: is_os_call_def)

lemma keeps_Quota: "keeps I (Quota E vol bytes)"
  unfolding Quota_def Let_def by (intro keeps_os) (auto simp: is_os_call_def)

lemma keeps_CleanupMountPoint: "keeps I (CleanupMountPoint E path)"
  unfolding CleanupMountPoint_def by (intro keeps_os) (auto simp: is_os_call_def)

lemma keeps_Unpublish: "keeps I (Unpublish E path)"
  unfolding Unpublish_def by (intro keeps_rules keeps_CleanupMountPoint keeps_reset)

end

context call_world
begin

lemma keeps_mounter_Mount: "keeps I (mounter_Mount L ord E driver m target)"
  unfolding mounter_Mount_def Let_def
  by (intro keeps_rules keeps_svc) (auto simp: is_svc_def)

lemma keeps_Stage: "keeps I (Stage L ord E driver m vol path)"
  unfolding Stage_def
  by (intro keeps_rules keeps_os keeps_checkMount keeps_reset keeps_mounter_Mount)
     (auto simp: is_os_call_def)

lemma keeps_unmounter: "keeps I (unmounter_Unmount E v)"
  unfolding unmounter_Unmount_def by (intro keeps_svc) (auto simp: is_svc_def)

end

section \<open>Removal safety of the release of resources\<close>

abbreviation safe_in :: "libs \<Rightarrow> SeaweedFsDriver \<Rightarrow> 'w world_scheme \<Rightarrow> bool" where
  "safe_in L driver w \<equiv> removal_safe (path_clean (cache_base L driver)) (hist w)"

lemma keeps_CleanupVolumeResources: "keeps (safe_in L driver) (CleanupVolumeResources L E driver v)"
  by (rule keepsI) (auto simp: CleanupVolumeResources_def Let_def split: if_splits)

lemma keeps_Unstage_safe: "keeps (safe_in L driver) (Unstage L E driver vol path)"
  unfolding Unstage_def
  by (intro keeps_rules removal.keeps_CleanupMountPoint removal.keeps_unmounter
      removal.keeps_call removal.keeps_reset keeps_CleanupVolumeResources)
     (auto simp: is_removal_def)

lemma cleanup_run:
  "run_state (CleanupVolumeResources L E driver v) w = (u, w') \<Longrightarrow>
     w' = snd (run_state (CleanupVolumeResources L E driver v) w) \<and> probes w' = probes w"
  by (auto simp: CleanupVolumeResources_def Let_def split: if_splits)

section \<open>Properties\<close>

text \<open>
  Releasing a volume removes its own cache directory and nothing outside the cache: when
  the cache base is absolute and the digest is hexadecimal, \<open>CleanupVolumeResources\<close> performs
  exactly one recursive removal, of \<open><base>/<sha256 of the volume ID>\<close>, whatever the volume ID
  contains (\<open>..\<close>, slashes, URLs), then removes the volume's socket.
\<close>

theorem CleanupVolumeResources_stays_in_cache:
  assumes "hex_digest (sha256_hex L)" and "path_is_abs (cache_base L driver)"
  shows "\<exists>es r r'. list_all plain_elem (es @ [sha256_hex L v])
    \<and> path_clean (cache_base L driver) = abs_path es
    \<and> hist (snd (run_state (CleanupVolumeResources L E driver v) w))
      = ERemove (LocalSocketPath (sha256_hex L) (volumeSocketDir driver) v) r'
        # ERemoveAll (abs_path (es @ [sha256_hex L v])) r # hist w"
proof -
  have base: "cache_base L driver = (if CacheDir driver = '''' then os_TempDir L else CacheDir driver)"
    by (simp add: cache_base_def)
  obtain es where es: "list_all plain_elem (es @ [sha256_hex L v])"
    "path_clean (cache_base L driver) = abs_path es"
    "GetCacheDir (sha256_hex L) (os_TempDir L) (CacheDir driver) v = abs_path (es @ [sha256_hex L v])"
    using GetCacheDir_shape [OF assms(1) assms(2) [unfolded base], of v] unfolding base by metis
  have "list_all plain_elem es" using es(1) by simp
  then have "path_inside (abs_path es) (abs_path (es @ [sha256_hex L v]))"
    by (intro abs_path_snoc_inside) (use es(1) hex_not_dotdot [OF assms(1)] in simp_all)
  then show ?thesis
    using es by (auto simp: CleanupVolumeResources_def Let_def GetLocalSocket_def)
qed

theorem CleanupVolumeResources_stays_in_cache_witness:
  "ERemoveAll ''/tmp/00'' None \<in> set (hist (snd (run_state
     (CleanupVolumeResources demo_libs calm_env demo_driver ''../../etc'') start_world)))"
proof -
  have hex: "hex_digest (sha256_hex demo_libs)"
    by (simp add: hex_digest_def demo_libs_def is_hex_char_def is_digit_char_def)
  have base: "cache_base demo_libs demo_driver = ''/tmp''" by code_simp
  have "path_is_abs (cache_base demo_libs demo_driver)" unfolding base by code_simp
  from CleanupVolumeResources_stays_in_cache [OF hex this, of "''../../etc''" calm_env start_world]
  obtain es r r' where es: "list_all plain_elem (es @ [''00''])" "path_clean ''/tmp'' = abs_path es"
    and hist: "hist (snd (run_state (CleanupVolumeResources demo_libs calm_env demo_driver
      ''../../etc'') start_world)) = ERemove (LocalSocketPath (sha256_hex demo_libs)
        (volumeSocketDir demo_driver) ''../../etc'') r' # ERemoveAll (abs_path (es @ [''00''])) r # []"
    by (auto simp: base start_world_def) (auto simp: demo_libs_def)
  have "path_clean ''/tmp'' = abs_path [''tmp'']" "list_all plain_elem [''tmp'']" by code_simp+
  then have "es = [''tmp'']" using es by (metis abs_path_inj list_all_append)
  then have "abs_path (es @ [''00'']) = ''/tmp/00''" by (simp add: abs_path_def)
  moreover have "ERemoveAll p r = ERemoveAll p None" if "ERemoveAll p r \<in> set (hist (snd (run_state
      (CleanupVolumeResources demo_libs calm_env demo_driver ''../../etc'') start_world)))" for p r
    using that by (auto simp: CleanupVolumeResources_def Let_def calm_env_def start_world_def
        split: if_splits)
  ultimately show ?thesis using hist by (metis list.set_intros)
qed

text \<open>
  \<open>Unstage\<close> is fail-stop: when it reports an error it has neither removed the cache nor the
  socket, and when it reports success no probe of the old mount is left at the staging path and
  the release of the resources came last.
\<close>

theorem Unstage_fail_stop:
  assumes "run_state (Unstage L E driver vol path) w = (r, w')"
  shows "case r of
      Some e \<Rightarrow> probes w' = probes w \<and> (\<exists>evs. hist w' = evs @ hist w \<and> \<not> list_ex is_removal evs
        \<and> (\<forall>s q. ERemove s q \<in> set evs \<longrightarrow> s = path))
    | None \<Rightarrow> path \<notin> set (probes w')
        \<and> (\<exists>w1. w' = snd (run_state (CleanupVolumeResources L E driver (vol_VolumeId vol)) w1))"
proof (cases "vol_unmounter vol")
  case None
  then show ?thesis
    using assms
    by (auto simp: Unstage_def CleanupMountPoint_def resetStatfsProbe_def is_removal_def
        split: option.splits prod.splits dest!: cleanup_run)
next
  case (Some u)
  then show ?thesis
    using assms
    by (auto simp: Unstage_def unmounter_Unmount_def resetStatfsProbe_def is_removal_def
        split: option.splits prod.splits if_splits dest!: cleanup_run)
qed

definition demo_staged :: Volume where
  "demo_staged = \<lparr>vol_VolumeId = ''v'', vol_StagedPath = ''/s'', vol_mounter = None,
     vol_unmounter = Some ''v'', vol_localSocket = ''/run/m.sock'', vol_publishPaths = [],
     vol_volContext = None, vol_readOnly = False\<rparr>"

theorem Unstage_fail_stop_witness:
  "probes (snd (run_state (Unstage demo_libs (calm_env\<lparr>svc_Unmount := \<lambda>h v. Some (errorf ''busy'')\<rparr>)
     demo_driver demo_staged ''/s'') (start_world\<lparr>probes := [''/s'']\<rparr>)))
   = [''/s'']"
proof -
  let ?E = "calm_env\<lparr>svc_Unmount := \<lambda>h v. Some (errorf ''busy'')\<rparr>"
  let ?run = "run_state (Unstage demo_libs ?E demo_driver demo_staged ''/s'')
     (start_world\<lparr>probes := [''/s'']\<rparr>)"
  have "fst ?run = Some (errorf ''busy'')"
    by (simp add: Unstage_def unmounter_Unmount_def calm_env_def start_world_def demo_staged_def)
  with Unstage_fail_stop [where L = demo_libs and E = ?E and driver = demo_driver
      and vol = demo_staged and path = "''/s''" and w = "start_world\<lparr>probes := [''/s'']\<rparr>",
      OF prod.collapse [symmetric]]
  show ?thesis by simp
qed

end
