(* ===== verification/VacStore.thy ===== *)
theory VacStore
  imports MountUtil RemovalSafety Driver
begin

text \<open>
  The store of VolumeAttributesClass parameters (pkg/driver/vacstore.go): one document per
  volume on the volume's own filer, reached over HTTP. The JSON codec is a parameter
  (\<open>json_Marshal\<close>, \<open>json_Unmarshal\<close>); base64 is modelled, because the keys must not collide.
\<close>

section \<open>base64.RawURLEncoding\<close>

definition b64_alphabet :: string where
  "b64_alphabet = ''ABCDEFGHIJKLMNOPQRSTUVWXYZabcdefghijklmnopqrstuvwxyz0123456789-_''"

fun b64_groups :: "nat list \<Rightarrow> nat list" where
  "b64_groups [] = []"
| "b64_groups [a] = [a div 4, (a mod 4) * 16]"
| "b64_groups [a, b] = [a div 4, (a mod 4) * 16 + b div 16, (b mod 16) * 4]"
| "b64_groups (a # b # c # r) =
     [a div 4, (a mod 4) * 16 + b div 16, (b mod 16) * 4 + c div 64, c mod 64] @ b64_groups r"

definition RawURLEncoding :: "string \<Rightarrow> string" where
  "RawURLEncoding s = map (\<lambda>g. b64_alphabet ! g) (b64_groups (map of_char s))"

fun b64_ungroup :: "nat list \<Rightarrow> nat list" where
  "b64_ungroup (p # q # r # t # gs) =
     [p * 4 + q div 16, (q mod 16) * 16 + r div 4, (r mod 4) * 64 + t] @ b64_ungroup gs"
| "b64_ungroup [p, q, r] = [p * 4 + q div 16, (q mod 16) * 16 + r div 4]"
| "b64_ungroup [p, q] = [p * 4 + q div 16]"
| "b64_ungroup gs = []"

lemma b64_ungroup_groups: "\<forall>b \<in> set bs. b < 256 \<Longrightarrow> b64_ungroup (b64_groups bs) = bs"
proof (induction bs rule: b64_groups.induct)
  case (4 a b c r)
  have "((a mod 4) * 16 + b div 16) div 16 = a mod 4" "((a mod 4) * 16 + b div 16) mod 16 = b div 16"
    "((b mod 16) * 4 + c div 64) div 4 = b mod 16" "((b mod 16) * 4 + c div 64) mod 4 = c div 64"
    using 4(2) by auto
  then show ?case using 4 by simp
next
  case (3 a b)
  have "((a mod 4) * 16 + b div 16) div 16 = a mod 4" "((a mod 4) * 16 + b div 16) mod 16 = b div 16"
    using 3 by auto
  then show ?case by simp
qed auto

lemma b64_groups_bound: "\<forall>b \<in> set bs. b < 256 \<Longrightarrow> g \<in> set (b64_groups bs) \<Longrightarrow> g < 64"
proof (induction bs rule: b64_groups.induct)
  case (4 a b c r)
  then have "a < 256" "b < 256" "c < 256" by auto
  then have "a div 4 < 64" "(a mod 4) * 16 + b div 16 < 64" "(b mod 16) * 4 + c div 64 < 64"
    by auto
  then show ?case using 4 by auto
next
  case (3 a b)
  then have "a < 256" "b < 256" by auto
  then have "a div 4 < 64" "(a mod 4) * 16 + b div 16 < 64" "(b mod 16) * 4 < 64"
    by auto
  then show ?case using 3 by auto
qed auto

lemma b64_alphabet_facts:
  "length b64_alphabet = 64" "distinct b64_alphabet" "CHR ''/'' \<notin> set b64_alphabet"
  "CHR ''.'' \<notin> set b64_alphabet"
  by code_simp+

lemma byte_bound: "b \<in> set (map of_char s) \<Longrightarrow> (b :: nat) < 256"
  by auto

lemma RawURLEncoding_inj: "RawURLEncoding s = RawURLEncoding t \<longleftrightarrow> s = t"
proof
  assume eq: "RawURLEncoding s = RawURLEncoding t"
  have inj: "inj_on (\<lambda>g. b64_alphabet ! g) {..<64}"
    using b64_alphabet_facts by (auto intro!: inj_onI simp: nth_eq_iff_index_eq)
  have sub: "set (b64_groups (map of_char u)) \<subseteq> {..<64}" for u :: string
    using b64_groups_bound byte_bound by blast
  have "b64_groups (map of_char s) = b64_groups (map of_char t)"
    using map_inj_on [of "\<lambda>g. b64_alphabet ! g" "b64_groups (map of_char s)"
        "b64_groups (map of_char t)"] eq inj sub
    by (metis RawURLEncoding_def Un_least inj_on_subset)
  then have "map of_char s = (map of_char t :: nat list)"
    by (metis b64_ungroup_groups byte_bound)
  then show "s = t" by (simp add: inj_map_eq_map [OF inj_of_char])
qed simp

lemma RawURLEncoding_chars: "c \<in> set (RawURLEncoding s) \<Longrightarrow> c \<in> set b64_alphabet"
  using b64_groups_bound [of "map of_char s"] byte_bound [of _ s] b64_alphabet_facts(1)
  by (auto simp: RawURLEncoding_def)

section \<open>The store\<close>

definition vacRootDir :: string where
  "vacRootDir = ''/.csi/vac''"

definition vacPath :: "string \<Rightarrow> string" where
  "vacPath volumeID = vacRootDir @ ''/'' @ RawURLEncoding volumeID"

record filerVacStore =
  vs_filers :: "string list"
  vs_scheme :: string
  vs_signingKey :: string
  vs_expiresAfterSec :: int
  vs_readSigningKey :: string
  vs_readExpiresAfterSec :: int

definition vacFilersForVolume :: "libs \<Rightarrow> SeaweedFsDriver \<Rightarrow> string \<Rightarrow> string list" where
  "vacFilersForVolume L driver volumeID =
     (let filerAddress = fst (DecodeVolumeID volumeID)
      in if filerAddress \<noteq> '''' then ToAddresses L filerAddress else filers driver)"

text \<open>
  The trust policy: \<open>None\<close> is plain HTTP, \<open>Some None\<close> TLS with the system's store, \<open>Some (Some f)\<close>
  TLS with the CA of file \<open>f\<close>.
\<close>

definition vacStoreTLSConfig :: "vac_config \<Rightarrow> err + string option option" where
  "vacStoreTLSConfig v =
     (if \<not> use_tls v then Inr None
      else (let caFile = (if vac_ca v = '''' then grpc_ca v else vac_ca v)
            in if caFile = '''' then Inr (Some None)
               else (case ca_file v caFile of
                       Inl err \<Rightarrow> Inl (wrap_err (''could not read VAC store CA '' @ caFile
                         @ '': '') err)
                     | Inr ok \<Rightarrow>
                         if \<not> ok then Inl (errorf (''could not parse VAC store CA '' @ caFile))
                         else Inr (Some (Some caFile)))))"

definition newFilerVacStore :: "vac_config \<Rightarrow> string list \<Rightarrow> err + filerVacStore" where
  "newFilerVacStore v fs =
     (case vacStoreTLSConfig v of
        Inl err \<Rightarrow> Inl err
      | Inr tlsConfig \<Rightarrow> Inr \<lparr>vs_filers = fs,
          vs_scheme = (case tlsConfig of None \<Rightarrow> ''http'' | Some _ \<Rightarrow> ''https''),
          vs_signingKey = filer_signing_key v,
          vs_expiresAfterSec = (if filer_signing_expires v = 0 then 10 else filer_signing_expires v),
          vs_readSigningKey = filer_read_key v,
          vs_readExpiresAfterSec = (if filer_read_expires v = 0 then 60 else filer_read_expires v)\<rparr>)"

text \<open>
  The policy of the store's client on redirects, for the next request and those made so far,
  the first of them first.
\<close>

record redirect =
  rd_scheme :: string
  rd_host :: string
  rd_authorized :: bool

definition CheckRedirect :: "redirect \<Rightarrow> redirect list \<Rightarrow> err option" where
  "CheckRedirect req via =
     (if length via \<ge> 10 then Some (errorf ''stopped after 10 redirects'')
      else if rd_scheme (last via) = ''https'' \<and> rd_scheme req = ''http'' \<and> rd_authorized req then
        Some (errorf (''refusing HTTPS-to-HTTP redirect to '' @ rd_host req
          @ '' that would expose the filer JWT''))
      else None)"

text \<open>
  \<open>net/http\<close> follows the redirects to \<open>targets\<close> (scheme and host): the next request carries the
  first one's token unless it was stripped, for good, at a host the token is not copied to
  (\<open>copies\<close>: the first request's domain and those below it); then the policy is asked, and a
  scheme it does not speak is an error. The result has the requests that were sent.
\<close>

fun follow_redirects ::
  "(string \<Rightarrow> string \<Rightarrow> bool) \<Rightarrow> bool \<Rightarrow> redirect list \<Rightarrow> (string \<times> string) list \<Rightarrow> err option \<times> redirect list" where
  "follow_redirects copies stripped via [] = (None, via)"
| "follow_redirects copies stripped via ((scheme, host) # targets) =
     (let ihost = rd_host (hd via);
          stripped' = (stripped \<or> host \<noteq> ihost \<and> \<not> copies ihost host);
          req = \<lparr>rd_scheme = scheme, rd_host = host, rd_authorized = rd_authorized (hd via) \<and> \<not> stripped'\<rparr>
      in case CheckRedirect req via of
           Some err \<Rightarrow> (Some err, via)
         | None \<Rightarrow>
             if scheme \<noteq> ''http'' \<and> scheme \<noteq> ''https'' then
               (Some (errorf (''unsupported protocol scheme '' @ quoted scheme)), via)
             else follow_redirects copies stripped' (via @ [req]) targets)"

text \<open>The first request of a chain is the store's own; without a token there is no header.\<close>

definition first_request :: "http_request \<Rightarrow> redirect" where
  "first_request q =
     (case url_parse (hr_url q) of
        None \<Rightarrow> \<lparr>rd_scheme = '''', rd_host = '''', rd_authorized = False\<rparr>
      | Some (scheme, host, _) \<Rightarrow> \<lparr>rd_scheme = scheme, rd_host = host, rd_authorized = hr_token q \<noteq> ''''\<rparr>)"

text \<open>Which signing key a request uses: reads have their own.\<close>

definition is_write :: "string \<Rightarrow> bool" where
  "is_write method \<longleftrightarrow> method \<noteq> ''GET'' \<and> method \<noteq> ''HEAD''"

definition request_token :: "env \<Rightarrow> filerVacStore \<Rightarrow> string \<Rightarrow> event list \<Rightarrow> string" where
  "request_token E s method h =
     (if is_write method then gen_Jwt E h (vs_signingKey s) (vs_expiresAfterSec s)
      else gen_Jwt E h (vs_readSigningKey s) (vs_readExpiresAfterSec s))"

fun roundTrip_over ::
  "libs \<Rightarrow> env \<Rightarrow> filerVacStore \<Rightarrow> string \<Rightarrow> string \<Rightarrow> string \<Rightarrow> nat list \<Rightarrow> string list \<Rightarrow>
   err option \<Rightarrow> ('w, err + string) io" where
  "roundTrip_over L E s method volumeID body okCodes [] lastErr =
     ret (Inl (case lastErr of None \<Rightarrow> errorf ''no filer configured'' | Some e \<Rightarrow> e))"
| "roundTrip_over L E s method volumeID body okCodes (filer # fs) lastErr =
     (let target = vs_scheme s @ ''://'' @ ToHttpAddress L filer @ vacPath volumeID
      in if url_parse target = None then ret (Inl (errorf (''parse '' @ quoted target)))
         else do {
           token \<leftarrow> gets (\<lambda>w. request_token E s method (hist w));
           let req = \<lparr>hr_method = method, hr_url = target, hr_body = body, hr_token = token\<rparr>;
           resp \<leftarrow> ext (\<lambda>h. http_Do E h req) (EHttp req);
           (case resp of
              Inl err \<Rightarrow> roundTrip_over L E s method volumeID body okCodes fs
                (Some (wrap_err (''filer '' @ filer @ '': '') err))
            | Inr (status, respBody) \<Rightarrow>
                if status \<in> set okCodes then ret (Inr respBody)
                else ret (Inl (errorf (''filer '' @ filer @ '': unexpected status ''
                  @ format_nat status))))
         })"

definition roundTrip ::
  "libs \<Rightarrow> env \<Rightarrow> filerVacStore \<Rightarrow> string \<Rightarrow> string \<Rightarrow> string \<Rightarrow> nat list \<Rightarrow> ('w, err + string) io" where
  "roundTrip L E s method volumeID body okCodes =
     roundTrip_over L E s method volumeID body okCodes (vs_filers s) None"

text \<open>A read fails to reach the store, or finds a document it cannot decode.\<close>

datatype vac_error = Unavailable err | Corrupt err

definition vac_Read ::
  "libs \<Rightarrow> env \<Rightarrow> filerVacStore \<Rightarrow> string \<Rightarrow> ('w, vac_error + gomap) io" where
  "vac_Read L E s volumeID =
     (if vs_filers s = [] then ret (Inr [])
      else do {
        r \<leftarrow> roundTrip L E s ''GET'' volumeID '''' [200, 404];
        (case r of
           Inl err \<Rightarrow> ret (Inl (Unavailable err))
         | Inr body \<Rightarrow>
             if body = '''' then ret (Inr [])
             else (case json_Unmarshal L body of
                     Inl err \<Rightarrow> ret (Inl (Corrupt (wrap_err (''corrupt persisted parameters for ''
                       @ volumeID @ '': '') err)))
                   | Inr parameters \<Rightarrow> ret (Inr parameters)))
      })"

definition vac_Write ::
  "libs \<Rightarrow> env \<Rightarrow> filerVacStore \<Rightarrow> string \<Rightarrow> gomap \<Rightarrow> ('w, err option) io" where
  "vac_Write L E s volumeID params =
     (if params = [] then ret None
      else do {
        r \<leftarrow> roundTrip L E s ''PUT'' volumeID (json_Marshal L params) [200, 201];
        (case r of Inl err \<Rightarrow> ret (Some err) | Inr _ \<Rightarrow> ret None)
      })"

definition vac_Delete :: "libs \<Rightarrow> env \<Rightarrow> filerVacStore \<Rightarrow> string \<Rightarrow> ('w, err option) io" where
  "vac_Delete L E s volumeID = do {
     r \<leftarrow> roundTrip L E s ''DELETE'' volumeID '''' [200, 404, 204];
     (case r of Inl err \<Rightarrow> ret (Some err) | Inr _ \<Rightarrow> ret None)
   }"

section \<open>Lemmas\<close>

context probe_world
begin

lemma keeps_roundTrip_over:
  "keeps I (roundTrip_over L E s method v body okCodes fs lastErr)"
proof (induction fs arbitrary: lastErr)
  case (Cons f fs)
  then show ?case
    by (simp only: roundTrip_over.simps Let_def)
       (intro keeps_rules keeps_probe Cons; simp add: is_probe_def)
qed (simp add: keeps_rules)

lemma keeps_vac_Read: "keeps I (vac_Read L E s v)"
  unfolding vac_Read_def roundTrip_def by (intro keeps_rules keeps_roundTrip_over)

end

section \<open>Properties\<close>

text \<open>
  The store's keys are safe: distinct volume IDs have distinct paths, and the key of a
  volume is a single path element below the store's root without slash or dot, so no volume ID
  reaches another volume's entry or leaves the subtree.
\<close>

theorem vacPath_injective_and_contained:
  "(vacPath v = vacPath u \<longleftrightarrow> v = u)
   \<and> (\<exists>e. vacPath v = vacRootDir @ ''/'' @ e \<and> CHR ''/'' \<notin> set e \<and> CHR ''.'' \<notin> set e)"
  using RawURLEncoding_chars b64_alphabet_facts(3,4)
  by (auto simp: vacPath_def RawURLEncoding_inj)

text \<open>A request of the store for a volume: to one of its filers, with the token of its kind.\<close>

definition store_request ::
  "libs \<Rightarrow> env \<Rightarrow> filerVacStore \<Rightarrow> string \<Rightarrow> string \<Rightarrow> string \<Rightarrow> event \<Rightarrow> bool" where
  "store_request L E s method v body e \<longleftrightarrow> (\<exists>f \<in> set (vs_filers s). \<exists>h a.
     url_parse (vs_scheme s @ ''://'' @ ToHttpAddress L f @ vacPath v) \<noteq> None \<and>
     e = EHttp \<lparr>hr_method = method, hr_url = vs_scheme s @ ''://'' @ ToHttpAddress L f @ vacPath v,
       hr_body = body, hr_token = request_token E s method h\<rparr> a)"

lemma roundTrip_over_http:
  assumes "run_state (roundTrip_over L E s method v body okCodes fs lastErr) w = (r, w')"
    and "set fs \<subseteq> set (vs_filers s)"
  shows "\<exists>evs. hist w' = evs @ hist w \<and> list_all (store_request L E s method v body) evs"
  using assms
proof (induction fs arbitrary: lastErr w)
  case (Cons f fs)
  let ?target = "vs_scheme s @ ''://'' @ ToHttpAddress L f @ vacPath v"
  show ?case
  proof (cases "url_parse ?target = None")
    case True
    then show ?thesis using Cons(2) by auto
  next
    case False
    let ?q = "\<lparr>hr_method = method, hr_url = ?target, hr_body = body,
      hr_token = request_token E s method (hist w)\<rparr>"
    let ?e = "EHttp ?q (http_Do E (hist w) ?q)"
    have e: "store_request L E s method v body ?e"
      using Cons(3) False by (fastforce simp: store_request_def)
    show ?thesis
    proof (cases "http_Do E (hist w) ?q")
      case (Inr b)
      then have "hist w' = [?e] @ hist w"
        using Cons(2) False by (auto simp: Let_def split: prod.splits if_splits)
      then show ?thesis using e by (intro exI [of _ "[?e]"]) simp
    next
      case (Inl err)
      then obtain le where "run_state (roundTrip_over L E s method v body okCodes fs le)
          (w\<lparr>hist := ?e # hist w\<rparr>) = (r, w')"
        using Cons(2) False by (auto simp: Let_def)
      from Cons(1) [OF this] Cons(3) obtain evs
        where "hist w' = evs @ ?e # hist w" and "list_all (store_request L E s method v body) evs"
        by auto
      then show ?thesis using e by (intro exI [of _ "evs @ [?e]"]) simp
    qed
  qed
qed auto

lemma roundTrip_http:
  assumes "run_state (roundTrip L E s method v body okCodes) w = (r, w')"
  shows "\<exists>evs. hist w' = evs @ hist w \<and> list_all (store_request L E s method v body) evs"
  using roundTrip_over_http [OF assms [unfolded roundTrip_def]] by simp


section \<open>Where the tokens go\<close>

text \<open>What an action asks for: every event it adds is in \<open>P\<close>.\<close>

definition asks_only :: "(event \<Rightarrow> bool) \<Rightarrow> ('w, 'a) io \<Rightarrow> 'w world_scheme \<Rightarrow> bool" where
  "asks_only P m w \<longleftrightarrow> (\<exists>evs. hist (snd (run_state m w)) = evs @ hist w \<and> list_all P evs)"

definition signed_request ::
  "libs \<Rightarrow> env \<Rightarrow> string list \<Rightarrow> string \<Rightarrow> string \<Rightarrow> string \<Rightarrow> int \<Rightarrow> event \<Rightarrow> bool" where
  "signed_request L E fs method v key expires e \<longleftrightarrow> (\<exists>q a. e = EHttp q a \<and> hr_method q = method
     \<and> (\<exists>f \<in> set fs. hr_url q = (if use_tls (vac_cfg E) then ''https'' else ''http'') @ ''://''
          @ ToHttpAddress L f @ vacPath v)
     \<and> (\<exists>h. hr_token q = gen_Jwt E h key expires))"

text \<open>At most ten requests, and once one of them went over HTTPS, no token goes over HTTP any more.\<close>

definition safe_chain :: "redirect list \<Rightarrow> bool" where
  "safe_chain rs \<longleftrightarrow> length rs \<le> 10 \<and> (\<forall>j < length rs. \<forall>i < j.
     rd_scheme (rs ! i) = ''https'' \<longrightarrow> rd_authorized (rs ! j) \<longrightarrow> rd_scheme (rs ! j) = ''https'')"

definition confined_token :: "env \<Rightarrow> event \<Rightarrow> bool" where
  "confined_token E e \<longleftrightarrow> (\<forall>q a copies targets. e = EHttp q a \<longrightarrow>
     (let made = snd (follow_redirects copies False [first_request q] targets)
      in safe_chain made
         \<and> (use_tls (vac_cfg E) \<longrightarrow> (\<forall>r \<in> set made. rd_authorized r \<longrightarrow> rd_scheme r = ''https''))))"

lemma tls_scheme:
  "vacStoreTLSConfig c = Inr t \<Longrightarrow> t = None \<longleftrightarrow> \<not> use_tls c"
  by (auto simp: vacStoreTLSConfig_def Let_def split: if_splits sum.splits)

lemma new_store_fields:
  assumes "newFilerVacStore c fs = Inr s"
  shows "vs_filers s = fs" and "vs_scheme s = (if use_tls c then ''https'' else ''http'')"
    and "vs_signingKey s = filer_signing_key c" and "vs_readSigningKey s = filer_read_key c"
    and "vs_expiresAfterSec s = (if filer_signing_expires c = 0 then 10 else filer_signing_expires c)"
    and "vs_readExpiresAfterSec s = (if filer_read_expires c = 0 then 60 else filer_read_expires c)"
  using assms tls_scheme [of c]
  by (auto simp: newFilerVacStore_def split: sum.splits option.splits)

text \<open>The policy keeps a chain safe, because a token that was dropped is not taken up again.\<close>

definition chain_ok :: "bool \<Rightarrow> redirect list \<Rightarrow> bool" where
  "chain_ok stripped via \<longleftrightarrow> via \<noteq> [] \<and> safe_chain via
     \<and> (\<forall>r \<in> set via. rd_scheme r = ''http'' \<or> rd_scheme r = ''https'')
     \<and> (\<not> stripped \<longrightarrow> (\<forall>r \<in> set via. rd_authorized r = rd_authorized (hd via)))"

lemma chain_ok_step:
  assumes ok: "chain_ok stripped via" and policy: "CheckRedirect req via = None"
    and req: "rd_scheme req = ''http'' \<or> rd_scheme req = ''https''"
      "rd_authorized req = (rd_authorized (hd via) \<and> \<not> stripped')" "stripped \<Longrightarrow> stripped'"
  shows "chain_ok stripped' (via @ [req])"
proof -
  have via: "via \<noteq> []" "safe_chain via" using ok by (simp_all add: chain_ok_def)
  have p: "length via < 10" "\<not> (rd_scheme (last via) = ''https'' \<and> rd_scheme req = ''http'' \<and> rd_authorized req)"
    using policy by (auto simp: CheckRedirect_def split: if_splits)
  have new: "rd_scheme req = ''https''" if a: "rd_authorized req" and i: "i < length via" "rd_scheme (via ! i) = ''https''" for i
  proof -
    have "rd_authorized (last via)" using a req(2,3) ok via(1) by (auto simp: chain_ok_def)
    moreover have l: "last via = via ! (length via - 1)" using via(1) by (rule last_conv_nth)
    moreover have "i = length via - 1 \<or> i < length via - 1" "length via - 1 < length via" using i(1) by auto
    ultimately have "rd_scheme (last via) = ''https''"
      using i(2) via(2) unfolding safe_chain_def by metis
    with p(2) a req(1) show ?thesis by auto
  qed
  have "safe_chain (via @ [req])"
    using via(2) p(1) new by (auto simp: safe_chain_def nth_append less_Suc_eq)
  then show ?thesis using ok req by (auto simp: chain_ok_def)
qed

lemma follow_redirects_ok:
  "chain_ok stripped via \<Longrightarrow> follow_redirects copies stripped via targets = (r, made) \<Longrightarrow>
    safe_chain made \<and> made \<noteq> [] \<and> hd made = hd via"
proof (induction copies stripped via targets rule: follow_redirects.induct)
  case (1 copies stripped via)
  then show ?case by (auto simp: chain_ok_def)
next
  case (2 copies stripped via scheme host targets)
  let ?s = "stripped \<or> host \<noteq> rd_host (hd via) \<and> \<not> copies (rd_host (hd via)) host"
  let ?req = "\<lparr>rd_scheme = scheme, rd_host = host, rd_authorized = rd_authorized (hd via) \<and> \<not> ?s\<rparr>"
  show ?case
  proof (cases "CheckRedirect ?req via = None \<and> (scheme = ''http'' \<or> scheme = ''https'')")
    case True
    have "chain_ok ?s (via @ [?req])"
      by (rule chain_ok_step [OF 2(2)]) (use True in simp_all)
    moreover have "follow_redirects copies ?s (via @ [?req]) targets = (r, made)"
      using 2(3) True by (auto simp: Let_def)
    moreover have "via \<noteq> []" using 2(2) by (simp add: chain_ok_def)
    ultimately show ?thesis
      using 2(1) [OF refl refl refl, of ] True by simp
  next
    case False
    then have "made = via" using 2(3) by (auto simp: Let_def split: option.splits if_splits)
    then show ?thesis using 2(2) by (simp add: chain_ok_def)
  qed
qed

lemma store_url_scheme:
  assumes "url_parse (scheme @ ''://'' @ rest) \<noteq> None" and "scheme = ''http'' \<or> scheme = ''https''"
  shows "\<exists>host path. url_parse (scheme @ ''://'' @ rest) = Some (scheme, host, path)"
proof -
  obtain a b f where cut: "str_cut CHR ''#'' rest = (a, b, f)" by (metis prod_cases3)
  obtain c d g where q: "str_cut CHR ''?'' a = (c, d, g)" by (metis prod_cases3)
  have chars: "scheme_char CHR ''h''" "scheme_char CHR ''t''" "scheme_char CHR ''p''" "scheme_char CHR ''s''"
    "\<not> scheme_char CHR '':''" "is_lower_char CHR ''h''" "to_lower ''http'' = ''http''" "to_lower ''https'' = ''https''"
    by code_simp+
  from assms show ?thesis
    by (auto simp: url_parse_def cut q get_scheme_def chars has_prefix_def Let_def split: if_splits option.splits)
qed

lemma confined_request:
  assumes "newFilerVacStore (vac_cfg E) fs = Inr s" and "store_request L E s method v body e"
  shows "confined_token E e"
proof -
  note s = new_store_fields [OF assms(1)]
  obtain f q a where e: "e = EHttp q a" and parse: "url_parse (vs_scheme s @ ''://'' @ ToHttpAddress L f @ vacPath v) \<noteq> None"
    and url: "hr_url q = vs_scheme s @ ''://'' @ ToHttpAddress L f @ vacPath v"
    using assms(2) unfolding store_request_def by (elim bexE exE conjE) simp
  have scheme: "rd_scheme (first_request q) = (if use_tls (vac_cfg E) then ''https'' else ''http'')"
    using store_url_scheme [OF parse] s(2) by (auto simp: first_request_def url split: if_splits)
  then have ok: "chain_ok False [first_request q]" by (simp add: chain_ok_def safe_chain_def)
  have "safe_chain made \<and> (use_tls (vac_cfg E) \<longrightarrow> (\<forall>r \<in> set made. rd_authorized r \<longrightarrow> rd_scheme r = ''https''))"
    if run: "follow_redirects copies False [first_request q] targets = (x, made)" for copies targets x made
  proof -
    have made: "safe_chain made" "made \<noteq> []" "hd made = first_request q" using follow_redirects_ok [OF ok run] by simp_all
    have "rd_scheme (made ! j) = ''https''"
      if "use_tls (vac_cfg E)" "j < length made" "rd_authorized (made ! j)" for j
      using that made scheme by (cases "j = 0") (auto simp: safe_chain_def hd_conv_nth)
    with made(1) show ?thesis by (auto simp: in_set_conv_nth)
  qed
  from this [OF prod.collapse [symmetric]] show ?thesis by (simp add: confined_token_def e Let_def)
qed

lemma store_request_signed:
  assumes "newFilerVacStore (vac_cfg E) fs = Inr s" and "store_request L E s method v body e"
  shows "signed_request L E fs method v
    (if is_write method then filer_signing_key (vac_cfg E) else filer_read_key (vac_cfg E))
    (if is_write method then vs_expiresAfterSec s else vs_readExpiresAfterSec s) e"
proof -
  note s = new_store_fields [OF assms(1)]
  obtain f h a where e: "e = EHttp \<lparr>hr_method = method,
      hr_url = vs_scheme s @ ''://'' @ ToHttpAddress L f @ vacPath v, hr_body = body,
      hr_token = request_token E s method h\<rparr> a" and f: "f \<in> set fs"
    using assms(2) s(1) by (auto simp: store_request_def)
  have "request_token E s method h = gen_Jwt E h
      (if is_write method then filer_signing_key (vac_cfg E) else filer_read_key (vac_cfg E))
      (if is_write method then vs_expiresAfterSec s else vs_readExpiresAfterSec s)"
    using s(3,4) by (simp add: request_token_def)
  then show ?thesis
    unfolding signed_request_def e using f s(2) by fastforce
qed

lemma roundTrip_signed:
  assumes "newFilerVacStore (vac_cfg E) fs = Inr s"
  shows "asks_only (\<lambda>e. signed_request L E fs meth v
      (if is_write meth then filer_signing_key (vac_cfg E) else filer_read_key (vac_cfg E))
      (if is_write meth then vs_expiresAfterSec s else vs_readExpiresAfterSec s) e \<and> confined_token E e)
    (roundTrip L E s meth v body okCodes) w"
  using roundTrip_http [OF prod.collapse [symmetric], of L E s meth v body okCodes w]
    store_request_signed [OF assms] confined_request [OF assms]
  unfolding asks_only_def list_all_iff by blast

lemma asks_only_after:
  "asks_only P m w \<Longrightarrow> (\<And>x w'. hist (snd (run_state (f x) w')) = hist w') \<Longrightarrow>
   asks_only P (State_Monad.bind m f) w"
  by (auto simp: asks_only_def split: prod.splits)

lemma asks_only_ret: "asks_only P (ret x) w"
  by (simp add: asks_only_def)

text \<open>
  C27: The tokens of the store are confined: every request of a read, a write or a deletion
  goes to one of the volume's filers, at the volume's own key, over TLS when it is configured;
  reads are signed with the read key only and writes and deletions with the write key only, and
  the token is made for the configured number of seconds, or for 60 and 10 if that is 0 (a negative
  number is passed on as it is). Whatever redirects the filers answer with, the client sends at
  most ten requests; once one of them went over HTTPS no later one carries the token over HTTP,
  and with TLS the token travels over HTTPS only.
\<close>

theorem store_tokens_are_confined:
  assumes "newFilerVacStore (vac_cfg E) fs = Inr s"
    and "readExpires = (if filer_read_expires (vac_cfg E) = 0 then 60 else filer_read_expires (vac_cfg E))"
    and "expires = (if filer_signing_expires (vac_cfg E) = 0 then 10 else filer_signing_expires (vac_cfg E))"
  shows "asks_only (\<lambda>e. signed_request L E fs ''GET'' v (filer_read_key (vac_cfg E)) readExpires e \<and> confined_token E e)
        (vac_Read L E s v) w
    \<and> asks_only (\<lambda>e. signed_request L E fs ''PUT'' v (filer_signing_key (vac_cfg E)) expires e \<and> confined_token E e)
        (vac_Write L E s v params) w
    \<and> asks_only (\<lambda>e. signed_request L E fs ''DELETE'' v (filer_signing_key (vac_cfg E)) expires e \<and> confined_token E e)
        (vac_Delete L E s v) w"
proof (intro conjI)
  have key: "\<not> is_write ''GET''" "is_write ''PUT''" "is_write ''DELETE''" by (simp_all add: is_write_def)
  note signed = roundTrip_signed [OF assms(1)]
  note expiry = new_store_fields(5,6) [OF assms(1)] assms(2,3)
  show "asks_only (\<lambda>e. signed_request L E fs ''GET'' v (filer_read_key (vac_cfg E)) readExpires e \<and> confined_token E e)
      (vac_Read L E s v) w"
    using signed [where meth = "''GET''" and L = L] key expiry
    by (auto simp: vac_Read_def intro!: asks_only_after asks_only_ret split: sum.splits)
  show "asks_only (\<lambda>e. signed_request L E fs ''PUT'' v (filer_signing_key (vac_cfg E)) expires e \<and> confined_token E e)
      (vac_Write L E s v params) w"
    using signed [where meth = "''PUT''" and L = L] key expiry
    by (auto simp: vac_Write_def intro!: asks_only_after asks_only_ret split: sum.splits)
  show "asks_only (\<lambda>e. signed_request L E fs ''DELETE'' v (filer_signing_key (vac_cfg E)) expires e \<and> confined_token E e)
      (vac_Delete L E s v) w"
    using signed [where meth = "''DELETE''" and L = L] key expiry
    by (auto simp: vac_Delete_def intro!: asks_only_after asks_only_ret split: sum.splits)
qed

text \<open>A store behind TLS with both keys, whose filer redirects to plain HTTP.\<close>

definition token_env :: env where
  "token_env = calm_env\<lparr>vac_cfg := \<lparr>use_tls = True, vac_ca = '''', grpc_ca = '''',
     ca_file = \<lambda>f. Inr True, filer_signing_key = ''w'', filer_signing_expires = 0,
     filer_read_key = ''r'', filer_read_expires = 5\<rparr>,
     gen_Jwt := \<lambda>h k n. k @ format_int n\<rparr>"

definition token_store :: filerVacStore where
  "token_store = \<lparr>vs_filers = [''f:8888''], vs_scheme = ''https'', vs_signingKey = ''w'',
     vs_expiresAfterSec = 10, vs_readSigningKey = ''r'', vs_readExpiresAfterSec = 5\<rparr>"

theorem store_tokens_are_confined_witness:
  "newFilerVacStore (vac_cfg token_env) [''f:8888''] = Inr token_store
    \<and> asks_only (\<lambda>e. signed_request demo_libs token_env [''f:8888''] ''PUT'' ''v'' ''w'' 10 e \<and> confined_token token_env e)
        (vac_Write demo_libs token_env token_store ''v'' [(''ttl'', ''1d'')]) start_world
    \<and> asks_only (\<lambda>e. signed_request demo_libs token_env [''f:8888''] ''GET'' ''v'' ''r'' 5 e \<and> confined_token token_env e)
        (vac_Read demo_libs token_env token_store ''v'') start_world"
proof -
  have s: "newFilerVacStore (vac_cfg token_env) [''f:8888''] = Inr token_store"
    by (simp add: newFilerVacStore_def vacStoreTLSConfig_def token_env_def token_store_def)
  have cfg: "filer_signing_key (vac_cfg token_env) = ''w''" "filer_read_key (vac_cfg token_env) = ''r''"
    "5 = (if filer_read_expires (vac_cfg token_env) = 0 then 60 else filer_read_expires (vac_cfg token_env))"
    "10 = (if filer_signing_expires (vac_cfg token_env) = 0 then 10 else filer_signing_expires (vac_cfg token_env))"
    by (simp_all add: token_env_def)
  from store_tokens_are_confined [OF s cfg(3,4)] s show ?thesis unfolding cfg(1,2) by blast
qed

end
