(* ===== verification/KeyMutex.thy ===== *)
theory KeyMutex
  imports Main
begin

text \<open>
  The per-volume locks. Both halves of the program keep a \<open>sync.Map\<close> from volume IDs to
  mutexes: \<open>keyMutex\<close> in pkg/mountmanager/keymutex.go, whose locks are never deleted, and
  \<open>KeyMutex\<close> in pkg/driver/utils.go, which also has \<open>RemoveMutex\<close>. A goroutine fetches the
  mutex of its key, locks it, works and unlocks it; the driver's handlers may delete the key's
  mutex while they hold it. The locale \<open>stable_lock_table\<close> is what a client needs from the
  table; the manager's table has it and its goroutines exclude each other, the driver's has
  not, and two of its goroutines reach the critical section of one volume together.
\<close>

section \<open>The lock tables\<close>

text \<open>A mutex is named by its address; \<open>fresh\<close> is the next address \<open>&sync.Mutex{}\<close> yields.\<close>

record lock_table =
  mutexes :: "string \<Rightarrow> nat option"
  fresh :: nat

definition newKeyMutex :: lock_table where
  "newKeyMutex = \<lparr>mutexes = \<lambda>_. None, fresh = 0\<rparr>"

text \<open>\<open>sync.Map.LoadOrStore\<close>: the stored mutex if there is one, else the new one.\<close>

definition LoadOrStore :: "string \<Rightarrow> lock_table \<Rightarrow> nat \<times> lock_table" where
  "LoadOrStore key km =
     (case mutexes km key of
        Some m \<Rightarrow> (m, km\<lparr>fresh := Suc (fresh km)\<rparr>)
      | None \<Rightarrow> (fresh km, \<lparr>mutexes = (mutexes km)(key \<mapsto> fresh km), fresh = Suc (fresh km)\<rparr>))"

definition get :: "string \<Rightarrow> lock_table \<Rightarrow> nat \<times> lock_table" where
  "get key km = LoadOrStore key km"

definition GetMutex :: "string \<Rightarrow> lock_table \<Rightarrow> nat \<times> lock_table" where
  "GetMutex key km = LoadOrStore key km"

definition RemoveMutex :: "string \<Rightarrow> lock_table \<Rightarrow> lock_table" where
  "RemoveMutex key km = km\<lparr>mutexes := (mutexes km)(key := None)\<rparr>"

section \<open>The contract of a lock table\<close>

text \<open>
  A table is stable if fetching a key's mutex never changes what another fetch, earlier or
  later, returned: \<open>lookup\<close> is the mutex a key is bound to, and it only ever grows.
\<close>

locale stable_lock_table =
  fixes lookup :: "'t \<Rightarrow> string \<Rightarrow> nat option"
    and fetch :: "string \<Rightarrow> 't \<Rightarrow> nat \<times> 't"
    and good :: "'t \<Rightarrow> bool"
  assumes fetch_good: "good t \<Longrightarrow> good (snd (fetch k t))"
    and fetch_binds: "good t \<Longrightarrow> lookup (snd (fetch k t)) k = Some (fst (fetch k t))"
    and fetch_keeps: "good t \<Longrightarrow> lookup t j = Some m \<Longrightarrow> lookup (snd (fetch k t)) j = Some m"
    and lookup_inj: "good t \<Longrightarrow> lookup t j = Some m \<Longrightarrow> lookup t k = Some m \<Longrightarrow> j = k"
begin

fun fetches :: "string list \<Rightarrow> 't \<Rightarrow> 't" where
  "fetches [] t = t"
| "fetches (k # ks) t = fetches ks (snd (fetch k t))"

lemma fetches_good: "good t \<Longrightarrow> good (fetches ks t)"
  by (induction ks arbitrary: t) (auto intro: fetch_good)

lemma fetches_keep: "good t \<Longrightarrow> lookup t k = Some m \<Longrightarrow> lookup (fetches ks t) k = Some m"
  by (induction ks arbitrary: t) (auto intro: fetch_good fetch_keeps)

text \<open>Two fetches of a key yield one mutex, whatever was fetched in between.\<close>

lemma same_mutex:
  assumes "good t"
  shows "fst (fetch k (fetches ks (snd (fetch k t)))) = fst (fetch k t)"
proof -
  let ?t = "fetches ks (snd (fetch k t))"
  have good: "good ?t" using assms by (intro fetches_good fetch_good)
  have "lookup ?t k = Some (fst (fetch k t))"
    using assms by (intro fetches_keep fetch_good fetch_binds)
  from fetch_keeps [OF good this, of k] fetch_binds [OF good, of k] show ?thesis by simp
qed

end

definition addresses_ok :: "lock_table \<Rightarrow> bool" where
  "addresses_ok km \<longleftrightarrow> (\<forall>k m. mutexes km k = Some m \<longrightarrow> m < fresh km)
     \<and> (\<forall>j k m. mutexes km j = Some m \<longrightarrow> mutexes km k = Some m \<longrightarrow> j = k)"

lemma addresses_ok_new: "addresses_ok newKeyMutex"
  by (simp add: addresses_ok_def newKeyMutex_def)

lemma LoadOrStore_laws:
  assumes "addresses_ok t"
  shows "addresses_ok (snd (LoadOrStore k t))"
    and "mutexes (snd (LoadOrStore k t)) k = Some (fst (LoadOrStore k t))"
    and "mutexes t j = Some m \<Longrightarrow> mutexes (snd (LoadOrStore k t)) j = Some m"
    and "mutexes t j = Some m \<Longrightarrow> mutexes t i = Some m \<Longrightarrow> j = i"
  using assms unfolding LoadOrStore_def addresses_ok_def
  by (auto split: option.splits simp: less_Suc_eq)

interpretation manager_locks: stable_lock_table mutexes get addresses_ok
  by unfold_locales (auto simp: get_def intro: LoadOrStore_laws)

section \<open>Goroutines\<close>

datatype goroutine = Idle | Got string nat | Critical string nat

record lock_state =
  table :: lock_table
  held :: "nat set"
  pc :: "nat \<Rightarrow> goroutine"

text \<open>
  \<open>fetch\<close> is how a goroutine gets the mutex of its key: \<open>get\<close> in the manager, \<open>GetMutex\<close> in the
  driver. \<open>removes\<close> tells whether it may delete its key's mutex inside the critical section: the
  manager's never do, the driver's do on every early-exit path of a handler.
\<close>

type_synonym fetch = "string \<Rightarrow> lock_table \<Rightarrow> nat \<times> lock_table"

inductive lock_step :: "fetch \<Rightarrow> bool \<Rightarrow> lock_state \<Rightarrow> lock_state \<Rightarrow> bool"
  for fetch :: fetch and removes :: bool where
  fetch: "pc s t = Idle \<Longrightarrow> fetch k (table s) = (m, tb) \<Longrightarrow>
     lock_step fetch removes s (s\<lparr>table := tb, pc := (pc s)(t := Got k m)\<rparr>)"
| lock: "pc s t = Got k m \<Longrightarrow> m \<notin> held s \<Longrightarrow>
     lock_step fetch removes s (s\<lparr>held := insert m (held s), pc := (pc s)(t := Critical k m)\<rparr>)"
| remove: "removes \<Longrightarrow> pc s t = Critical k m \<Longrightarrow>
     lock_step fetch removes s (s\<lparr>table := RemoveMutex k (table s)\<rparr>)"
| unlock: "pc s t = Critical k m \<Longrightarrow>
     lock_step fetch removes s (s\<lparr>held := held s - {m}, pc := (pc s)(t := Idle)\<rparr>)"

inductive reachable :: "fetch \<Rightarrow> bool \<Rightarrow> lock_state \<Rightarrow> bool" for fetch :: fetch and removes :: bool where
  start: "reachable fetch removes \<lparr>table = newKeyMutex, held = {}, pc = \<lambda>_. Idle\<rparr>"
| step: "reachable fetch removes s \<Longrightarrow> lock_step fetch removes s s' \<Longrightarrow> reachable fetch removes s'"


definition lock_inv :: "lock_state \<Rightarrow> bool" where
  "lock_inv s \<longleftrightarrow> addresses_ok (table s)
     \<and> (\<forall>t k m. pc s t = Got k m \<or> pc s t = Critical k m \<longrightarrow> mutexes (table s) k = Some m)
     \<and> (\<forall>t k m. pc s t = Critical k m \<longrightarrow> m \<in> held s)
     \<and> (\<forall>t u j k m. pc s t = Critical j m \<longrightarrow> pc s u = Critical k m \<longrightarrow> t = u)"

lemma lock_inv_step:
  assumes "lock_inv s" and "lock_step get False s s'"
  shows "lock_inv s'"
  using assms(2)
proof (cases rule: lock_step.cases)
  case (fetch t k m tb)
  have ok: "addresses_ok (table s)" using assms(1) by (simp add: lock_inv_def)
  note laws = manager_locks.fetch_good [OF ok, of k] manager_locks.fetch_binds [OF ok, of k]
    manager_locks.fetch_keeps [OF ok, where k = k]
  have tb: "tb = snd (get k (table s))" "m = fst (get k (table s))"
    using fetch by simp_all
  show ?thesis
    using assms(1) laws unfolding lock_inv_def fetch(1) tb by auto
next
  case (lock t k m)
  then show ?thesis using assms(1) unfolding lock_inv_def by auto
next
  case (remove t k m)
  then show ?thesis by simp
next
  case (unlock t k m)
  then show ?thesis using assms(1) unfolding lock_inv_def by auto
qed

lemma reachable_lock_inv: "reachable get False s \<Longrightarrow> lock_inv s"
proof (induction rule: reachable.induct)
  case start
  show ?case by (simp add: lock_inv_def addresses_ok_new)
next
  case (step s s')
  then show ?case by (blast intro: lock_inv_step)
qed

section \<open>Mutual exclusion, and its failure\<close>

text \<open>
  C35: The mount manager's key locks exclude: in every reachable interleaving of goroutines that
  fetch the mutex of their volume with \<open>get\<close>, lock it and unlock it, no two are in the critical
  section of the same volume.
\<close>

theorem manager_mutual_exclusion:
  assumes "reachable get False s" and "pc s t = Critical k m" and "pc s u = Critical k n"
  shows "t = u"
  using reachable_lock_inv [OF assms(1)] assms(2,3) unfolding lock_inv_def
  by (metis option.inject)

text \<open>A goroutine in the critical section, reached with or without removals.\<close>

definition one_holder :: lock_state where
  "one_holder = \<lparr>table = \<lparr>mutexes = [''v'' \<mapsto> 0], fresh = 1\<rparr>, held = {0},
     pc = (\<lambda>_. Idle)(0 := Critical ''v'' 0)\<rparr>"

lemma one_holder_reachable: "reachable LoadOrStore removes one_holder"
proof -
  have 1: "reachable LoadOrStore removes \<lparr>table = \<lparr>mutexes = [''v'' \<mapsto> 0], fresh = 1\<rparr>, held = {},
      pc = (\<lambda>_. Idle)(0 := Got ''v'' 0)\<rparr>" (is "reachable _ _ ?s")
    using reachable.step [OF reachable.start lock_step.fetch
        [where s = "\<lparr>table = newKeyMutex, held = {}, pc = \<lambda>_. Idle\<rparr>" and t = 0 and k = "''v''"
          and m = 0 and tb = "\<lparr>mutexes = [''v'' \<mapsto> 0], fresh = 1\<rparr>"]]
    by (simp add: LoadOrStore_def newKeyMutex_def)
  have "lock_step LoadOrStore removes ?s one_holder"
    using lock_step.lock [where s = ?s and t = 0 and k = "''v''" and m = 0 and removes = removes and fetch = LoadOrStore]
    by (simp add: one_holder_def)
  with 1 show ?thesis by (rule reachable.step)
qed

lemma gets_are_LoadOrStore: "get = LoadOrStore" "GetMutex = LoadOrStore"
  by (simp_all add: fun_eq_iff get_def GetMutex_def)

theorem manager_mutual_exclusion_witness:
  "{t. \<exists>n. pc one_holder t = Critical ''v'' n} = {0}"
proof -
  have "pc one_holder 0 = Critical ''v'' 0" by (simp add: one_holder_def)
  then show ?thesis using manager_mutual_exclusion [OF one_holder_reachable [of False, folded gets_are_LoadOrStore(1)]] by blast
qed

text \<open>
  The driver's key locks do not exclude: since a handler that fails deletes the volume's
  mutex while it holds it, a second goroutine that fetches the lock gets a new mutex, and the
  two are in the critical section of one volume at the same time.
\<close>

theorem driver_locks_do_not_exclude:
  "\<exists>s k m n. reachable GetMutex True s \<and> pc s 0 = Critical k m \<and> pc s 1 = Critical k n \<and> m \<noteq> n"
proof -
  let ?tb = "\<lparr>mutexes = [''v'' \<mapsto> 0], fresh = 1\<rparr>"
  let ?s1 = "one_holder\<lparr>table := RemoveMutex ''v'' ?tb\<rparr>"
  have 1: "reachable GetMutex True ?s1"
    using reachable.step [OF one_holder_reachable [of True, folded gets_are_LoadOrStore(2)] lock_step.remove [where t = 0 and k = "''v''"
        and m = 0]] by (simp add: one_holder_def)
  let ?s2 = "?s1\<lparr>table := \<lparr>mutexes = [''v'' \<mapsto> 1], fresh = 2\<rparr>,
    pc := (pc ?s1)(1 := Got ''v'' 1)\<rparr>"
  have "GetMutex ''v'' (table ?s1) = (1, \<lparr>mutexes = [''v'' \<mapsto> 1], fresh = 2\<rparr>)"
    by (simp add: GetMutex_def LoadOrStore_def RemoveMutex_def)
  then have 2: "reachable GetMutex True ?s2"
    by (intro reachable.step [OF 1] lock_step.fetch) (simp_all add: one_holder_def)
  let ?s3 = "?s2\<lparr>held := insert 1 (held ?s2), pc := (pc ?s2)(1 := Critical ''v'' 1)\<rparr>"
  have "reachable GetMutex True ?s3"
    by (intro reachable.step [OF 2] lock_step.lock) (simp_all add: one_holder_def)
  moreover have "pc ?s3 0 = Critical ''v'' 0" "pc ?s3 1 = Critical ''v'' 1"
    by (simp_all add: one_holder_def)
  ultimately show ?thesis by (metis zero_neq_one)
qed

end
