(* ===== verification/K8s.thy ===== *)
theory K8s
  imports RemovalSafety Driver
begin

text \<open>
  The Kubernetes lookups (pkg/k8s/client.go): the persistent volume behind a CSI volume ID, its
  capacity and attributes, and a node's labels. The API server is an external call; the 30 second
  deadlines are part of its answers.
\<close>

definition newInCluster :: "env \<Rightarrow> ('w, err option) io" where
  "newInCluster E = ext (k8s_Client E) EK8sClient"

definition pv_matches :: "string \<Rightarrow> string \<Rightarrow> persistent_volume \<Rightarrow> bool" where
  "pv_matches driverName volumeId pv =
     (case pv_csi pv of
        None \<Rightarrow> False
      | Some c \<Rightarrow> pv_driver c = driverName \<and> (pv_handle c = volumeId \<or> pv_name pv = volumeId))"

definition pv_has_handle :: "string \<Rightarrow> string \<Rightarrow> persistent_volume \<Rightarrow> bool" where
  "pv_has_handle driverName volumeId pv =
     (case pv_csi pv of
        None \<Rightarrow> False
      | Some c \<Rightarrow> pv_driver c = driverName \<and> pv_handle c = volumeId)"

text \<open>The loop over the listed volumes: it fails on a second match.\<close>

fun match_handle ::
  "string \<Rightarrow> string \<Rightarrow> persistent_volume option \<Rightarrow> persistent_volume list \<Rightarrow>
   err + persistent_volume option" where
  "match_handle driverName volumeId matched [] = Inr matched"
| "match_handle driverName volumeId matched (pv # pvs) =
     (if \<not> pv_has_handle driverName volumeId pv then match_handle driverName volumeId matched pvs
      else if matched \<noteq> None then
        Inl (errorf (''multiple persistent volumes use CSI volume handle '' @ quoted volumeId))
      else match_handle driverName volumeId (Some pv) pvs)"

definition resolve_by_handle ::
  "env \<Rightarrow> string \<Rightarrow> string \<Rightarrow> ('w, err + persistent_volume) io" where
  "resolve_by_handle E driverName volumeId = do {
     l \<leftarrow> ext (pv_List E) EPVList;
     ret (case l of
        Inl err \<Rightarrow> Inl (wrap_err (''list persistent volumes for CSI volume handle ''
          @ quoted volumeId @ '': '') err)
      | Inr pvs \<Rightarrow>
          (case match_handle driverName volumeId None pvs of
             Inl err \<Rightarrow> Inl err
           | Inr None \<Rightarrow> Inl (errorf (''persistent volume with name or CSI volume handle ''
               @ quoted volumeId @ '' not found''))
           | Inr (Some pv) \<Rightarrow> Inr pv))
   }"

definition resolvePersistentVolume ::
  "libs \<Rightarrow> env \<Rightarrow> string \<Rightarrow> string \<Rightarrow> ('w, err + persistent_volume) io" where
  "resolvePersistentVolume L E driverName volumeId = do {
     let pvName = path_base volumeId;
     (if IsDNS1123Subdomain L pvName then do {
        g \<leftarrow> ext (\<lambda>h. pv_Get E h pvName) (EPVGet pvName);
        (case g of
           Inl _ \<Rightarrow> resolve_by_handle E driverName volumeId
         | Inr pv \<Rightarrow> if pv_matches driverName volumeId pv then ret (Inr pv)
                   else resolve_by_handle E driverName volumeId)
      }
      else resolve_by_handle E driverName volumeId)
   }"

definition persistentVolumeCapacity :: "persistent_volume \<Rightarrow> err + int" where
  "persistentVolumeCapacity pv =
     (case pv_storage pv of
        None \<Rightarrow> Inl (errorf (''persistent volume '' @ quoted (pv_name pv)
          @ '' storage capacity does not fit in int64''))
      | Some capacity \<Rightarrow> Inr capacity)"

definition GetVolumeCapacity :: "libs \<Rightarrow> env \<Rightarrow> string \<Rightarrow> string \<Rightarrow> ('w, err + int) io" where
  "GetVolumeCapacity L E driverName volumeId = do {
     c \<leftarrow> newInCluster E;
     (case c of
        Some err \<Rightarrow> ret (Inl err)
      | None \<Rightarrow> do {
          r \<leftarrow> resolvePersistentVolume L E driverName volumeId;
          ret (case r of Inl err \<Rightarrow> Inl err | Inr pv \<Rightarrow> persistentVolumeCapacity pv)
        })
   }"

definition GetVolumeAttributes :: "libs \<Rightarrow> env \<Rightarrow> string \<Rightarrow> string \<Rightarrow> ('w, err + gomap) io" where
  "GetVolumeAttributes L E driverName volumeId = do {
     c \<leftarrow> newInCluster E;
     (case c of
        Some err \<Rightarrow> ret (Inl err)
      | None \<Rightarrow> do {
          r \<leftarrow> resolvePersistentVolume L E driverName volumeId;
          ret (case r of
             Inl err \<Rightarrow> Inl err
           | Inr pv \<Rightarrow>
               (case pv_csi pv of
                  None \<Rightarrow> Inl (errorf (''persistent volume '' @ quoted (pv_name pv) @ '' has no CSI source''))
                | Some c \<Rightarrow> Inr (pv_attributes c)))
        })
   }"

definition GetNodeLabels :: "env \<Rightarrow> string \<Rightarrow> ('w, err + gomap) io" where
  "GetNodeLabels E nodeName = do {
     c \<leftarrow> newInCluster E;
     (case c of
        Some err \<Rightarrow> ret (Inl err)
      | None \<Rightarrow> do {
          r \<leftarrow> ext (\<lambda>h. node_Get E h nodeName) (ENodeGet nodeName);
          ret (case r of
             Inl err \<Rightarrow> Inl (wrap_err (''get node '' @ quoted nodeName @ '': '') err)
           | Inr labels \<Rightarrow> Inr labels)
        })
   }"

section \<open>The lookups change nothing\<close>

context probe_world
begin

lemma keeps_resolve: "keeps I (resolvePersistentVolume L E d v)"
  unfolding resolvePersistentVolume_def resolve_by_handle_def Let_def
  by (intro keeps_rules keeps_probe) (auto simp: is_probe_def)

lemma keeps_GetVolumeCapacity: "keeps I (GetVolumeCapacity L E d v)"
  unfolding GetVolumeCapacity_def newInCluster_def
  by (intro keeps_rules keeps_probe keeps_resolve) (auto simp: is_probe_def)

lemma keeps_GetVolumeAttributes: "keeps I (GetVolumeAttributes L E d v)"
  unfolding GetVolumeAttributes_def newInCluster_def
  by (intro keeps_rules keeps_probe keeps_resolve) (auto simp: is_probe_def)

end

section \<open>The volume found\<close>

lemma match_handle_spec:
  "match_handle d v matched pvs =
     (case filter (pv_has_handle d v) pvs of
        [] \<Rightarrow> Inr matched
      | [pv] \<Rightarrow> if matched = None then Inr (Some pv)
          else Inl (errorf (''multiple persistent volumes use CSI volume handle '' @ quoted v))
      | _ \<Rightarrow> Inl (errorf (''multiple persistent volumes use CSI volume handle '' @ quoted v)))"
  by (induction pvs arbitrary: matched) (auto split: list.split)

text \<open>
  The persistent volume a CSI volume ID resolves to is the right one: it belongs to this driver
  and either has the ID as its handle or, the legacy form, is named by it; found by the handle,
  it is the only one of the driver with that handle. Two volumes with one handle are an error.
\<close>

theorem resolvePersistentVolume_right_volume:
  assumes "run_state (resolvePersistentVolume L E d v) w = (Inr pv, w')"
  shows "pv_matches d v pv
    \<and> (hd (hist w') = EPVGet (path_base v) (Inr pv)
       \<or> (\<exists>pvs. hd (hist w') = EPVList (Inr pvs) \<and> filter (pv_has_handle d v) pvs = [pv]))"
  using assms
  by (auto simp: resolvePersistentVolume_def resolve_by_handle_def Let_def match_handle_spec
      pv_matches_def pv_has_handle_def
      split: sum.splits option.splits if_splits list.splits dest: filter_eq_ConsD)

definition pv_env :: env where
  "pv_env = calm_env\<lparr>pv_List := \<lambda>h. Inr [\<lparr>pv_name = ''pvc-1'', pv_csi = Some \<lparr>pv_driver = ''csi'',
     pv_handle = ''/buckets/v'', pv_attributes = []\<rparr>, pv_storage = Some 1024\<rparr>]\<rparr>"

theorem resolvePersistentVolume_right_volume_witness:
  "\<exists>pv. fst (run_state (resolvePersistentVolume demo_libs pv_env ''csi'' ''/buckets/v'') start_world) = Inr pv
     \<and> pv_matches ''csi'' ''/buckets/v'' pv"
proof -
  have "case fst (run_state (resolvePersistentVolume demo_libs pv_env ''csi'' ''/buckets/v'') start_world) of
      Inr _ \<Rightarrow> True | Inl _ \<Rightarrow> False"
    by code_simp
  then obtain pv where pv: "fst (run_state (resolvePersistentVolume demo_libs pv_env ''csi'' ''/buckets/v'')
      start_world) = Inr pv"
    by (auto split: sum.splits)
  then have "run_state (resolvePersistentVolume demo_libs pv_env ''csi'' ''/buckets/v'') start_world
      = (Inr pv, snd (run_state (resolvePersistentVolume demo_libs pv_env ''csi'' ''/buckets/v'') start_world))"
    by (metis prod.collapse)
  from resolvePersistentVolume_right_volume [OF this] pv show ?thesis by blast
qed

end
