(* ===== verification/NodeServer.thy ===== *)
theory NodeServer
  imports Volumes VacStore KeyMutex K8s
begin

text \<open>
  The CSI node service (pkg/driver/nodeserver.go). Its state extends the world with the map of
  managed volumes, the per-volume mutexes and the recovery backoff. A handler runs with the
  volume's mutex held; what it does to the mutex table is kept. A handler's result is the error
  it returns, \<open>None\<close> on success. The injectable functions are the production ones.
\<close>

section \<open>State and requests\<close>

record recoveryBackoffState =
  attempts :: int
  notBefore :: int

record node = world +
  volumes :: "(string \<times> Volume) list"
  volumeMutexes :: lock_table
  recoveryBackoff :: "(string \<times> recoveryBackoffState) list"
  activeRecoveries :: "string list"

type_synonym ('n, 'a) nio = "('n node_scheme, 'a) state"

definition load_volume :: "string \<Rightarrow> ('n, Volume option) nio" where
  "load_volume v = gets (\<lambda>w. map_of (volumes w) v)"

definition store_volume :: "string \<Rightarrow> Volume \<Rightarrow> ('n, unit) nio" where
  "store_volume v vol = modify (\<lambda>w. w\<lparr>volumes := AList.update v vol (volumes w)\<rparr>)"

definition delete_volume :: "string \<Rightarrow> ('n, unit) nio" where
  "delete_volume v = modify (\<lambda>w. w\<lparr>volumes := AList.delete v (volumes w)\<rparr>)"

definition getVolumeMutex :: "string \<Rightarrow> ('n, unit) nio" where
  "getVolumeMutex v = modify (\<lambda>w. w\<lparr>volumeMutexes := snd (GetMutex v (volumeMutexes w))\<rparr>)"

definition removeVolumeMutex :: "string \<Rightarrow> ('n, unit) nio" where
  "removeVolumeMutex v = modify (\<lambda>w. w\<lparr>volumeMutexes := RemoveMutex v (volumeMutexes w)\<rparr>)"

definition delete_backoff :: "string \<Rightarrow> ('n, unit) nio" where
  "delete_backoff v = modify (\<lambda>w. w\<lparr>recoveryBackoff := AList.delete v (recoveryBackoff w)\<rparr>)"

record NodeStageVolumeRequest =
  st_VolumeId :: string
  st_StagingTargetPath :: string
  st_VolumeCapability :: "VolumeCapability option"
  st_VolumeContext :: "gomap option"

record NodePublishVolumeRequest =
  pb_VolumeId :: string
  pb_TargetPath :: string
  pb_StagingTargetPath :: string
  pb_VolumeCapability :: "VolumeCapability option"
  pb_VolumeContext :: "gomap option"
  pb_Readonly :: bool

section \<open>Staging a new volume\<close>

definition loadPersistedVolumeAttributes ::
  "libs \<Rightarrow> env \<Rightarrow> SeaweedFsDriver \<Rightarrow> string \<Rightarrow> ('w, err + gomap) io" where
  "loadPersistedVolumeAttributes L E driver volumeID =
     (case newFilerVacStore (vac_cfg E) (vacFilersForVolume L driver volumeID) of
        Inl err \<Rightarrow> ret (Inr [])
      | Inr store \<Rightarrow> do {
          r \<leftarrow> vac_Read L E store volumeID;
          (case r of
             Inr params \<Rightarrow> ret (Inr params)
           | Inl e \<Rightarrow> (case e of Corrupt err \<Rightarrow> ret (Inl err) | Unavailable err \<Rightarrow> ret (Inr [])))
        })"

definition cloneVolumeContext :: "gomap option \<Rightarrow> gomap" where
  "cloneVolumeContext ctx = (case ctx of None \<Rightarrow> [] | Some m \<Rightarrow> m)"

text \<open>\<open>Inr None\<close>: no capacity is known.\<close>

definition resolveVolumeCapacity ::
  "libs \<Rightarrow> env \<Rightarrow> SeaweedFsDriver \<Rightarrow> string \<Rightarrow> gomap \<Rightarrow> ('w, err + int option) io" where
  "resolveVolumeCapacity L E driver volumeID volContext = do {
     c \<leftarrow> GetVolumeCapacity L E (dr_name driver) volumeID;
     (case c of
        Inr capacity \<Rightarrow> ret (Inr (Some capacity))
      | Inl _ \<Rightarrow>
          (let val = goget volContext volumeCapacityKey
           in if val = '''' then ret (Inr None)
              else (case parse_int64 val of
                      None \<Rightarrow> ret (Inl (errorf (''invalid '' @ volumeCapacityKey @ '' value '' @ quoted val)))
                    | Some capacity \<Rightarrow>
                        if capacity < 0
                        then ret (Inl (errorf (''invalid '' @ volumeCapacityKey @ '' value '' @ quoted val)))
                        else ret (Inr (Some capacity)))))
   }"

definition stage_mounted ::
  "libs \<Rightarrow> (gomap \<Rightarrow> gomap) \<Rightarrow> env \<Rightarrow> SeaweedFsDriver \<Rightarrow> string \<Rightarrow> string \<Rightarrow> gomap \<Rightarrow> bool \<Rightarrow>
   int option \<Rightarrow> ('w, err + Volume) io" where
  "stage_mounted L ord E driver volumeID stagingTargetPath context readOnly capacity =
     (case newMounter volumeID readOnly driver context of
        Inl err \<Rightarrow> ret (Inl err)
      | Inr mounter \<Rightarrow> do {
          s \<leftarrow> Stage L ord E driver mounter
            ((NewVolume L volumeID mounter driver)
              \<lparr>vol_volContext := Some context, vol_readOnly := readOnly\<rparr>) stagingTargetPath;
          (case s of
             Inl err \<Rightarrow> ret (Inl err)
           | Inr volume \<Rightarrow>
               (case capacity of
                  None \<Rightarrow> ret (Inr volume)
                | Some c \<Rightarrow> do {
                    q \<leftarrow> Quota E volume c;
                    (case q of
                       None \<Rightarrow> ret (Inr volume)
                     | Some err \<Rightarrow> do {
                         Unstage L E driver volume stagingTargetPath;
                         ret (Inl err)
                       })
                  }))
        })"

definition stageNewVolume ::
  "libs \<Rightarrow> (gomap \<Rightarrow> gomap) \<Rightarrow> env \<Rightarrow> SeaweedFsDriver \<Rightarrow> string \<Rightarrow> string \<Rightarrow> gomap option \<Rightarrow> bool \<Rightarrow>
   ('w, err + Volume) io" where
  "stageNewVolume L ord E driver volumeID stagingTargetPath volContext readOnly = do {
     p \<leftarrow> loadPersistedVolumeAttributes L E driver volumeID;
     (case p of
        Inl err \<Rightarrow> ret (Inl (wrap_err (''reading persisted volume attributes for '' @ volumeID @ '': '') err))
      | Inr persisted \<Rightarrow>
          (let context = mergePersistedVolumeAttributes (cloneVolumeContext volContext) persisted
           in case validateConstrainedParameterValues context of
                Some err \<Rightarrow> ret (Inl (wrap_err ''invalid argument: '' err))
              | None \<Rightarrow>
                  (case validateWritebackDlmCombo context of
                     Some err \<Rightarrow> ret (Inl (wrap_err ''invalid argument: '' err))
                   | None \<Rightarrow> do {
                       c \<leftarrow> resolveVolumeCapacity L E driver volumeID context;
                       (case c of
                          Inl err \<Rightarrow> ret (Inl err)
                        | Inr capacity \<Rightarrow>
                            stage_mounted L ord E driver volumeID stagingTargetPath
                              (case capacity of
                                 None \<Rightarrow> context
                               | Some n \<Rightarrow> goset volumeCapacityKey (format_int n) context)
                              readOnly capacity)
                     })))
   }"

definition rebuildVolumeFromStaging :: "libs \<Rightarrow> SeaweedFsDriver \<Rightarrow> string \<Rightarrow> string \<Rightarrow> Volume" where
  "rebuildVolumeFromStaging L driver volumeID stagingPath =
     \<lparr>vol_VolumeId = volumeID, vol_StagedPath = stagingPath, vol_mounter = None,
      vol_unmounter = None,
      vol_localSocket = LocalSocketPath (sha256_hex L) (volumeSocketDir driver) volumeID,
      vol_publishPaths = [], vol_volContext = None, vol_readOnly = False\<rparr>"

section \<open>NodeStageVolume\<close>

text \<open>The mapping of a staging error to a gRPC code.\<close>

definition stage_error :: "err \<Rightarrow> err" where
  "stage_error err =
     (if is_permission err then status_error PermissionDenied (err_text err)
      else if str_contains (err_text err) ''invalid argument'' then
        status_error InvalidArgument (err_text err)
      else status_error Internal (err_text err))"

definition stage_cleanup :: "env \<Rightarrow> string \<Rightarrow> ('w, err option) io" where
  "stage_cleanup E path = do {
     s \<leftarrow> ext (\<lambda>h. os_Stat E h path) (EStat path);
     (if (case s of Inr _ \<Rightarrow> True | Inl err \<Rightarrow> is_corrupted_mnt err) then cleanupStaleStagingPath E path
      else ret None)
   }"

definition NodeStageVolume ::
  "libs \<Rightarrow> (gomap \<Rightarrow> gomap) \<Rightarrow> env \<Rightarrow> SeaweedFsDriver \<Rightarrow> NodeStageVolumeRequest \<Rightarrow>
   ('n, err option) nio" where
  "NodeStageVolume L ord E driver req =
     (let volumeID = st_VolumeId req; stagingTargetPath = st_StagingTargetPath req
      in case st_VolumeCapability req of
           None \<Rightarrow> ret (Some (status_error InvalidArgument ''Volume capability missing in request''))
         | Some cap \<Rightarrow>
             if volumeID = '''' then
               ret (Some (status_error InvalidArgument ''Volume ID missing in request''))
             else if stagingTargetPath = '''' then
               ret (Some (status_error InvalidArgument ''Target path missing in request''))
             else do {
               getVolumeMutex volumeID;
               existing \<leftarrow> load_volume volumeID;
               (case existing of
                  Some _ \<Rightarrow> ret None
                | None \<Rightarrow> do {
                    healthy \<leftarrow> isStagingPathHealthy E stagingTargetPath;
                    (if healthy then do {
                       store_volume volumeID
                         ((rebuildVolumeFromStaging L driver volumeID stagingTargetPath)
                           \<lparr>vol_volContext := st_VolumeContext req,
                            vol_readOnly := isVolumeReadOnly cap\<rparr>);
                       ret None
                     }
                     else do {
                       c \<leftarrow> stage_cleanup E stagingTargetPath;
                       (case c of
                          Some err \<Rightarrow> do {
                            removeVolumeMutex volumeID;
                            ret (Some (status_error Internal (''failed to cleanup stale staging path ''
                              @ stagingTargetPath @ '': '' @ err_text err)))
                          }
                        | None \<Rightarrow> do {
                            s \<leftarrow> stageNewVolume L ord E driver volumeID stagingTargetPath
                              (st_VolumeContext req) (isVolumeReadOnly cap);
                            (case s of
                               Inl err \<Rightarrow> do {
                                 removeVolumeMutex volumeID;
                                 ret (Some (stage_error err))
                               }
                             | Inr volume \<Rightarrow> do { store_volume volumeID volume; ret None })
                          })
                     })
                  })
             })"

section \<open>NodePublishVolume and NodeUnpublishVolume\<close>

text \<open>The volume to publish: the cached one, one rebuilt from a healthy staging path, or a new one.\<close>

definition publish_volume ::
  "libs \<Rightarrow> (gomap \<Rightarrow> gomap) \<Rightarrow> env \<Rightarrow> SeaweedFsDriver \<Rightarrow> NodePublishVolumeRequest \<Rightarrow>
   VolumeCapability \<Rightarrow> ('n, err + Volume) nio" where
  "publish_volume L ord E driver req cap =
     (let volumeID = pb_VolumeId req; stagingTargetPath = pb_StagingTargetPath req;
          readOnly = isPublishVolumeReadOnly (pb_Readonly req) cap
      in do {
        existing \<leftarrow> load_volume volumeID;
        (case existing of
           Some vol \<Rightarrow> ret (Inr vol)
         | None \<Rightarrow> do {
             healthy \<leftarrow> isStagingPathHealthy E stagingTargetPath;
             (if healthy then do {
                let vol = (rebuildVolumeFromStaging L driver volumeID stagingTargetPath)
                  \<lparr>vol_volContext := pb_VolumeContext req, vol_readOnly := readOnly\<rparr>;
                store_volume volumeID vol;
                ret (Inr vol)
              }
              else do {
                c \<leftarrow> cleanupStaleStagingPath E stagingTargetPath;
                (case c of
                   Some err \<Rightarrow> do {
                     removeVolumeMutex volumeID;
                     ret (Inl (status_error Internal (''failed to cleanup stale staging path ''
                       @ stagingTargetPath @ '': '' @ err_text err)))
                   }
                 | None \<Rightarrow> do {
                     s \<leftarrow> stageNewVolume L ord E driver volumeID stagingTargetPath
                       (pb_VolumeContext req) readOnly;
                     (case s of
                        Inl err \<Rightarrow> do {
                          removeVolumeMutex volumeID;
                          ret (Inl (status_error Internal (''failed to re-stage volume: '' @ err_text err)))
                        }
                      | Inr vol \<Rightarrow> do { store_volume volumeID vol; ret (Inr vol) })
                   })
              })
           })
      })"

definition NodePublishVolume ::
  "libs \<Rightarrow> (gomap \<Rightarrow> gomap) \<Rightarrow> env \<Rightarrow> SeaweedFsDriver \<Rightarrow> NodePublishVolumeRequest \<Rightarrow>
   ('n, err option) nio" where
  "NodePublishVolume L ord E driver req =
     (let volumeID = pb_VolumeId req; targetPath = pb_TargetPath req;
          stagingTargetPath = pb_StagingTargetPath req
      in case pb_VolumeCapability req of
           None \<Rightarrow> ret (Some (status_error InvalidArgument ''Volume capability missing in request''))
         | Some cap \<Rightarrow>
             if volumeID = '''' then
               ret (Some (status_error InvalidArgument ''Volume ID missing in request''))
             else if targetPath = '''' then
               ret (Some (status_error InvalidArgument ''Target path missing in request''))
             else if stagingTargetPath = '''' then
               ret (Some (status_error InvalidArgument ''Staging target path missing in request''))
             else do {
               getVolumeMutex volumeID;
               v \<leftarrow> publish_volume L ord E driver req cap;
               (case v of
                  Inl err \<Rightarrow> ret (Some err)
                | Inr vol \<Rightarrow> do {
                    p \<leftarrow> Publish E stagingTargetPath targetPath (pb_Readonly req);
                    (case p of
                       Some err \<Rightarrow> ret (Some (status_error Internal (err_text err)))
                     | None \<Rightarrow> do {
                         store_volume volumeID (AddPublishPath targetPath (pb_Readonly req) vol);
                         ret None
                       })
                  })
             })"

definition NodeUnpublishVolume :: "env \<Rightarrow> string \<Rightarrow> string \<Rightarrow> ('n, err option) nio" where
  "NodeUnpublishVolume E volumeID targetPath =
     (if volumeID = '''' then
        ret (Some (status_error InvalidArgument ''Volume ID missing in request''))
      else if targetPath = '''' then
        ret (Some (status_error InvalidArgument ''Target path missing in request''))
      else do {
        getVolumeMutex volumeID;
        existing \<leftarrow> load_volume volumeID;
        (case existing of
           None \<Rightarrow> do {
             c \<leftarrow> CleanupMountPoint E targetPath;
             (case c of None \<Rightarrow> resetStatfsProbe targetPath | Some _ \<Rightarrow> ret ());
             ret None
           }
         | Some vol \<Rightarrow> do {
             u \<leftarrow> Unpublish E targetPath;
             (case u of
                Some err \<Rightarrow> ret (Some (status_error Internal (err_text err)))
              | None \<Rightarrow> do { store_volume volumeID (RemovePublishPath targetPath vol); ret None })
           })
      })"

section \<open>NodeUnstageVolume, NodeExpandVolume and topology\<close>

definition NodeUnstageVolume ::
  "libs \<Rightarrow> env \<Rightarrow> SeaweedFsDriver \<Rightarrow> string \<Rightarrow> string \<Rightarrow> ('n, err option) nio" where
  "NodeUnstageVolume L E driver volumeID stagingTargetPath =
     (if volumeID = '''' then
        ret (Some (status_error InvalidArgument ''Volume ID missing in request''))
      else if stagingTargetPath = '''' then
        ret (Some (status_error InvalidArgument ''Target path missing in request''))
      else do {
        getVolumeMutex volumeID;
        existing \<leftarrow> load_volume volumeID;
        failed \<leftarrow> (case existing of
           None \<Rightarrow> do {
             c \<leftarrow> CleanupMountPoint E stagingTargetPath;
             (case c of None \<Rightarrow> resetStatfsProbe stagingTargetPath | Some _ \<Rightarrow> ret ());
             CleanupVolumeResources L E driver volumeID;
             ret None
           }
         | Some vol \<Rightarrow> do {
             u \<leftarrow> Unstage L E driver vol stagingTargetPath;
             (case u of
                Some err \<Rightarrow> ret (Some (status_error Internal (err_text err)))
              | None \<Rightarrow> do { delete_volume volumeID; ret None })
           });
        (case failed of
           Some err \<Rightarrow> ret (Some err)
         | None \<Rightarrow> do {
             removeVolumeMutex volumeID;
             delete_backoff volumeID;
             emit (EForgetMetrics volumeID);
             ret None
           })
      })"

definition NodeExpandVolume :: "env \<Rightarrow> string \<Rightarrow> string \<Rightarrow> int \<Rightarrow> ('n, err option) nio" where
  "NodeExpandVolume E volumeID volumePath requiredBytes =
     (if volumeID = '''' then
        ret (Some (status_error InvalidArgument ''Volume ID missing in request''))
      else if volumePath = '''' then
        ret (Some (status_error InvalidArgument ''Volume path missing in request''))
      else do {
        getVolumeMutex volumeID;
        existing \<leftarrow> load_volume volumeID;
        (case existing of
           None \<Rightarrow> ret None
         | Some vol \<Rightarrow> Quota E vol requiredBytes)
      })"

definition nodeTopologySegments :: "env \<Rightarrow> SeaweedFsDriver \<Rightarrow> ('w, err + gomap) io" where
  "nodeTopologySegments E driver =
     (if TopologyKeys driver = [] then ret (Inr [])
      else do {
        labels \<leftarrow> GetNodeLabels E (dr_nodeID driver);
        ret (case labels of
           Inl err \<Rightarrow> Inl err
         | Inr ls \<Rightarrow> Inr (fold (\<lambda>key segments.
             case map_of ls key of None \<Rightarrow> segments | Some v \<Rightarrow> goset key v segments)
             (TopologyKeys driver) []))
      })"

text \<open>The node ID and the topology segments, none if there are none.\<close>

definition NodeGetInfo :: "env \<Rightarrow> SeaweedFsDriver \<Rightarrow> ('w, err + string \<times> gomap option) io" where
  "NodeGetInfo E driver = do {
     s \<leftarrow> nodeTopologySegments E driver;
     ret (case s of
        Inl err \<Rightarrow> Inl (status_error Internal (err_text err))
      | Inr segments \<Rightarrow> Inr (dr_nodeID driver, if segments \<noteq> [] then Some segments else None))
   }"

datatype NodeCapability = STAGE_UNSTAGE_VOLUME | NODE_EXPAND_VOLUME | GET_VOLUME_STATS

definition NodeGetCapabilities :: "NodeCapability list" where
  "NodeGetCapabilities = [STAGE_UNSTAGE_VOLUME, NODE_EXPAND_VOLUME, GET_VOLUME_STATS]"

end
