(* ===== verification/NodeInvariants.thy ===== *)
theory NodeInvariants
  imports NodeServer
begin

text \<open>
  Invariants of the node service. \<open>stage_world\<close> is what a predicate must survive for the staging
  of a volume to preserve it, \<open>handler_world\<close> lets it survive the other events too and \<open>node_world\<close> adds the node's own state changes, with \<open>good\<close> the
  property of the volumes it stores. The handlers are taken through that locale once, and
  it is interpreted twice: on removal safety and on the well-formedness of the volume map.
\<close>

section \<open>Staging under an invariant\<close>

context probe_world
begin

lemma keeps_loadPersisted: "keeps I (loadPersistedVolumeAttributes L E driver v)"
  unfolding loadPersistedVolumeAttributes_def
  by (intro keeps_rules keeps_vac_Read, split vac_error.split) (intro conjI allI impI keeps_rules)

lemma keeps_capacity: "keeps I (resolveVolumeCapacity L E driver v ctx)"
  unfolding resolveVolumeCapacity_def Let_def
  by (intro keeps_rules keeps_GetVolumeCapacity)

end

locale stage_world = call_world I neutral
  for I :: "'w world_scheme \<Rightarrow> bool" and neutral :: "event \<Rightarrow> bool" +
  fixes L :: libs and driver :: SeaweedFsDriver
  assumes keeps_stale: "keeps I (cleanupStaleStagingPath E path)"
    and keeps_resources: "keeps I (CleanupVolumeResources L E driver v)"
begin

lemma keeps_Unstage: "keeps I (Unstage L E driver vol path)"
  unfolding Unstage_def
  by (intro keeps_rules keeps_CleanupMountPoint keeps_unmounter keeps_os keeps_reset
      keeps_resources) (auto simp: is_os_call_def)

lemma keeps_stage_mounted: "keeps I (stage_mounted L ord E driver v path ctx ro c)"
  unfolding stage_mounted_def by (intro keeps_rules keeps_Stage keeps_Quota keeps_Unstage)

lemma keeps_stageNewVolume: "keeps I (stageNewVolume L ord E driver v path ctx ro)"
  unfolding stageNewVolume_def Let_def
  by (intro keeps_rules keeps_loadPersisted keeps_capacity keeps_stage_mounted)

lemma keeps_stage_cleanup: "keeps I (stage_cleanup E path)"
  unfolding stage_cleanup_def
  by (intro keeps_rules keeps_probe keeps_stale) (auto simp: is_probe_def)

end

text \<open>With the marks of the handlers and of the recovery, and every other event but a removal.\<close>

locale handler_world = stage_world I neutral L driver + mount_world I neutral
  for I :: "'w world_scheme \<Rightarrow> bool" and neutral :: "event \<Rightarrow> bool" and L driver

section \<open>What staging returns\<close>

text \<open>A volume as \<open>stageNewVolume\<close> hands it out.\<close>

definition staged_volume :: "string \<Rightarrow> string \<Rightarrow> bool \<Rightarrow> Volume \<Rightarrow> bool" where
  "staged_volume v path ro vol \<longleftrightarrow> vol_VolumeId vol = v \<and> vol_StagedPath vol = path
     \<and> vol_unmounter vol = Some v \<and> vol_mounter vol \<noteq> None \<and> vol_volContext vol \<noteq> None
     \<and> vol_readOnly vol = ro \<and> vol_publishPaths vol = []"

lemma Stage_result:
  "run_state (Stage L ord E driver m vol path) w = (Inr vol', w') \<Longrightarrow>
   vol' = vol\<lparr>vol_StagedPath := path, vol_unmounter := Some (mo_volumeID m)\<rparr>"
  by (auto simp: Stage_def split: sum.splits option.splits prod.splits if_splits)

lemma stage_mounted_result:
  assumes "run_state (stage_mounted L ord E driver v path ctx ro c) w = (Inr vol, w')"
  shows "staged_volume v path ro vol \<and> vol_volContext vol = Some ctx"
  using assms
  by (auto simp: stage_mounted_def newMounter_def NewVolume_def staged_volume_def
      split: sum.splits option.splits prod.splits dest!: Stage_result)

lemma stageNewVolume_result:
  assumes "run_state (stageNewVolume L ord E driver v path ctx ro) w = (Inr vol, w')"
  shows "staged_volume v path ro vol"
  using assms
  by (auto simp: stageNewVolume_def Let_def split: sum.splits option.splits prod.splits
      dest!: stage_mounted_result)

section \<open>The node's own state\<close>

locale node_world = handler_world I neutral L driver
  for I :: "'n node_scheme \<Rightarrow> bool" and neutral :: "event \<Rightarrow> bool" and L driver +
  fixes good :: "string \<Rightarrow> Volume \<Rightarrow> bool"
  assumes I_store: "I w \<Longrightarrow> good v vol \<Longrightarrow> I (w\<lparr>volumes := AList.update v vol (volumes w)\<rparr>)"
    and I_delete: "I w \<Longrightarrow> I (w\<lparr>volumes := AList.delete v (volumes w)\<rparr>)"
    and I_mutexes: "I w \<Longrightarrow> I (w\<lparr>volumeMutexes := t\<rparr>)"
    and I_backoff: "I w \<Longrightarrow> I (w\<lparr>recoveryBackoff := b\<rparr>)"
    and I_good: "I w \<Longrightarrow> map_of (volumes w) v = Some vol \<Longrightarrow> good v vol"
    and good_staged: "staged_volume v path ro vol \<Longrightarrow> good v vol"
    and good_rebuilt: "good v ((rebuildVolumeFromStaging L driver v path)
      \<lparr>vol_volContext := ctx, vol_readOnly := ro\<rparr>)"
    and good_publish: "good v vol \<Longrightarrow> good v (AddPublishPath p ro' vol)"
    and good_unpublish: "good v vol \<Longrightarrow> good v (RemovePublishPath p vol)"
begin

lemma keeps_store: "good v vol \<Longrightarrow> keeps I (store_volume v vol)"
  by (simp add: keeps_def store_volume_def I_store)

lemma keeps_delete: "keeps I (delete_volume v)"
  by (simp add: keeps_def delete_volume_def I_delete)

lemma keeps_mutex: "keeps I (getVolumeMutex v)" "keeps I (removeVolumeMutex v)"
  by (simp_all add: keeps_def getVolumeMutex_def removeVolumeMutex_def I_mutexes)

lemma keeps_backoff: "keeps I (delete_backoff v)"
  by (simp add: keeps_def delete_backoff_def I_backoff)

lemma ensures_load: "ensures I (load_volume v) (\<lambda>x. \<forall>vol. x = Some vol \<longrightarrow> good v vol)"
  by (auto simp: ensures_def load_volume_def keeps_gets I_good)

lemma ensures_stage:
  "ensures I (stageNewVolume L ord E driver v path ctx ro) (\<lambda>x. \<forall>vol. x = Inr vol \<longrightarrow> good v vol)"
  by (rule ensures_result [OF keeps_stageNewVolume]) (auto dest: stageNewVolume_result good_staged)

lemma keeps_NodeStageVolume: "keeps I (NodeStageVolume L ord E driver req)"
  unfolding NodeStageVolume_def Let_def
  by (intro keeps_case_option keeps_if keeps_return keeps_bind keeps_mutex keeps_stage_cleanup
      keeps_healthy keeps_store good_rebuilt
      keeps_bind_ensures [OF ensures_load] keeps_bind_ensures [OF ensures_stage] keeps_case_sum)
     auto

lemma ensures_publish_volume:
  "ensures I (publish_volume L ord E driver req cap)
     (\<lambda>x. \<forall>vol. x = Inr vol \<longrightarrow> good (pb_VolumeId req) vol)"
proof -
  let ?v = "pb_VolumeId req"
  let ?Q = "\<lambda>x. \<forall>vol. x = Inr vol \<longrightarrow> good ?v vol"
  have stored: "ensures I (store_volume ?v vol \<bind> (\<lambda>_. ret (Inr vol))) ?Q" if "good ?v vol" for vol
    using that by (intro ensures_bind_any keeps_store ensures_return) simp_all
  have failed: "ensures I (removeVolumeMutex ?v \<bind> (\<lambda>_. ret (Inl e))) ?Q" for e
    by (intro ensures_bind_any keeps_mutex ensures_return) simp
  have restage: "ensures I (stageNewVolume L ord E driver ?v path ctx ro \<bind>
      case_sum (\<lambda>err. removeVolumeMutex ?v \<bind> (\<lambda>_. ret (Inl (f err))))
        (\<lambda>vol. store_volume ?v vol \<bind> (\<lambda>_. ret (Inr vol)))) ?Q" for path ctx ro f
    by (rule ensures_bind [OF ensures_stage]) (auto split: sum.split intro: stored failed)
  have new: "ensures I (cleanupStaleStagingPath E path \<bind> (\<lambda>c. case c of
      None \<Rightarrow> stageNewVolume L ord E driver ?v path ctx ro \<bind>
        case_sum (\<lambda>err. removeVolumeMutex ?v \<bind> (\<lambda>_. ret (Inl (f err))))
          (\<lambda>vol. store_volume ?v vol \<bind> (\<lambda>_. ret (Inr vol)))
    | Some err \<Rightarrow> removeVolumeMutex ?v \<bind> (\<lambda>_. ret (Inl (g err))))) ?Q" for path ctx ro f g
    by (rule ensures_bind_any [OF keeps_stale]) (auto split: option.split intro: restage failed)
  show ?thesis
    unfolding publish_volume_def Let_def
    by (rule ensures_bind [OF ensures_load], split option.split, intro conjI allI impI)
       (auto intro!: ensures_bind_any [OF keeps_healthy] ensures_return stored good_rebuilt new)
qed

lemma keeps_NodePublishVolume: "keeps I (NodePublishVolume L ord E driver req)"
  unfolding NodePublishVolume_def Let_def
  by (intro keeps_case_option keeps_if keeps_return keeps_bind keeps_mutex keeps_Publish keeps_store
      good_publish keeps_bind_ensures [OF ensures_publish_volume] keeps_case_sum) auto

lemma keeps_NodeUnpublishVolume: "keeps I (NodeUnpublishVolume E v path)"
  unfolding NodeUnpublishVolume_def
  by (intro keeps_case_option keeps_if keeps_return keeps_bind keeps_mutex keeps_CleanupMountPoint
      keeps_reset keeps_Unpublish keeps_store good_unpublish keeps_bind_ensures [OF ensures_load]) auto

lemma keeps_NodeUnstageVolume: "keeps I (NodeUnstageVolume L E driver v path)"
  unfolding NodeUnstageVolume_def
  by (intro keeps_case_option keeps_if keeps_return keeps_bind keeps_mutex keeps_CleanupMountPoint
      keeps_reset keeps_resources keeps_Unstage keeps_delete keeps_backoff keeps_note
      keeps_bind_ensures [OF ensures_load]) (auto simp: is_metric_def)

lemma keeps_NodeExpandVolume: "keeps I (NodeExpandVolume E v path bytes)"
  unfolding NodeExpandVolume_def
  by (intro keeps_case_option keeps_if keeps_return keeps_bind keeps_mutex keeps_Quota
      keeps_bind_ensures [OF ensures_load])

end

end
