(* ===== verification/Remount.thy ===== *)
theory Remount
  imports MountTable RemovalSafety
begin

text \<open>
  Replacing stale mounts inside the containers of a pod (pkg/driver/container_remount_linux.go):
  the processes of the pod, one per mount namespace, and the sequence of system calls that enters
  a container's namespace, swaps the mount and returns. Pinning the goroutine to its thread is
  not modelled: the sequence is the thread's.
\<close>

section \<open>The processes of a pod\<close>

text \<open>\<open>selfNS\<close> is the driver's own mount namespace, empty if it cannot be read.\<close>

fun container_pids ::
  "env \<Rightarrow> string \<Rightarrow> string \<Rightarrow> string list \<Rightarrow> string list \<Rightarrow> ('w, int list) io" where
  "container_pids E podUID selfNS seenNS [] = ret []"
| "container_pids E podUID selfNS seenNS (name # names) =
     (case parse_int64 name of
        None \<Rightarrow> container_pids E podUID selfNS seenNS names
      | Some pid \<Rightarrow> do {
          c \<leftarrow> ext (\<lambda>h. proc_Cgroup E h pid) (ECgroup pid);
          (case c of
             Inl _ \<Rightarrow> container_pids E podUID selfNS seenNS names
           | Inr content \<Rightarrow>
               if \<not> str_contains content podUID
                  \<and> \<not> str_contains content (map (\<lambda>c. if c = CHR ''-'' then CHR ''_'' else c) podUID)
               then container_pids E podUID selfNS seenNS names
               else do {
                 l \<leftarrow> ext (\<lambda>h. proc_NsLink E h (Some pid)) (ENsLink (Some pid));
                 (case l of
                    Inl _ \<Rightarrow> container_pids E podUID selfNS seenNS names
                  | Inr nsLink \<Rightarrow>
                      if selfNS \<noteq> '''' \<and> nsLink = selfNS then container_pids E podUID selfNS seenNS names
                      else if nsLink \<in> set seenNS then container_pids E podUID selfNS seenNS names
                      else do {
                        pids \<leftarrow> container_pids E podUID selfNS (nsLink # seenNS) names;
                        ret (pid # pids)
                      })
               })
        })"

definition findContainerPIDsForPod :: "env \<Rightarrow> string \<Rightarrow> ('w, err + int list) io" where
  "findContainerPIDsForPod E podUID = do {
     d \<leftarrow> ext (proc_Dir E) EProcDir;
     (case d of
        Inl err \<Rightarrow> ret (Inl (wrap_err ''read /proc: '' err))
      | Inr names \<Rightarrow> do {
          s \<leftarrow> ext (\<lambda>h. proc_NsLink E h None) (ENsLink None);
          pids \<leftarrow> container_pids E podUID (case s of Inl _ \<Rightarrow> '''' | Inr link \<Rightarrow> link) [] names;
          ret (Inr pids)
        })
   }"

section \<open>Swapping a mount in a container\<close>

definition ns_do :: "env \<Rightarrow> ns_call \<Rightarrow> ('w, err option) io" where
  "ns_do E c = ext (\<lambda>h. ns_Call E h c) (ENs c)"

text \<open>What runs inside the container's namespace; the deferred \<open>setns\<close> back follows it.\<close>

definition swap_inside :: "env \<Rightarrow> string \<Rightarrow> bool \<Rightarrow> ('w, err option) io" where
  "swap_inside E containerMountPath readOnly = do {
     ns_do E (DetachInside containerMountPath);
     m \<leftarrow> ns_do E (MoveMountTo containerMountPath);
     (case m of
        Some err \<Rightarrow> ret (Some err)
      | None \<Rightarrow> do {
          (if readOnly then do { ns_do E (RemountReadOnly containerMountPath); ret () } else ret ());
          ret None
        })
   }"

definition subpath_source :: "string \<Rightarrow> string \<Rightarrow> string" where
  "subpath_source stagingPath subPath =
     (if subPath \<noteq> '''' \<and> subPath \<noteq> ''/'' then path_join [stagingPath, subPath] else stagingPath)"

definition remountViaSetns ::
  "env \<Rightarrow> int \<Rightarrow> string \<Rightarrow> string \<Rightarrow> string \<Rightarrow> bool \<Rightarrow> ('w, err option) io" where
  "remountViaSetns E containerPID containerMountPath stagingPath subPath readOnly = do {
     u \<leftarrow> ns_do E UnshareFs;
     (case u of
        Some err \<Rightarrow> ret (Some err)
      | None \<Rightarrow> do {
          t \<leftarrow> ns_do E (OpenTree (subpath_source stagingPath subPath));
          (case t of
             Some err \<Rightarrow> ret (Some err)
           | None \<Rightarrow> do {
               o1 \<leftarrow> ns_do E OpenOwnNs;
               (case o1 of
                  Some err \<Rightarrow> ret (Some err)
                | None \<Rightarrow> do {
                    o2 \<leftarrow> ns_do E (OpenContainerNs containerPID);
                    (case o2 of
                       Some err \<Rightarrow> ret (Some err)
                     | None \<Rightarrow> do {
                         s \<leftarrow> ns_do E (SetnsContainer containerPID);
                         (case s of
                            Some err \<Rightarrow> ret (Some err)
                          | None \<Rightarrow> do {
                              r \<leftarrow> swap_inside E containerMountPath readOnly;
                              ns_do E SetnsOwn;
                              ret r
                            })
                       })
                  })
             })
        })
   }"

section \<open>The remounts\<close>

fun remount_device_in ::
  "env \<Rightarrow> string \<Rightarrow> string \<Rightarrow> bool \<Rightarrow> int list \<Rightarrow> ('w, unit) io" where
  "remount_device_in E stagingPath oldDevice readOnly [] = ret ()"
| "remount_device_in E stagingPath oldDevice readOnly (pid # pids) = do {
     r \<leftarrow> findContainerMountsByDevice E pid oldDevice;
     (case r of
        Inl _ \<Rightarrow> ret ()
      | Inr mounts \<Rightarrow> for_each mounts (\<lambda>m. do {
          remountViaSetns E pid (mie_mountpoint m) stagingPath (mie_root m) readOnly;
          ret ()
        }));
     remount_device_in E stagingPath oldDevice readOnly pids
   }"

definition remountInContainers ::
  "env \<Rightarrow> string \<Rightarrow> string \<Rightarrow> string \<Rightarrow> bool \<Rightarrow> ('w, unit) io" where
  "remountInContainers E publishPath stagingPath oldDevice readOnly =
     (let podUID = extractPodUID publishPath
      in if podUID = '''' then ret ()
         else do {
           p \<leftarrow> findContainerPIDsForPod E podUID;
           (case p of
              Inl _ \<Rightarrow> ret ()
            | Inr pids \<Rightarrow> remount_device_in E stagingPath oldDevice readOnly pids)
         })"

definition isStaleMount :: "err + 'a \<Rightarrow> bool" where
  "isStaleMount r = (case r of Inl err \<Rightarrow> is_stale_errno err | Inr _ \<Rightarrow> False)"

definition proc_root_path :: "int \<Rightarrow> string \<Rightarrow> string" where
  "proc_root_path pid mountpoint = ''/proc/'' @ format_int pid @ ''/root'' @ mountpoint"

definition remount_if_stale ::
  "env \<Rightarrow> string \<Rightarrow> string \<Rightarrow> bool \<Rightarrow> int \<Rightarrow> mountInfoEntry \<Rightarrow> ('w, unit) io" where
  "remount_if_stale E stagingPath stagingDevice readOnly pid e =
     (if \<not> isFuseFS (mie_fstype e) then ret ()
      else if mie_device e = stagingDevice then ret ()
      else do {
        let checkPath = proc_root_path pid (mie_mountpoint e);
        s \<leftarrow> ext (\<lambda>h. os_Stat E h checkPath) (EStat checkPath);
        (if \<not> isStaleMount s then ret ()
         else do {
           remountViaSetns E pid (mie_mountpoint e) stagingPath (mie_root e) readOnly;
           ret ()
         })
      })"

fun remount_stale_in ::
  "env \<Rightarrow> string \<Rightarrow> string \<Rightarrow> bool \<Rightarrow> int list \<Rightarrow> ('w, unit) io" where
  "remount_stale_in E stagingPath stagingDevice readOnly [] = ret ()"
| "remount_stale_in E stagingPath stagingDevice readOnly (pid # pids) = do {
     r \<leftarrow> parseMountInfo E (Some pid);
     (case r of
        Inl _ \<Rightarrow> ret ()
      | Inr entries \<Rightarrow> for_each entries (remount_if_stale E stagingPath stagingDevice readOnly pid));
     remount_stale_in E stagingPath stagingDevice readOnly pids
   }"

definition remountStaleFuseInContainers ::
  "env \<Rightarrow> string \<Rightarrow> string \<Rightarrow> bool \<Rightarrow> ('w, unit) io" where
  "remountStaleFuseInContainers E publishPath stagingPath readOnly =
     (let podUID = extractPodUID publishPath
      in if podUID = '''' then ret ()
         else do {
           p \<leftarrow> findContainerPIDsForPod E podUID;
           (case p of
              Inl _ \<Rightarrow> ret ()
            | Inr pids \<Rightarrow>
                if pids = [] then ret ()
                else do {
                  d \<leftarrow> getMountDevice E stagingPath;
                  (case d of
                     Inl _ \<Rightarrow> ret ()
                   | Inr stagingDevice \<Rightarrow>
                       remount_stale_in E stagingPath stagingDevice readOnly pids)
                })
         })"

section \<open>Remounts keep the mount invariants\<close>

context os_world
begin

lemma keeps_ns_do: "keeps I (ns_do E c)"
  unfolding ns_do_def by (rule keeps_os) (simp add: is_os_call_def)

lemma keeps_container_pids: "keeps I (container_pids E podUID selfNS seenNS names)"
proof (induction names arbitrary: seenNS)
  case (Cons name names)
  show ?case
    by (cases "parse_int64 name") (auto intro!: keeps_rules keeps_probe Cons simp: is_probe_def)
qed (simp add: keeps_rules)

lemma keeps_findContainerPIDs: "keeps I (findContainerPIDsForPod E podUID)"
  unfolding findContainerPIDsForPod_def
  by (intro keeps_rules keeps_probe keeps_container_pids) (auto simp: is_probe_def)

lemma keeps_remountViaSetns: "keeps I (remountViaSetns E pid path staging sub ro)"
  unfolding remountViaSetns_def swap_inside_def by (intro keeps_rules keeps_ns_do)

lemma keeps_parse: "keeps I (parseMountInfo E pid)"
  unfolding parseMountInfo_def by (intro keeps_rules keeps_probe) (auto simp: is_probe_def)

lemma keeps_remountInContainers: "keeps I (remountInContainers E publish staging dev ro)"
proof -
  have "keeps I (remount_device_in E staging dev ro pids)" for pids
    by (induction pids)
       (auto simp: findContainerMountsByDevice_def intro!: keeps_rules keeps_parse keeps_remountViaSetns)
  then show ?thesis
    unfolding remountInContainers_def Let_def by (intro keeps_rules keeps_findContainerPIDs)
qed

lemma keeps_remountStale: "keeps I (remountStaleFuseInContainers E publish staging ro)"
proof -
  have "keeps I (remount_if_stale E staging dev ro pid e)" for dev pid e
    unfolding remount_if_stale_def Let_def
    by (intro keeps_rules keeps_probe keeps_remountViaSetns) (auto simp: is_probe_def)
  then have "keeps I (remount_stale_in E staging dev ro pids)" for dev pids
    by (induction pids) (auto intro!: keeps_rules keeps_parse)
  then show ?thesis
    unfolding remountStaleFuseInContainers_def getMountDevice_def Let_def
    by (intro keeps_rules keeps_findContainerPIDs keeps_parse)
qed

end

section \<open>The namespace discipline\<close>

text \<open>
  Reading the history backwards: is the thread inside a container's mount namespace, and was it
  whenever a mount was swapped?
\<close>

fun inside_container :: "event list \<Rightarrow> bool" where
  "inside_container [] = False"
| "inside_container (ENs (SetnsContainer p) None # h) = True"
| "inside_container (ENs SetnsOwn None # h) = False"
| "inside_container (e # h) = inside_container h"

lemma inside_setns [simp]:
  "inside_container (ENs (SetnsContainer p) r # h) = (r = None \<or> inside_container h)"
  "inside_container (ENs SetnsOwn r # h) = (r \<noteq> None \<and> inside_container h)"
  by (cases r; simp)+

definition swaps_mount :: "event \<Rightarrow> bool" where
  "swaps_mount e \<longleftrightarrow> (case e of
     ENs (DetachInside _) _ \<Rightarrow> True | ENs (MoveMountTo _) _ \<Rightarrow> True
   | ENs (RemountReadOnly _) _ \<Rightarrow> True | _ \<Rightarrow> False)"

fun ns_disciplined :: "event list \<Rightarrow> bool" where
  "ns_disciplined [] = True"
| "ns_disciplined (e # h) = ((swaps_mount e \<longrightarrow> inside_container h) \<and> ns_disciplined h)"

definition in_own_ns :: "event list \<Rightarrow> bool" where
  "in_own_ns h \<longleftrightarrow> ns_disciplined h \<and> \<not> inside_container h"

definition is_ns :: "event \<Rightarrow> bool" where
  "is_ns e \<longleftrightarrow> (case e of ENs _ _ \<Rightarrow> True | _ \<Rightarrow> False)"

lemma in_own_ns_step: "\<not> is_ns e \<Longrightarrow> in_own_ns (e # h) = in_own_ns h"
  by (cases e) (auto simp: in_own_ns_def is_ns_def swaps_mount_def)

interpretation own_ns: probe_world "\<lambda>w. in_own_ns (hist w)" "\<lambda>e. \<not> is_ns e"
  by unfold_locales (auto simp: in_own_ns_step is_probe_def is_ns_def split: event.splits)

lemma keeps_own_remount:
  assumes "\<And>h. ns_Call E h SetnsOwn = None"
  shows "keeps (\<lambda>w. in_own_ns (hist w)) (remountViaSetns E pid path staging sub ro)"
  by (rule keepsI)
     (auto simp: remountViaSetns_def swap_inside_def ns_do_def in_own_ns_def swaps_mount_def assms
       split: option.splits if_splits prod.splits dest: sym [of "Some _"])

lemma keeps_own_pids: "keeps (\<lambda>w. in_own_ns (hist w)) (container_pids E podUID selfNS seenNS names)"
proof (induction names arbitrary: seenNS)
  case (Cons name names)
  show ?case
    by (cases "parse_int64 name")
       (auto intro!: keeps_rules own_ns.keeps_probe Cons simp: is_probe_def)
qed (simp add: keeps_rules)

lemma keeps_own_find: "keeps (\<lambda>w. in_own_ns (hist w)) (findContainerPIDsForPod E podUID)"
  unfolding findContainerPIDsForPod_def
  by (intro keeps_rules own_ns.keeps_probe keeps_own_pids) (auto simp: is_probe_def)

lemma keeps_own_parse: "keeps (\<lambda>w. in_own_ns (hist w)) (parseMountInfo E pid)"
  unfolding parseMountInfo_def by (intro keeps_rules own_ns.keeps_probe) (auto simp: is_probe_def)

text \<open>
  C24: Namespace discipline of both remounts: whatever the containers, their mount tables and
  the system calls do, mounts are swapped only while the thread is inside a container's mount
  namespace, never in the driver's own, and every remount, failed ones included, ends back in
  the driver's own namespace, as long as the return to it does not itself fail.
\<close>

theorem remounts_return_to_own_namespace:
  assumes "\<And>h. ns_Call E h SetnsOwn = None" and "in_own_ns (hist w)"
  shows "in_own_ns (hist (snd (run_state (remountInContainers E publish staging dev ro) w)))
    \<and> in_own_ns (hist (snd (run_state (remountStaleFuseInContainers E publish staging ro) w)))"
proof -
  note remount = keeps_own_remount [of E, OF assms(1)]
  have "keeps (\<lambda>w. in_own_ns (hist w)) (remount_device_in E staging dev ro pids)" for pids
    by (induction pids)
       (auto simp: findContainerMountsByDevice_def intro!: keeps_rules keeps_own_parse remount)
  then have dev: "keeps (\<lambda>w. in_own_ns (hist w)) (remountInContainers E publish staging dev ro)"
    unfolding remountInContainers_def Let_def by (intro keeps_rules keeps_own_find)
  have "keeps (\<lambda>w. in_own_ns (hist w)) (remount_if_stale E staging d ro pid e)" for d pid e
    unfolding remount_if_stale_def Let_def
    by (intro keeps_rules own_ns.keeps_probe remount) (auto simp: is_probe_def)
  then have "keeps (\<lambda>w. in_own_ns (hist w)) (remount_stale_in E staging d ro pids)" for d pids
    by (induction pids) (auto intro!: keeps_rules keeps_own_parse)
  then have stale: "keeps (\<lambda>w. in_own_ns (hist w)) (remountStaleFuseInContainers E publish staging ro)"
    unfolding remountStaleFuseInContainers_def getMountDevice_def Let_def
    by (intro keeps_rules keeps_own_find keeps_own_parse)
  show ?thesis using keeps_run [OF dev, of w] keeps_run [OF stale, of w] assms(2) by simp
qed

definition remount_env :: env where
  "remount_env = calm_env\<lparr>proc_Dir := \<lambda>h. Inr [''self7'', ''7'', ''8'', ''9''],
     proc_Cgroup := \<lambda>h p. Inr (if p = 9 then ''0::/kubepods/pod-u2'' else ''0::/kubepods/pod-u1''),
     proc_NsLink := \<lambda>h p. Inr (case p of None \<Rightarrow> ''mnt:[1]'' | Some p \<Rightarrow> ''mnt:[2]''),
     os_Stat := \<lambda>h p. Inl ((errorf ''transport endpoint is not connected'')\<lparr>is_stale_errno := True\<rparr>),
     proc_MountInfo := \<lambda>h p. Inr (case p of
       None \<Rightarrow> ''30 1 0:60 / /s rw - fuse.seaweedfs fs rw''
     | Some p \<Rightarrow> ''40 1 0:50 / /a rw - fuse.seaweedfs fs rw'' @ [CHR 0x0A]
         @ ''41 1 0:51 / /b rw - fuse.seaweedfs fs rw'')\<rparr>"

theorem remounts_return_to_own_namespace_witness:
  "in_own_ns (hist (snd (run_state (remountInContainers remount_env ''/pods/u1/volumes/x'' ''/s'' ''0:50''
     False) start_world)))"
proof -
  have "ns_Call remount_env h SetnsOwn = None" for h by (simp add: remount_env_def calm_env_def)
  moreover have "in_own_ns (hist start_world)" by (simp add: in_own_ns_def start_world_def)
  ultimately show ?thesis using remounts_return_to_own_namespace by blast
qed

section \<open>Which containers\<close>

lemma container_pids_spec:
  assumes "\<And>h p. proc_Cgroup E h p = cg p" and "\<And>h p. proc_NsLink E h (Some p) = ns p"
    and "run_state (container_pids E uid self seen names) w = (pids, w')"
  shows "distinct (map ns pids)
    \<and> (\<forall>p \<in> set pids. \<exists>content link. cg p = Inr content \<and> ns p = Inr link
        \<and> (str_contains content uid
           \<or> str_contains content (map (\<lambda>c. if c = CHR ''-'' then CHR ''_'' else c) uid))
        \<and> (self = '''' \<or> link \<noteq> self) \<and> link \<notin> set seen)"
  using assms(3)
proof (induction names arbitrary: seen w pids w')
  case (Cons name names)
  show ?case
  proof (cases "parse_int64 name")
    case None
    then show ?thesis using Cons by simp
  next
    case (Some pid)
    show ?thesis
      using Cons(2)
      by (auto simp: Some assms(1,2) split: sum.splits if_splits prod.splits dest!: Cons(1) dest: sym [of "Inr _"])
        (force+)
  qed
qed simp

text \<open>
  The processes a remount enters: each is in a cgroup that names the pod, no two share a mount
  namespace, so no container is remounted twice, and none is in the driver's own namespace, if
  that could be read.
\<close>

theorem findContainerPIDs_one_per_namespace:
  assumes "\<And>h p. proc_Cgroup E h p = cg p" and "\<And>h p. proc_NsLink E h p = ns p"
    and "run_state (findContainerPIDsForPod E uid) w = (Inr pids, w')"
  shows "distinct (map (\<lambda>p. ns (Some p)) pids)
    \<and> (\<forall>p \<in> set pids. (\<forall>self. ns None = Inr self \<longrightarrow> self \<noteq> '''' \<longrightarrow> ns (Some p) \<noteq> Inr self)
        \<and> (\<exists>content. cg p = Inr content
            \<and> (str_contains content uid
               \<or> str_contains content (map (\<lambda>c. if c = CHR ''-'' then CHR ''_'' else c) uid))))"
  using assms(3)
  by (auto simp: findContainerPIDsForPod_def assms(2) split: sum.splits prod.splits
      dest!: container_pids_spec [OF assms(1), of "\<lambda>p. ns (Some p)", OF assms(2)])
     (force+)?

theorem findContainerPIDs_one_per_namespace_witness:
  "distinct (map (\<lambda>p. proc_NsLink remount_env [] (Some p)) [7])"
proof -
  have "fst (run_state (findContainerPIDsForPod remount_env ''u1'') start_world) = Inr [7]"
    by code_simp
  then have run: "run_state (findContainerPIDsForPod remount_env ''u1'') start_world
      = (Inr [7], snd (run_state (findContainerPIDsForPod remount_env ''u1'') start_world))"
    by (simp add: prod_eq_iff)
  show ?thesis
    by (rule findContainerPIDs_one_per_namespace [THEN conjunct1, OF _ _ run, of "proc_Cgroup remount_env []"])
       (simp_all add: remount_env_def)
qed

text \<open>
  A remount after a retried publish does not only touch mounts of its volume: any stale FUSE mount
  of the pod whose device is not the staging path's is replaced, so in a pod with two dead volumes
  the mount point of the second volume, which no call names, gets the content of the first.
\<close>

theorem stale_remount_crosses_volumes:
  "\<exists>evs. hist (snd (run_state (remountStaleFuseInContainers remount_env ''/pods/u1/volumes/x'' ''/s''
       False) start_world))
     = ENs SetnsOwn None # ENs (MoveMountTo ''/b'') None # ENs (DetachInside ''/b'') None
       # ENs (SetnsContainer 7) None # ENs (OpenContainerNs 7) None # ENs OpenOwnNs None
       # ENs (OpenTree ''/s'') None # ENs UnshareFs None # evs"
proof -
  have uid: "extractPodUID ''/pods/u1/volumes/x'' = ''u1''" by code_simp
  have "fst (run_state (findContainerPIDsForPod remount_env ''u1'') start_world) = Inr [7]"
    by code_simp
  then obtain w1 where pids: "run_state (findContainerPIDsForPod remount_env ''u1'') start_world
      = (Inr [7], w1)"
    by (metis prod.collapse)
  have own: "parseMountInfoReader ''30 1 0:60 / /s rw - fuse.seaweedfs fs rw''
      = ([\<lparr>mie_device = ''0:60'', mie_root = ''/'', mie_mountpoint = ''/s'',
          mie_fstype = ''fuse.seaweedfs'', mie_readOnly = False\<rparr>], None)"
    by code_simp
  have container: "parseMountInfoReader (''40 1 0:50 / /a rw - fuse.seaweedfs fs rw'' @ [CHR 0x0A]
         @ ''41 1 0:51 / /b rw - fuse.seaweedfs fs rw'')
      = ([\<lparr>mie_device = ''0:50'', mie_root = ''/'', mie_mountpoint = ''/a'',
          mie_fstype = ''fuse.seaweedfs'', mie_readOnly = False\<rparr>,
         \<lparr>mie_device = ''0:51'', mie_root = ''/'', mie_mountpoint = ''/b'',
          mie_fstype = ''fuse.seaweedfs'', mie_readOnly = False\<rparr>], None)"
    by code_simp
  have fuse: "isFuseFS ''fuse.seaweedfs''" by code_simp
  have env: "proc_MountInfo remount_env h None = Inr ''30 1 0:60 / /s rw - fuse.seaweedfs fs rw''"
    "proc_MountInfo remount_env h (Some p) = Inr (''40 1 0:50 / /a rw - fuse.seaweedfs fs rw'' @ [CHR 0x0A]
         @ ''41 1 0:51 / /b rw - fuse.seaweedfs fs rw'')"
    "isStaleMount (os_Stat remount_env h q)" "ns_Call remount_env h c = None" for h p q c
    by (simp_all add: remount_env_def isStaleMount_def calm_env_def)
  show ?thesis
    by (simp add: remountStaleFuseInContainers_def uid pids getMountDevice_def parseMountInfo_def
        remount_if_stale_def remountViaSetns_def swap_inside_def ns_do_def subpath_source_def
        Let_def env own container fuse del: append.simps)
qed

end
