(* ===== verification/HealthMonitor.thy ===== *)
theory HealthMonitor
  imports NodeInvariants Remount
begin

text \<open>
  The health monitor (pkg/driver/health_monitor.go): probes of staging and publish mounts, the
  per-volume recovery backoff, and the recovery of a volume whose FUSE mount died. Times are
  nanoseconds; the shift of the backoff is that of 64-bit machine integers. Metrics are recorded
  as events.
\<close>

section \<open>Probes\<close>

definition second :: int where "second = 10 ^ 9"
definition minute :: int where "minute = 60 * second"

definition live :: "env \<Rightarrow> string \<Rightarrow> ('w, bool) io" where
  "live E stagingPath = do {
     r \<leftarrow> runWithTimeout E (''health monitor: liveness check for '' @ stagingPath)
       (isStagingPathLive E stagingPath);
     ret (case r of Inl _ \<Rightarrow> False | Inr alive \<Rightarrow> alive)
   }"

definition checkHealthDetailed :: "env \<Rightarrow> string \<Rightarrow> ('w, bool \<times> bool) io" where
  "checkHealthDetailed E path = do {
     r \<leftarrow> runWithTimeout E (''health monitor: health check for '' @ path)
       (isStagingPathHealthy E path);
     ret (case r of Inl _ \<Rightarrow> (False, True) | Inr healthy \<Rightarrow> (healthy, False))
   }"

definition checkHealth :: "env \<Rightarrow> string \<Rightarrow> ('w, bool) io" where
  "checkHealth E path = do { (healthy, _) \<leftarrow> checkHealthDetailed E path; ret healthy }"

definition probeStaging :: "env \<Rightarrow> string \<Rightarrow> string \<Rightarrow> ('w, bool) io" where
  "probeStaging E volumeID path = do {
     (healthy, timedOut) \<leftarrow> checkHealthDetailed E path;
     if healthy then do {
       emit (EHealthProbe volumeID ''healthy'');
       emit (ESessionUp volumeID True);
       ret True
     }
     else do {
       alive \<leftarrow> live E path;
       if \<not> alive then do {
         emit (EHealthProbe volumeID ''dead'');
         emit (ESessionUp volumeID False);
         ret False
       }
       else do {
         emit (EHealthProbe volumeID (if timedOut then ''timeout'' else ''unhealthy''));
         emit (ESessionUp volumeID True);
         ret False
       }
     }
   }"

definition isDeadMount :: "env \<Rightarrow> string \<Rightarrow> ('w, bool) io" where
  "isDeadMount E path = do {
     p \<leftarrow> probeStatfs E path;
     ret (case p of None \<Rightarrow> False | Some err \<Rightarrow> is_corrupted err)
   }"

fun any_unhealthy :: "env \<Rightarrow> string list \<Rightarrow> ('w, bool) io" where
  "any_unhealthy E [] = ret False"
| "any_unhealthy E (p # ps) = do {
     ok \<leftarrow> checkHealth E p;
     if \<not> ok then ret True else any_unhealthy E ps
   }"

definition hasUnhealthyPublishPath :: "env \<Rightarrow> Volume \<Rightarrow> ('w, bool) io" where
  "hasUnhealthyPublishPath E vol = any_unhealthy E (map fst (vol_publishPaths vol))"

section \<open>The recovery backoff\<close>

definition recoveryBackoffBase :: int where "recoveryBackoffBase = 1 * minute"
definition recoveryBackoffMax :: int where "recoveryBackoffMax = 30 * minute"
definition recoveryBackoffMaxShift :: int where "recoveryBackoffMaxShift = 20"

text \<open>\<open>a << k\<close> on \<open>time.Duration\<close>, a signed 64-bit integer.\<close>

definition shl64 :: "int \<Rightarrow> int \<Rightarrow> int" where
  "shl64 a k = sint (push_bit (nat k) (word_of_int a :: 64 word))"

definition backoff_wait :: "int \<Rightarrow> int" where
  "backoff_wait n =
     (let shift0 = n - 1;
          shift = (if shift0 > recoveryBackoffMaxShift then recoveryBackoffMaxShift else shift0);
          wait0 = shl64 recoveryBackoffBase shift
      in if wait0 > recoveryBackoffMax then recoveryBackoffMax else wait0)"

definition recoveryThrottled :: "env \<Rightarrow> string \<Rightarrow> ('n, bool) nio" where
  "recoveryThrottled E volumeID = do {
     v \<leftarrow> gets (\<lambda>w. map_of (recoveryBackoff w) volumeID);
     (case v of
        None \<Rightarrow> ret False
      | Some st \<Rightarrow> do {
          now \<leftarrow> ext (time_Now E) ENow;
          ret (now < notBefore st)
        })
   }"

definition noteRecoveryAttempt :: "env \<Rightarrow> string \<Rightarrow> ('n, unit) nio" where
  "noteRecoveryAttempt E volumeID = do {
     v \<leftarrow> gets (\<lambda>w. map_of (recoveryBackoff w) volumeID);
     let n = (case v of None \<Rightarrow> 1 | Some st \<Rightarrow> attempts st + 1);
     now \<leftarrow> ext (time_Now E) ENow;
     modify (\<lambda>w. w\<lparr>recoveryBackoff := AList.update volumeID
       \<lparr>attempts = n, notBefore = now + backoff_wait n\<rparr> (recoveryBackoff w)\<rparr>)
   }"

definition resetRecoveryBackoff :: "string \<Rightarrow> ('n, unit) nio" where
  "resetRecoveryBackoff volumeID = delete_backoff volumeID"

section \<open>Publish binds\<close>

definition tearDownStalePublishBind :: "env \<Rightarrow> string \<Rightarrow> ('w, bool) io" where
  "tearDownStalePublishBind E path = do {
     u \<leftarrow> ext (\<lambda>h. mu_Unmount E h path) (EUnmount path);
     (case u of
        None \<Rightarrow> do { resetStatfsProbe path; ret True }
      | Some _ \<Rightarrow> do {
          c \<leftarrow> CleanupMountPoint E path;
          (case c of
             Some _ \<Rightarrow> ret False
           | None \<Rightarrow> do { resetStatfsProbe path; ret True })
        })
   }"

fun rebind_unhealthy :: "env \<Rightarrow> string \<Rightarrow> (string \<times> bool) list \<Rightarrow> ('w, unit) io" where
  "rebind_unhealthy E stagedPath [] = ret ()"
| "rebind_unhealthy E stagedPath ((path, readOnly) # ps) = do {
     ok \<leftarrow> checkHealth E path;
     (if ok then ret ()
      else do {
        gone \<leftarrow> tearDownStalePublishBind E path;
        (if \<not> gone then ret ()
         else do {
           p \<leftarrow> Publish E stagedPath path readOnly;
           (case p of
              Some _ \<Rightarrow> ret ()
            | None \<Rightarrow> remountStaleFuseInContainers E path stagedPath readOnly)
         })
      });
     rebind_unhealthy E stagedPath ps
   }"

definition retryPublishPaths :: "env \<Rightarrow> string \<Rightarrow> ('n, unit) nio" where
  "retryPublishPaths E volumeID = do {
     getVolumeMutex volumeID;
     v \<leftarrow> load_volume volumeID;
     (case v of
        None \<Rightarrow> ret ()
      | Some vol \<Rightarrow> do {
          ok \<leftarrow> checkHealth E (vol_StagedPath vol);
          if \<not> ok then ret ()
          else rebind_unhealthy E (vol_StagedPath vol) (vol_publishPaths vol)
        })
   }"

section \<open>Recovery\<close>

fun device_of_publishes :: "env \<Rightarrow> (string \<times> bool) list \<Rightarrow> ('w, string) io" where
  "device_of_publishes E [] = ret ''''"
| "device_of_publishes E (p # ps) = do {
     d \<leftarrow> getMountDevice E (fst p);
     (case d of
        Inr dev \<Rightarrow> if dev \<noteq> '''' then ret dev else device_of_publishes E ps
      | Inl _ \<Rightarrow> device_of_publishes E ps)
   }"

definition capture_device :: "env \<Rightarrow> string \<Rightarrow> (string \<times> bool) list \<Rightarrow> ('w, string) io" where
  "capture_device E stagingPath publishes = do {
     d \<leftarrow> getMountDevice E stagingPath;
     (case d of
        Inr dev \<Rightarrow> if dev \<noteq> '''' then ret dev else device_of_publishes E publishes
      | Inl _ \<Rightarrow> device_of_publishes E publishes)
   }"

text \<open>Step 1: unmount through the manager. \<open>False\<close> aborts the recovery.\<close>

definition recover_unmount :: "env \<Rightarrow> string \<Rightarrow> Volume \<Rightarrow> ('w, bool) io" where
  "recover_unmount E volumeID vol =
     (case vol_unmounter vol of
        None \<Rightarrow> ret True
      | Some u \<Rightarrow> do {
          r \<leftarrow> unmounter_Unmount E u;
          (case r of
             Some _ \<Rightarrow> do { emit (ERecovery volumeID ''failed''); ret False }
           | None \<Rightarrow> do { resetStatfsProbe (vol_StagedPath vol); ret True })
        })"

text \<open>The guard before the cleanup: a path still mounted is only detached if it is dead.\<close>

definition recover_detach :: "env \<Rightarrow> string \<Rightarrow> string \<Rightarrow> ('w, bool) io" where
  "recover_detach E volumeID stagingPath = do {
     m \<leftarrow> ext (\<lambda>h. mu_IsLikelyNotMountPoint E h stagingPath) (EIsLikelyNotMountPoint stagingPath);
     (case m of
        Inl _ \<Rightarrow> ret True
      | Inr notMnt \<Rightarrow>
          if notMnt then ret True
          else do {
            dead \<leftarrow> isDeadMount E stagingPath;
            if \<not> dead then do { emit (ERecovery volumeID ''failed''); ret False }
            else do {
              l \<leftarrow> ext (\<lambda>h. unix_Detach E h stagingPath) (ELazyUnmount stagingPath);
              (case l of
                 Some _ \<Rightarrow> do { emit (ERecovery volumeID ''failed''); ret False }
               | None \<Rightarrow> do { resetStatfsProbe stagingPath; ret True })
            }
          })
   }"

fun tear_down_all :: "env \<Rightarrow> (string \<times> bool) list \<Rightarrow> ('w, ((string \<times> bool) \<times> bool) list) io" where
  "tear_down_all E [] = ret []"
| "tear_down_all E (p # ps) = do {
     gone \<leftarrow> tearDownStalePublishBind E (fst p);
     rest \<leftarrow> tear_down_all E ps;
     ret ((p, gone) # rest)
   }"

text \<open>The new volume with every path recorded, the paths that failed and those that recovered.\<close>

fun rebind_all ::
  "env \<Rightarrow> string \<Rightarrow> Volume \<Rightarrow> ((string \<times> bool) \<times> bool) list \<Rightarrow>
   ('w, Volume \<times> (string \<times> bool) list \<times> (string \<times> bool) list) io" where
  "rebind_all E stagingPath newVol [] = ret (newVol, [], [])"
| "rebind_all E stagingPath newVol (((path, readOnly), unmounted) # ps) = do {
     let newVol1 = AddPublishPath path readOnly newVol;
     ok \<leftarrow> (if \<not> unmounted then ret False
            else do {
              e \<leftarrow> Publish E stagingPath path readOnly;
              ret (e = None)
            });
     (vol, failed, recovered) \<leftarrow> rebind_all E stagingPath newVol1 ps;
     ret (vol, if ok then failed else (path, readOnly) # failed,
          if ok then (path, readOnly) # recovered else recovered)
   }"

definition recover_publishes ::
  "env \<Rightarrow> string \<Rightarrow> string \<Rightarrow> string \<Rightarrow> (string \<times> bool) list \<Rightarrow> Volume \<Rightarrow> ('n, unit) nio" where
  "recover_publishes E volumeID stagingPath oldDevice publishes newVol = do {
     torn \<leftarrow> tear_down_all E publishes;
     (vol, failed, recovered) \<leftarrow> rebind_all E stagingPath newVol torn;
     store_volume volumeID vol;
     (if oldDevice = '''' then ret ()
      else for_each recovered (\<lambda>p. remountInContainers E (fst p) stagingPath oldDevice (snd p)));
     (if failed \<noteq> [] then emit (ERecovery volumeID ''failed'')
      else do {
        emit (ERecovery volumeID ''success'');
        emit (ESessionUp volumeID True)
      })
   }"

definition recover_staging ::
  "libs \<Rightarrow> (gomap \<Rightarrow> gomap) \<Rightarrow> env \<Rightarrow> SeaweedFsDriver \<Rightarrow> string \<Rightarrow> Volume \<Rightarrow> string \<Rightarrow> ('n, unit) nio" where
  "recover_staging L ord E driver volumeID vol oldDevice =
     (let stagingPath = vol_StagedPath vol
      in do {
        go \<leftarrow> recover_unmount E volumeID vol;
        if \<not> go then ret ()
        else do {
          go2 \<leftarrow> recover_detach E volumeID stagingPath;
          if \<not> go2 then ret ()
          else do {
            c \<leftarrow> cleanupStaleStagingPath E stagingPath;
            (case c of
               Some _ \<Rightarrow> emit (ERecovery volumeID ''failed'')
             | None \<Rightarrow> do {
                 s \<leftarrow> stageNewVolume L ord E driver volumeID stagingPath (vol_volContext vol)
                   (vol_readOnly vol);
                 (case s of
                    Inl _ \<Rightarrow> emit (ERecovery volumeID ''failed'')
                  | Inr newVol \<Rightarrow> recover_publishes E volumeID stagingPath oldDevice
                      (vol_publishPaths vol) newVol)
               })
          }
        }
      })"

definition recoverVolume ::
  "libs \<Rightarrow> (gomap \<Rightarrow> gomap) \<Rightarrow> env \<Rightarrow> SeaweedFsDriver \<Rightarrow> string \<Rightarrow> ('n, unit) nio" where
  "recoverVolume L ord E driver volumeID = do {
     throttled \<leftarrow> recoveryThrottled E volumeID;
     if throttled then emit (ERecovery volumeID ''throttled'')
     else do {
       getVolumeMutex volumeID;
       v \<leftarrow> load_volume volumeID;
       (case v of
          None \<Rightarrow> ret ()
        | Some vol \<Rightarrow> do {
            ok \<leftarrow> checkHealth E (vol_StagedPath vol);
            if ok then resetRecoveryBackoff volumeID
            else if vol_volContext vol = None then ret ()
            else do {
              oldDevice \<leftarrow> capture_device E (vol_StagedPath vol) (vol_publishPaths vol);
              alive \<leftarrow> (if vol_publishPaths vol \<noteq> [] then live E (vol_StagedPath vol) else ret False);
              noteRecoveryAttempt E volumeID;
              if alive then emit (ERecovery volumeID ''skipped_still_live'')
              else recover_staging L ord E driver volumeID vol oldDevice
            }
          })
     }
   }"

section \<open>The sweep\<close>

definition performVolumeHealthCheck ::
  "libs \<Rightarrow> (gomap \<Rightarrow> gomap) \<Rightarrow> env \<Rightarrow> SeaweedFsDriver \<Rightarrow> string \<Rightarrow> ('n, unit) nio" where
  "performVolumeHealthCheck L ord E driver volumeID = do {
     v \<leftarrow> load_volume volumeID;
     (case v of
        None \<Rightarrow> ret ()
      | Some vol \<Rightarrow>
          if vol_StagedPath vol = '''' then ret ()
          else do {
            ok \<leftarrow> probeStaging E volumeID (vol_StagedPath vol);
            if \<not> ok then recoverVolume L ord E driver volumeID
            else do {
              resetRecoveryBackoff volumeID;
              bad \<leftarrow> hasUnhealthyPublishPath E vol;
              if bad then retryPublishPaths E volumeID else ret ()
            }
          })
   }"

text \<open>
  \<open>launchVolumeHealthCheck\<close>: \<open>True\<close> if a goroutine is started; it ends by removing the volume
  from the active set. \<open>checkAndRecoverVolumes\<close> launches one per staged volume.
\<close>

definition launchVolumeHealthCheck :: "string \<Rightarrow> ('n, bool) nio" where
  "launchVolumeHealthCheck volumeID = do {
     busy \<leftarrow> gets (\<lambda>w. volumeID \<in> set (activeRecoveries w));
     if busy then ret False
     else do {
       modify (\<lambda>w. w\<lparr>activeRecoveries := volumeID # activeRecoveries w\<rparr>);
       ret True
     }
   }"

definition finishVolumeHealthCheck :: "string \<Rightarrow> ('n, unit) nio" where
  "finishVolumeHealthCheck volumeID =
     modify (\<lambda>w. w\<lparr>activeRecoveries := removeAll volumeID (activeRecoveries w)\<rparr>)"

definition checkAndRecoverVolumes :: "('n, unit) nio" where
  "checkAndRecoverVolumes = do {
     vs \<leftarrow> gets (\<lambda>w. volumes w);
     for_each vs (\<lambda>(v, vol).
       if vol_StagedPath vol = '''' then ret ()
       else do { launchVolumeHealthCheck v; ret () })
   }"

end
