(* ===== verification/NodeProps.thy ===== *)
theory NodeProps
  imports HealthMonitor
begin

text \<open>
  The properties of the node service and its health monitor: the invariants of the handlers and
  the recovery, obtained by interpreting \<open>node_world\<close>; what each handler returns and leaves; and
  when a recovery may touch a mount.
\<close>

section \<open>The monitor under an invariant\<close>

context probe_world
begin

lemma keeps_monitor_live: "keeps I (live E path)"
  unfolding live_def by (intro keeps_rules keeps_timeout keeps_live)

lemma keeps_checkHealthDetailed: "keeps I (checkHealthDetailed E path)"
  unfolding checkHealthDetailed_def by (intro keeps_rules keeps_timeout keeps_healthy)

lemma keeps_checkHealth: "keeps I (checkHealth E path)"
  unfolding checkHealth_def by (intro keeps_rules keeps_checkHealthDetailed)

lemma keeps_any_unhealthy: "keeps I (any_unhealthy E ps)"
  by (induction ps) (auto intro!: keeps_rules keeps_checkHealth)

lemma keeps_device: "keeps I (getMountDevice E path)"
  unfolding getMountDevice_def parseMountInfo_def
  by (intro keeps_rules keeps_probe) (auto simp: is_probe_def)

lemma keeps_device_of_publishes: "keeps I (device_of_publishes E ps)"
  by (induction ps) (auto intro!: keeps_rules keeps_device)

lemma keeps_capture_device: "keeps I (capture_device E path ps)"
  unfolding capture_device_def
  by (intro keeps_rules keeps_device keeps_device_of_publishes)

end

context note_world
begin

lemma keeps_probeStaging: "keeps I (probeStaging E v path)"
  unfolding probeStaging_def
  by (intro keeps_rules keeps_checkHealthDetailed keeps_monitor_live keeps_note)
     (auto simp: is_metric_def)

end

context os_world
begin

lemma keeps_tearDown: "keeps I (tearDownStalePublishBind E path)"
  unfolding tearDownStalePublishBind_def
  by (intro keeps_rules keeps_os keeps_reset keeps_CleanupMountPoint) (auto simp: is_os_call_def)

lemma keeps_rebind_unhealthy: "keeps I (rebind_unhealthy E staged ps)"
proof (induction ps)
  case (Cons p ps)
  then show ?case
    by (cases p) (auto intro!: keeps_rules keeps_checkHealth keeps_tearDown keeps_Publish
        keeps_remountStale)
qed (simp add: keeps_rules)

lemma keeps_tear_down_all: "keeps I (tear_down_all E ps)"
  by (induction ps) (auto intro!: keeps_rules keeps_tearDown)

lemma keeps_rebind_all: "keeps I (rebind_all E staging vol ps)"
proof (induction ps arbitrary: vol)
  case (Cons p ps)
  obtain path ro gone where p: "p = ((path, ro), gone)" by (metis surj_pair)
  show ?case
    unfolding p rebind_all.simps Let_def by (intro keeps_rules keeps_Publish Cons)
qed (simp add: keeps_rules)

end

context mount_world
begin

lemma keeps_mark: "\<not> is_removal e \<Longrightarrow> keeps I (emit e)"
  by (rule keeps_emit) (rule mount_neutral)

lemma keeps_recover_unmount: "keeps I (recover_unmount E v vol)"
  unfolding recover_unmount_def
  by (intro keeps_rules keeps_unmounter keeps_reset keeps_mark) (auto simp: is_removal_def)

lemma keeps_recover_detach: "keeps I (recover_detach E v path)"
  unfolding recover_detach_def isDeadMount_def
  by (intro keeps_rules keeps_call keeps_reset keeps_mark keeps_statfs) (auto simp: is_removal_def)

end

lemma rebind_all_volume:
  "run_state (rebind_all E staging vol ps) w = ((vol', failed, recovered), w') \<Longrightarrow>
   vol' = fold (\<lambda>((path, ro), gone). AddPublishPath path ro) ps vol"
proof (induction ps arbitrary: vol vol' failed recovered w w')
  case (Cons p ps)
  obtain path ro gone where p: "p = ((path, ro), gone)" by (metis surj_pair)
  show ?case
    using Cons(2) by (auto simp: p Let_def split: prod.splits if_splits dest!: Cons(1))
qed simp

lemma tear_down_all_paths:
  "run_state (tear_down_all E ps) w = (r, w') \<Longrightarrow> map fst r = ps"
  by (induction ps arbitrary: w r w') (auto split: prod.splits)

context node_world
begin

lemma good_rebind: "good v vol \<Longrightarrow> good v (fold (\<lambda>((path, ro), gone). AddPublishPath path ro) ps vol)"
  by (induction ps arbitrary: vol) (auto intro: good_publish)

lemma ensures_rebind_all:
  assumes "good v vol"
  shows "ensures I (rebind_all E staging vol ps) (\<lambda>x. good v (fst x))"
  by (rule ensures_result [OF keeps_rebind_all])
     (metis good_rebind [OF assms] prod.collapse rebind_all_volume)

lemma keeps_recover_publishes:
  assumes "good v vol"
  shows "keeps I (recover_publishes E v staging dev ps vol)"
  unfolding recover_publishes_def
proof (rule keeps_bind [OF keeps_tear_down_all], rule keeps_bind_ensures [OF ensures_rebind_all [OF assms]])
  fix torn and x :: "Volume \<times> (string \<times> bool) list \<times> (string \<times> bool) list"
  assume "good v (fst x)"
  then show "keeps I (case x of (vol, failed, recovered) \<Rightarrow> do {
      store_volume v vol;
      (if dev = '''' then ret ()
       else for_each recovered (\<lambda>p. remountInContainers E (fst p) staging dev (snd p)));
      (if failed \<noteq> [] then emit (ERecovery v ''failed'')
       else do { emit (ERecovery v ''success''); emit (ESessionUp v True) })
    })"
    by (cases x)
       (auto intro!: keeps_rules keeps_store keeps_mark keeps_remountInContainers simp: is_removal_def)
qed

lemma keeps_recover_staging: "keeps I (recover_staging L ord E driver v vol dev)"
  unfolding recover_staging_def Let_def
  by (intro keeps_case_option keeps_if keeps_return keeps_bind keeps_recover_unmount
      keeps_recover_detach keeps_stale keeps_mark keeps_bind_ensures [OF ensures_stage]
      keeps_case_sum keeps_recover_publishes) (auto simp: is_removal_def)

lemma keeps_note_attempt: "keeps I (noteRecoveryAttempt E v)"
proof -
  have "keeps I (modify (\<lambda>w. w\<lparr>recoveryBackoff := f w\<rparr>))" for f
    by (simp add: keeps_def I_backoff)
  then show ?thesis
    unfolding noteRecoveryAttempt_def Let_def
    by (intro keeps_rules keeps_probe) (simp add: is_probe_def)
qed

lemma keeps_throttled: "keeps I (recoveryThrottled E v)"
  unfolding recoveryThrottled_def by (intro keeps_rules keeps_probe) (simp add: is_probe_def)

lemma keeps_load: "keeps I (load_volume v)"
  unfolding load_volume_def by (rule keeps_gets)

lemma keeps_recoverVolume: "keeps I (recoverVolume L ord E driver v)"
  unfolding recoverVolume_def resetRecoveryBackoff_def
  by (intro keeps_case_option keeps_if keeps_return keeps_bind keeps_throttled keeps_mutex keeps_load
      keeps_checkHealth keeps_backoff keeps_capture_device keeps_monitor_live keeps_note_attempt
      keeps_mark keeps_recover_staging) (auto simp: is_removal_def)

lemma keeps_retryPublishPaths: "keeps I (retryPublishPaths E v)"
  unfolding retryPublishPaths_def
  by (intro keeps_rules keeps_mutex keeps_load keeps_checkHealth keeps_rebind_unhealthy)

lemma keeps_performVolumeHealthCheck: "keeps I (performVolumeHealthCheck L ord E driver v)"
  unfolding performVolumeHealthCheck_def hasUnhealthyPublishPath_def resetRecoveryBackoff_def
  by (intro keeps_rules keeps_load keeps_probeStaging keeps_recoverVolume keeps_backoff
      keeps_any_unhealthy keeps_retryPublishPaths)

end

section \<open>The two invariants\<close>

definition vol_ok :: "string \<Rightarrow> Volume \<Rightarrow> bool" where
  "vol_ok v vol \<longleftrightarrow> vol_VolumeId vol = v \<and> (vol_unmounter vol = None \<or> vol_unmounter vol = Some v)
     \<and> distinct (map fst (vol_publishPaths vol))"

definition node_inv :: "'n node_scheme \<Rightarrow> bool" where
  "node_inv w \<longleftrightarrow> distinct (map fst (volumes w)) \<and> (\<forall>(v, vol) \<in> set (volumes w). vol_ok v vol)"

interpretation node_safe: node_world "safe_in L driver" "\<lambda>e. \<not> is_removal e" L driver "\<lambda>v vol. True"
  for L driver
proof unfold_locales
  show "keeps (safe_in L driver) (cleanupStaleStagingPath E path)" for E path
    by (rule cleanupStale_removal_safe)
  show "keeps (safe_in L driver) (CleanupVolumeResources L E driver v)" for E v
    by (rule keeps_CleanupVolumeResources)
qed (auto simp: removal_safe_step probe_not_removal os_call_not_removal svc_not_removal)

lemma set_update_pair: "x \<in> set (AList.update k v xs) \<Longrightarrow> x = (k, v) \<or> x \<in> set xs"
  by (induction xs) (auto split: if_splits)

lemma keeps_frame:
  assumes "\<And>w h. J (w\<lparr>hist := h\<rparr>) = J w" and "\<And>w ps. J (w\<lparr>probes := ps\<rparr>) = J w"
  shows "keeps J (cleanupStaleStagingPath E path)" and "keeps J (CleanupVolumeResources L E driver v)"
proof -
  have ext: "keeps J (ext ask ev)" for ask :: "event list \<Rightarrow> 'x" and ev by (simp add: keeps_def assms)
  have reset: "keeps J (resetStatfsProbe p)" for p
    by (simp add: keeps_def resetStatfsProbe_def assms)
  show "keeps J (CleanupVolumeResources L E driver v)"
    by (simp add: keeps_def CleanupVolumeResources_def Let_def assms)
  show "keeps J (cleanupStaleStagingPath E path)"
    by (rule keepsI)
       (auto simp: cleanupStaleStagingPath_def cleanupCorruptedStagingPath_def resetStatfsProbe_def
         assms split: option.splits if_splits prod.splits)
qed

interpretation node_wf: node_world node_inv "\<lambda>e. True" L driver vol_ok for L driver
proof unfold_locales
  show "keeps node_inv (cleanupStaleStagingPath E path)" for E path
    by (rule keeps_frame) (simp_all add: node_inv_def)
  show "keeps node_inv (CleanupVolumeResources L E driver v)" for E v
    by (rule keeps_frame) (simp_all add: node_inv_def)
qed (auto simp: node_inv_def vol_ok_def staged_volume_def rebuildVolumeFromStaging_def
    AddPublishPath_def RemovePublishPath_def distinct_update AList.delete_eq distinct_map_filter
    dest!: set_update_pair map_of_SomeD)

end
