(* ===== verification/RecoveryProps.thy ===== *)
theory RecoveryProps
  imports NodeProps
begin

text \<open>
  Properties of the node plugin as a whole: the removal-safety and well-formedness invariants of
  every handler and of the recovery, and what the recovery may do to a live mount, within its
  backoff window, and to the publish paths of a volume.
\<close>

section \<open>A concrete node\<close>

definition demo_volume :: Volume where
  "demo_volume = \<lparr>vol_VolumeId = ''/buckets/v'', vol_StagedPath = ''/s'', vol_mounter = None,
     vol_unmounter = Some ''/buckets/v'', vol_localSocket = ''/run/m.sock'',
     vol_publishPaths = [(''/p'', False)], vol_volContext = Some [], vol_readOnly = False\<rparr>"

definition demo_node :: node where
  "demo_node = \<lparr>hist = [], probes = [], volumes = [(''/buckets/v'', demo_volume)],
     volumeMutexes = newKeyMutex, recoveryBackoff = [], activeRecoveries = []\<rparr>"

lemma demo_node_inv: "node_inv demo_node"
  by (simp add: node_inv_def vol_ok_def demo_node_def demo_volume_def)

section \<open>Invariants of the node\<close>

text \<open>
  C1: No handler and no recovery of the node plugin ever deletes through a live mount: for every
  environment, every recursive removal any of them performs hits either a path for which the most
  recent relevant call was a mount-point check that said no or a successful lazy unmount, with
  nothing mounted there since, or a path strictly inside the driver's cache directory.
\<close>

theorem node_never_removes_through_live_mount:
  assumes "safe_in L driver w"
  shows "safe_in L driver (snd (run_state (NodeStageVolume L ord E driver sreq) w))
    \<and> safe_in L driver (snd (run_state (NodePublishVolume L ord E driver preq) w))
    \<and> safe_in L driver (snd (run_state (NodeUnpublishVolume E v path) w))
    \<and> safe_in L driver (snd (run_state (NodeUnstageVolume L E driver v path) w))
    \<and> safe_in L driver (snd (run_state (NodeExpandVolume E v path bytes) w))
    \<and> safe_in L driver (snd (run_state (recoverVolume L ord E driver v) w))
    \<and> safe_in L driver (snd (run_state (retryPublishPaths E v) w))
    \<and> safe_in L driver (snd (run_state (performVolumeHealthCheck L ord E driver v) w))"
  by (intro conjI keeps_run [where I = "safe_in L driver", OF _ assms])
     (rule node_safe.keeps_NodeStageVolume node_safe.keeps_NodePublishVolume
       node_safe.keeps_NodeUnpublishVolume node_safe.keeps_NodeUnstageVolume
       node_safe.keeps_NodeExpandVolume node_safe.keeps_recoverVolume
       node_safe.keeps_retryPublishPaths node_safe.keeps_performVolumeHealthCheck)+

theorem node_never_removes_through_live_mount_witness:
  "safe_in demo_libs demo_driver (snd (run_state (recoverVolume demo_libs id unmounted_env demo_driver
     ''/buckets/v'') demo_node))"
proof -
  have "safe_in demo_libs demo_driver demo_node" by (simp add: demo_node_def)
  from node_never_removes_through_live_mount [OF this] show ?thesis by blast
qed

text \<open>
  C19: The volume map stays well formed under every handler and recovery: one entry per volume
  ID, each a volume of that ID, whose unmounter, if it has one, is for that ID, and whose publish
  paths are recorded once each.
\<close>

theorem node_operations_keep_volume_map:
  assumes "node_inv w"
  shows "node_inv (snd (run_state (NodeStageVolume L ord E driver sreq) w))
    \<and> node_inv (snd (run_state (NodePublishVolume L ord E driver preq) w))
    \<and> node_inv (snd (run_state (NodeUnpublishVolume E v path) w))
    \<and> node_inv (snd (run_state (NodeUnstageVolume L E driver v path) w))
    \<and> node_inv (snd (run_state (NodeExpandVolume E v path bytes) w))
    \<and> node_inv (snd (run_state (performVolumeHealthCheck L ord E driver v) w))"
  by (intro conjI keeps_run [where I = node_inv, OF _ assms])
     (rule node_wf.keeps_NodeStageVolume node_wf.keeps_NodePublishVolume
       node_wf.keeps_NodeUnpublishVolume node_wf.keeps_NodeUnstageVolume
       node_wf.keeps_NodeExpandVolume node_wf.keeps_performVolumeHealthCheck)+

theorem node_operations_keep_volume_map_witness:
  "node_inv (snd (run_state (performVolumeHealthCheck demo_libs id unmounted_env demo_driver
     ''/buckets/v'') demo_node))"
  using node_operations_keep_volume_map [OF demo_node_inv] by blast

section \<open>A live mount is left alone\<close>

text \<open>Probes and metrics are all that happened.\<close>

definition is_quiet :: "event \<Rightarrow> bool" where
  "is_quiet e \<longleftrightarrow> is_probe e \<or> is_metric e"

definition only_probes_since :: "event list \<Rightarrow> event list \<Rightarrow> bool" where
  "only_probes_since h0 h \<longleftrightarrow> (\<exists>evs. h = evs @ h0 \<and> list_all is_quiet evs)"

definition untouched :: "'n node_scheme \<Rightarrow> 'n node_scheme \<Rightarrow> bool" where
  "untouched w0 w \<longleftrightarrow> only_probes_since (hist w0) (hist w) \<and> volumes w = volumes w0"

interpretation quiet: note_world "untouched w0" is_quiet for w0
proof unfold_locales
  fix w :: "'a node_scheme" and e assume "untouched w0 w" "is_quiet e"
  then show "untouched w0 (w\<lparr>hist := e # hist w\<rparr>)"
    unfolding untouched_def only_probes_since_def by (auto intro: exI [of _ "e # _"])
qed (simp_all add: untouched_def is_quiet_def)

lemma untouched_refl: "untouched w w"
  by (simp add: untouched_def only_probes_since_def)

lemma keeps_untouched_state:
  "keeps (untouched w0) (getVolumeMutex v)" "keeps (untouched w0) (delete_backoff v)"
  "keeps (untouched w0) (modify (\<lambda>w. w\<lparr>recoveryBackoff := f w\<rparr>))"
  by (simp_all add: keeps_def getVolumeMutex_def delete_backoff_def untouched_def)

lemma keeps_untouched_note: "keeps (untouched w0) (noteRecoveryAttempt E v)"
  unfolding noteRecoveryAttempt_def Let_def
  by (intro keeps_rules quiet.keeps_probe keeps_untouched_state) (simp add: is_probe_def)

definition mount_stays_live :: "env \<Rightarrow> string \<Rightarrow> bool" where
  "mount_stays_live E path \<longleftrightarrow> (\<forall>h. \<not> isl (os_Stat E h path)) \<and> (\<forall>h. mu_IsMountPoint E h path = (True, None))
     \<and> (\<forall>h. call_fate E h (''health monitor: liveness check for '' @ path) = Completes)"

lemma live_mount_is_live:
  assumes "mount_stays_live E path"
  shows "fst (run_state (live E path) w)"
proof -
  have "\<exists>d. os_Stat E h path = Inr d" for h
    using assms by (cases "os_Stat E h path") (auto simp: mount_stays_live_def dest: spec [of _ h])
  then obtain d where stat: "os_Stat E h path = Inr (d h)" for h by metis
  show ?thesis
    using assms
    by (simp add: mount_stays_live_def live_def runWithTimeout_def isStagingPathLive_def stat)
qed

lemma recovery_spares:
  assumes "map_of (volumes w) v = Some vol" and "vol_publishPaths vol \<noteq> []"
    and "mount_stays_live E (vol_StagedPath vol)"
  shows "untouched w (snd (run_state (recoverVolume L ord E driver v) w))"
proof -
  let ?I = "untouched w"
  have load: "ensures ?I (load_volume v) (\<lambda>x. x = Some vol)"
    using assms(1) by (auto simp: ensures_def load_volume_def keeps_gets untouched_def)
  have alive: "ensures ?I (live E (vol_StagedPath vol)) (\<lambda>x. x)"
    unfolding ensures_def
    by (intro conjI allI impI quiet.keeps_monitor_live live_mount_is_live [OF assms(3)])
  have mark: "keeps ?I (emit (ERecovery v s))" for s
    by (rule quiet.keeps_note) (simp add: is_metric_def)
  have now: "keeps ?I (ext (time_Now E) ENow)"
    by (rule quiet.keeps_probe) (simp add: is_probe_def)
  have rest: "keeps ?I (do { a \<leftarrow> live E (vol_StagedPath vol); noteRecoveryAttempt E v;
      if a then emit (ERecovery v ''skipped_still_live'')
      else recover_staging L ord E driver v vol d })" for d
    by (rule keeps_bind_ensures [OF alive]) (auto intro!: keeps_bind keeps_untouched_note mark)
  have "keeps ?I (recoverVolume L ord E driver v)"
    unfolding recoverVolume_def resetRecoveryBackoff_def recoveryThrottled_def
    by (rule keeps_bind)
       (auto intro!: keeps_case_option keeps_bind [OF keeps_gets] keeps_bind [OF now] keeps_return mark
          keeps_untouched_state keeps_bind [OF keeps_untouched_state(1)]
          keeps_bind_ensures [OF load] keeps_bind [OF quiet.keeps_checkHealth]
          keeps_bind [OF quiet.keeps_capture_device] rest simp: assms(2))
  then show ?thesis using untouched_refl by (rule keeps_run)
qed

text \<open>
  C4: The recovery never tears down a working FUSE session that pods use: if the volume has
  publish paths and its staging path is a live mount (it can be stat-ed, is a mount point, and the
  liveness check is not starved), then \<open>recoverVolume\<close>, however slow or unhealthy the health
  probe says the mount is, performs nothing but probes and metrics and leaves the volume map as
  it is.
\<close>

theorem recovery_spares_live_published_mount:
  assumes "map_of (volumes w) v = Some vol" and "vol_publishPaths vol \<noteq> []"
    and "mount_stays_live E (vol_StagedPath vol)"
  shows "untouched w (snd (run_state (recoverVolume L ord E driver v) w))"
  using assms by (rule recovery_spares)

lemma calm_stays_live: "mount_stays_live calm_env path"
  by (simp add: mount_stays_live_def calm_env_def)

theorem recovery_spares_live_published_mount_witness:
  "untouched demo_node (snd (run_state (recoverVolume demo_libs id calm_env demo_driver
     ''/buckets/v'') demo_node))"
  by (rule recovery_spares_live_published_mount [of _ _ demo_volume])
     (simp_all add: demo_node_def demo_volume_def calm_stays_live)

section \<open>The backoff window\<close>

text \<open>
  Inside its backoff window a volume is not touched: \<open>recoverVolume\<close> reads the clock, counts
  the call as throttled and does nothing else, whatever state the mount is in.
\<close>

theorem throttled_recovery_does_nothing:
  assumes "map_of (recoveryBackoff w) v = Some st" and "time_Now E (hist w) < notBefore st"
  shows "run_state (recoverVolume L ord E driver v) w
    = ((), w\<lparr>hist := ERecovery v ''throttled'' # ENow (time_Now E (hist w)) # hist w\<rparr>)"
  using assms by (simp add: recoverVolume_def recoveryThrottled_def)

theorem throttled_recovery_does_nothing_witness:
  "hist (snd (run_state (recoverVolume demo_libs id unmounted_env demo_driver ''v'')
     (demo_node\<lparr>recoveryBackoff := [(''v'', \<lparr>attempts = 1, notBefore = 5\<rparr>)]\<rparr>)))
   = [ERecovery ''v'' ''throttled'', ENow 0]"
  by (subst throttled_recovery_does_nothing [of _ _ "\<lparr>attempts = 1, notBefore = 5\<rparr>"])
     (simp_all add: demo_node_def unmounted_env_def calm_env_def)

lemma shl64_exact:
  assumes "0 \<le> a" and "a * 2 ^ k < 2 ^ 63"
  shows "shl64 a (int k) = a * 2 ^ k"
proof -
  have "push_bit k (word_of_int a :: 64 word) = word_of_int (a * 2 ^ k)"
    by (simp add: push_bit_eq_mult)
  moreover have "sint (word_of_int (a * 2 ^ k) :: 64 word) = a * 2 ^ k"
    unfolding sint_sbintrunc'
  proof (rule signed_take_bit_int_eq_self)
    have "0 \<le> a * 2 ^ k" using assms(1) by simp
    then show "- (2 ^ (LENGTH(64) - 1)) \<le> a * 2 ^ k" by simp
  qed (use assms(2) in simp)
  ultimately show ?thesis by (simp add: shl64_def)
qed

lemma backoff_wait_nat: "backoff_wait (int k + 1) = min (minute * 2 ^ k) (30 * minute)"
proof -
  let ?s = "if k > 20 then 20 else k"
  have "?s \<le> 20" by simp
  then have "(2::int) ^ ?s \<le> 2 ^ 20" by (intro power_increasing) simp_all
  then have fits: "minute * 2 ^ ?s < 2 ^ 63" by (simp add: minute_def second_def)
  have shift: "(if int k + 1 - 1 > recoveryBackoffMaxShift then recoveryBackoffMaxShift
      else int k + 1 - 1) = int ?s"
    by (simp add: recoveryBackoffMaxShift_def)
  have "backoff_wait (int k + 1) = min (minute * 2 ^ ?s) (30 * minute)"
    unfolding backoff_wait_def Let_def shift
    using shl64_exact [OF _ fits]
    by (simp add: recoveryBackoffBase_def recoveryBackoffMax_def minute_def second_def min_def)
  moreover have "min (minute * 2 ^ ?s) (30 * minute) = min (minute * 2 ^ k) (30 * minute)"
  proof (cases "k > 20")
    case True
    then have "(2::int) ^ 20 \<le> 2 ^ k" by (intro power_increasing) simp_all
    then show ?thesis using True by (simp add: minute_def second_def min_def)
  qed simp
  ultimately show ?thesis by simp
qed

text \<open>
  C29: The wait of the \<open>k+1\<close>-st recovery attempt in a row is exactly one minute doubled \<open>k\<close>
  times and capped at thirty minutes; the 64-bit shift that computes it never overflows, however
  many attempts there have been, and the volume stays throttled up to the moment recorded.
\<close>

theorem recovery_backoff_window:
  assumes "map_of (recoveryBackoff w) v = (if k = 0 then None else Some \<lparr>attempts = int k, notBefore = nb\<rparr>)"
    and "w' = snd (run_state (noteRecoveryAttempt E v) w)"
    and "until = time_Now E (hist w) + min (minute * 2 ^ k) (30 * minute)"
  shows "map_of (recoveryBackoff w') v = Some \<lparr>attempts = int k + 1, notBefore = until\<rparr>
    \<and> fst (run_state (recoveryThrottled E' v) w') = (time_Now E' (hist w') < until)"
  using assms backoff_wait_nat [of k]
  by (cases "k = 0") (simp_all add: noteRecoveryAttempt_def recoveryThrottled_def Let_def update_conv' add.commute)

theorem recovery_backoff_window_witness:
  "map_of (recoveryBackoff (snd (run_state (noteRecoveryAttempt calm_env ''v'') demo_node))) ''v''
   = Some \<lparr>attempts = 1, notBefore = minute\<rparr>"
  using recovery_backoff_window [of demo_node "''v''" 0 0 _ calm_env, OF _ refl refl]
  by (simp add: demo_node_def calm_env_def minute_def second_def)

end
