(* ===== verification/HandlerProps.thy ===== *)
theory HandlerProps
  imports RecoveryProps
begin

text \<open>
  What each handler of the node service and the recovery leave in the volume map, on every
  branch: success records the volume, an error leaves the map as it was, and a recovery carries
  the staging path and the publish paths of the volume over to the new one.
\<close>

section \<open>What the helpers leave alone\<close>

text \<open>The node's own state, without the world it runs in.\<close>

definition tables ::
  "'n node_scheme \<Rightarrow> (string \<times> Volume) list \<times> lock_table \<times> (string \<times> recoveryBackoffState) list \<times> string list"
  where "tables w = (volumes w, volumeMutexes w, recoveryBackoff w, activeRecoveries w)"

lemma tables_world [simp]: "tables (w\<lparr>hist := h\<rparr>) = tables w" "tables (w\<lparr>probes := ps\<rparr>) = tables w"
  by (simp_all add: tables_def)

interpretation same: handler_world "\<lambda>w. tables w = V" "\<lambda>e. True" L driver for V L driver
proof unfold_locales
  show "keeps (\<lambda>w. tables w = V) (cleanupStaleStagingPath E path)" for E path
    by (rule keeps_frame) simp_all
  show "keeps (\<lambda>w. tables w = V) (CleanupVolumeResources L E driver v)" for E v
    by (rule keeps_frame) simp_all
qed simp_all

lemma same_tables:
  assumes "\<And>V. keeps (\<lambda>w. tables w = V) m" and "run_state m w = (r, w')"
  shows "volumes w' = volumes w \<and> volumeMutexes w' = volumeMutexes w
    \<and> recoveryBackoff w' = recoveryBackoff w \<and> activeRecoveries w' = activeRecoveries w"
  using keepsD [OF assms(1) refl assms(2)] by (simp add: tables_def)

lemma staged_frame [dest!]:
  assumes "run_state (stageNewVolume L ord E driver v path ctx ro) w = (r, w')"
  shows "volumes w' = volumes w \<and> (\<forall>vol. r = Inr vol \<longrightarrow> staged_volume v path ro vol)"
  using stageNewVolume_result assms same_tables [OF same.keeps_stageNewVolume assms] by metis

lemmas frame_tables [dest!] =
  same.keeps_stage_cleanup [THEN same_tables]
  same.keeps_stale [THEN same_tables] same.keeps_healthy [THEN same_tables]
  same.keeps_Publish [THEN same_tables] same.keeps_Unpublish [THEN same_tables]
  same.keeps_Unstage [THEN same_tables] same.keeps_CleanupMountPoint [THEN same_tables]
  same.keeps_resources [THEN same_tables]

lemmas node_steps = load_volume_def store_volume_def delete_volume_def getVolumeMutex_def
  removeVolumeMutex_def delete_backoff_def resetStatfsProbe_def

section \<open>Staging\<close>

lemma stage_effect:
  assumes "run_state (NodeStageVolume L ord E driver req) w = (r, w')"
  shows "if r \<noteq> None then volumes w' = volumes w
    else (case map_of (volumes w) (st_VolumeId req) of
       Some _ \<Rightarrow> hist w' = hist w \<and> volumes w' = volumes w
     | None \<Rightarrow> \<exists>vol cap. volumes w' = AList.update (st_VolumeId req) vol (volumes w)
         \<and> vol_VolumeId vol = st_VolumeId req \<and> vol_StagedPath vol = st_StagingTargetPath req
         \<and> vol_publishPaths vol = []
         \<and> st_VolumeCapability req = Some cap \<and> vol_readOnly vol = isVolumeReadOnly cap)"
  using assms
  by (auto simp: NodeStageVolume_def Let_def node_steps rebuildVolumeFromStaging_def staged_volume_def
      split: option.splits if_splits prod.splits sum.splits)

text \<open>
  \<open>NodeStageVolume\<close>, on every branch: after an error the volume map is exactly as before;
  after success the volume is in the map, all other volumes are untouched, and it is either the
  volume that was there, which is then not touched in any way, or one staged at the requested path
  with the requested access mode and no publish paths.
\<close>

theorem NodeStageVolume_outcome:
  assumes "run_state (NodeStageVolume L ord E driver req) w = (r, w')"
  shows "if r \<noteq> None then volumes w' = volumes w
    else (case map_of (volumes w) (st_VolumeId req) of
       Some _ \<Rightarrow> hist w' = hist w \<and> volumes w' = volumes w
     | None \<Rightarrow> \<exists>vol cap. volumes w' = AList.update (st_VolumeId req) vol (volumes w)
         \<and> vol_VolumeId vol = st_VolumeId req \<and> vol_StagedPath vol = st_StagingTargetPath req
         \<and> vol_publishPaths vol = []
         \<and> st_VolumeCapability req = Some cap \<and> vol_readOnly vol = isVolumeReadOnly cap)"
  using assms by (rule stage_effect)

theorem NodeStageVolume_outcome_witness:
  "volumes (snd (run_state (NodeStageVolume demo_libs id calm_env demo_driver
     \<lparr>st_VolumeId = ''/buckets/v'', st_StagingTargetPath = ''/s'', st_VolumeCapability = None,
      st_VolumeContext = None\<rparr>) demo_node)) = volumes demo_node"
  using NodeStageVolume_outcome [OF prod.collapse [symmetric], of demo_libs id calm_env demo_driver
    "\<lparr>st_VolumeId = ''/buckets/v'', st_StagingTargetPath = ''/s'', st_VolumeCapability = None,
      st_VolumeContext = None\<rparr>" demo_node]
  by (simp add: NodeStageVolume_def)

section \<open>Publishing\<close>

lemma publish_volume_outcome:
  assumes "run_state (publish_volume L ord E driver req cap) w = (r, w')"
  shows "(r = Inl e \<longrightarrow> volumes w' = volumes w)
    \<and> (r = Inr vol \<longrightarrow> map_of (volumes w') (pb_VolumeId req) = Some vol
        \<and> (\<forall>u. u \<noteq> pb_VolumeId req \<longrightarrow> map_of (volumes w') u = map_of (volumes w) u)
        \<and> (map_of (volumes w) (pb_VolumeId req) = None \<longrightarrow>
            vol_StagedPath vol = pb_StagingTargetPath req \<and> vol_publishPaths vol = []
            \<and> vol_readOnly vol = isPublishVolumeReadOnly (pb_Readonly req) cap)
        \<and> (map_of (volumes w) (pb_VolumeId req) \<noteq> None \<longrightarrow> volumes w' = volumes w))"
  using assms
  by (auto simp: publish_volume_def Let_def node_steps rebuildVolumeFromStaging_def staged_volume_def
      update_conv' split: option.splits if_splits prod.splits sum.splits)

lemma publish_effect:
  assumes "run_state (NodePublishVolume L ord E driver req) w = (r, w')"
  shows "(\<forall>u. u \<noteq> pb_VolumeId req \<longrightarrow> map_of (volumes w') u = map_of (volumes w) u)
    \<and> (if r = None then
         \<exists>vol. map_of (volumes w') (pb_VolumeId req) = Some vol
           \<and> map_of (vol_publishPaths vol)
             = (case map_of (volumes w) (pb_VolumeId req) of
                  None \<Rightarrow> Map.empty | Some old \<Rightarrow> map_of (vol_publishPaths old))
               (pb_TargetPath req \<mapsto> pb_Readonly req)
       else map_of (volumes w) (pb_VolumeId req) \<noteq> None \<longrightarrow> volumes w' = volumes w)"
  using assms
  by (auto simp: NodePublishVolume_def Let_def node_steps AddPublishPath_def update_conv'
      split: option.splits if_splits prod.splits sum.splits dest!: publish_volume_outcome)

text \<open>
  \<open>NodePublishVolume\<close>: on success the volume is in the map and has the target recorded as a
  publish path with the requested access mode, which is what the recovery re-binds; its other
  publish paths and all other volumes are untouched. On an error no target is recorded: a volume
  that was there is as before.
\<close>

theorem NodePublishVolume_outcome:
  assumes "run_state (NodePublishVolume L ord E driver req) w = (r, w')"
  shows "(\<forall>u. u \<noteq> pb_VolumeId req \<longrightarrow> map_of (volumes w') u = map_of (volumes w) u)
    \<and> (if r = None then
         \<exists>vol. map_of (volumes w') (pb_VolumeId req) = Some vol
           \<and> map_of (vol_publishPaths vol)
             = (case map_of (volumes w) (pb_VolumeId req) of
                  None \<Rightarrow> Map.empty | Some old \<Rightarrow> map_of (vol_publishPaths old))
               (pb_TargetPath req \<mapsto> pb_Readonly req)
       else map_of (volumes w) (pb_VolumeId req) \<noteq> None \<longrightarrow> volumes w' = volumes w)"
  using assms by (rule publish_effect)

theorem NodePublishVolume_outcome_witness:
  "\<exists>vol. map_of (volumes (snd (run_state (NodePublishVolume demo_libs id unmounted_env demo_driver
     \<lparr>pb_VolumeId = ''/buckets/v'', pb_TargetPath = ''/q'', pb_StagingTargetPath = ''/s'',
      pb_VolumeCapability = Some None, pb_VolumeContext = None, pb_Readonly = True\<rparr>)
     demo_node))) ''/buckets/v'' = Some vol
   \<and> map_of (vol_publishPaths vol) ''/p'' = Some False \<and> map_of (vol_publishPaths vol) ''/q'' = Some True"
proof -
  let ?req = "\<lparr>pb_VolumeId = ''/buckets/v'', pb_TargetPath = ''/q'', pb_StagingTargetPath = ''/s'',
      pb_VolumeCapability = Some None, pb_VolumeContext = None, pb_Readonly = True\<rparr>"
  have "fst (run_state (NodePublishVolume demo_libs id unmounted_env demo_driver ?req) demo_node) = None"
    by (simp add: NodePublishVolume_def publish_volume_def Let_def node_steps demo_node_def
        Publish_def checkMount_def defaultBindMount_def unmounted_env_def calm_env_def
        demo_volume_def)
  with NodePublishVolume_outcome [where L = demo_libs and ord = id and E = unmounted_env
      and driver = demo_driver and req = ?req and w = demo_node, OF prod.collapse [symmetric]]
  show ?thesis by (auto simp: demo_node_def demo_volume_def)
qed

section \<open>Unpublishing and unstaging\<close>

lemma unpublish_effect:
  assumes "run_state (NodeUnpublishVolume E v path) w = (r, w')" and "v \<noteq> ''''" and "path \<noteq> ''''"
  shows "(case map_of (volumes w) v of
      None \<Rightarrow> r = None \<and> volumes w' = volumes w
    | Some vol \<Rightarrow>
        if r = None then
          volumes w' = AList.update v (RemovePublishPath path vol) (volumes w)
          \<and> hist w' = ECleanupMountPoint path None # hist w \<and> path \<notin> set (probes w')
          \<and> \<not> HasPublishPath path (RemovePublishPath path vol)
        else volumes w' = volumes w \<and> (\<exists>e. hist w' = ECleanupMountPoint path (Some e) # hist w))"
  using assms
  by (auto simp: NodeUnpublishVolume_def node_steps Unpublish_def CleanupMountPoint_def
      HasPublishPath_def RemovePublishPath_def delete_conv'
      split: option.splits if_splits prod.splits)

text \<open>
  \<open>NodeUnpublishVolume\<close> removes exactly the target from the publish paths of the volume, so
  that no recovery binds it again, and only after the mount point was cleaned up; when the
  cleanup fails the volume is left as it was and the error is returned.
\<close>

theorem NodeUnpublishVolume_outcome:
  assumes "run_state (NodeUnpublishVolume E v path) w = (r, w')" and "v \<noteq> ''''" and "path \<noteq> ''''"
  shows "(case map_of (volumes w) v of
      None \<Rightarrow> r = None \<and> volumes w' = volumes w
    | Some vol \<Rightarrow>
        if r = None then
          volumes w' = AList.update v (RemovePublishPath path vol) (volumes w)
          \<and> hist w' = ECleanupMountPoint path None # hist w \<and> path \<notin> set (probes w')
          \<and> \<not> HasPublishPath path (RemovePublishPath path vol)
        else volumes w' = volumes w \<and> (\<exists>e. hist w' = ECleanupMountPoint path (Some e) # hist w))"
  using assms by (rule unpublish_effect)

theorem NodeUnpublishVolume_outcome_witness:
  "volumes (snd (run_state (NodeUnpublishVolume calm_env ''/buckets/v'' ''/p'') demo_node))
   = [(''/buckets/v'', demo_volume\<lparr>vol_publishPaths := []\<rparr>)]"
proof -
  have "fst (run_state (NodeUnpublishVolume calm_env ''/buckets/v'' ''/p'') demo_node) = None"
    by (simp add: NodeUnpublishVolume_def node_steps Unpublish_def CleanupMountPoint_def calm_env_def
        demo_node_def)
  with NodeUnpublishVolume_outcome [where v = "''/buckets/v''" and path = "''/p''" and E = calm_env
      and w = demo_node, OF prod.collapse [symmetric]]
  show ?thesis by (simp add: demo_node_def demo_volume_def RemovePublishPath_def)
qed

lemma unstage_effect:
  assumes "run_state (NodeUnstageVolume L E driver v path) w = (r, w')"
    and "v \<noteq> ''''" and "path \<noteq> ''''"
  shows "if r = None then
      map_of (volumes w') v = None \<and> map_of (recoveryBackoff w') v = None
      \<and> mutexes (volumeMutexes w') v = None
      \<and> (\<forall>u. u \<noteq> v \<longrightarrow> map_of (volumes w') u = map_of (volumes w) u)
      \<and> hd (hist w') = EForgetMetrics v
    else map_of (volumes w) v \<noteq> None \<and> volumes w' = volumes w
      \<and> recoveryBackoff w' = recoveryBackoff w
      \<and> mutexes (volumeMutexes w') v \<noteq> None"
  using assms
  by (auto simp: NodeUnstageVolume_def node_steps delete_conv' GetMutex_def LoadOrStore_def RemoveMutex_def
      split: option.splits if_splits prod.splits)

text \<open>
  \<open>NodeUnstageVolume\<close>: on success nothing of the volume is left on the node: not in the volume
  map, the mutex table or the recovery backoff, and dropping its metrics is the last thing done;
  other volumes are untouched. On an error, which only a volume in the map can give, the map, the
  backoff and the volume's mutex are kept, so that the call can be repeated.
\<close>

theorem NodeUnstageVolume_outcome:
  assumes "run_state (NodeUnstageVolume L E driver v path) w = (r, w')"
    and "v \<noteq> ''''" and "path \<noteq> ''''"
  shows "if r = None then
      map_of (volumes w') v = None \<and> map_of (recoveryBackoff w') v = None
      \<and> mutexes (volumeMutexes w') v = None
      \<and> (\<forall>u. u \<noteq> v \<longrightarrow> map_of (volumes w') u = map_of (volumes w) u)
      \<and> hd (hist w') = EForgetMetrics v
    else map_of (volumes w) v \<noteq> None \<and> volumes w' = volumes w
      \<and> recoveryBackoff w' = recoveryBackoff w
      \<and> mutexes (volumeMutexes w') v \<noteq> None"
  using assms by (rule unstage_effect)

theorem NodeUnstageVolume_outcome_witness:
  "map_of (volumes (snd (run_state (NodeUnstageVolume demo_libs calm_env demo_driver ''/buckets/v'' ''/s'')
     demo_node))) ''/buckets/v'' = None"
proof -
  let ?run = "run_state (NodeUnstageVolume demo_libs calm_env demo_driver ''/buckets/v'' ''/s'') demo_node"
  have "fst ?run = None"
    by (simp add: NodeUnstageVolume_def node_steps demo_node_def demo_volume_def Unstage_def
        unmounter_Unmount_def calm_env_def split: prod.split)
  with NodeUnstageVolume_outcome [where L = demo_libs and E = calm_env and driver = demo_driver
      and v = "''/buckets/v''" and path = "''/s''" and w = demo_node, OF prod.collapse [symmetric]]
  show ?thesis by simp
qed

section \<open>Recovery\<close>

text \<open>The volume map after a recovery of \<open>v\<close>: \<open>v\<close> with the same paths, the rest as before.\<close>

definition carried_over :: "'n node_scheme \<Rightarrow> string \<Rightarrow> Volume \<Rightarrow> 'n node_scheme \<Rightarrow> bool" where
  "carried_over w0 v vol w \<longleftrightarrow>
     (\<exists>vol'. map_of (volumes w) v = Some vol' \<and> vol_StagedPath vol' = vol_StagedPath vol
        \<and> vol_readOnly vol' = vol_readOnly vol
        \<and> distinct (map fst (vol_publishPaths vol'))
        \<and> map_of (vol_publishPaths vol') = map_of (vol_publishPaths vol))
     \<and> (\<forall>u. u \<noteq> v \<longrightarrow> map_of (volumes w) u = map_of (volumes w0) u)"

lemma add_publish_fold:
  "fold (\<lambda>((path, ro), gone). AddPublishPath path ro) ps vol
     = vol\<lparr>vol_publishPaths := fold (\<lambda>(p, ro). AList.update p ro) (map fst ps) (vol_publishPaths vol)\<rparr>"
  by (induction ps arbitrary: vol) (auto simp: AddPublishPath_def)

lemma fold_update_distinct:
  "distinct (map fst xs) \<Longrightarrow> distinct (map fst (fold (\<lambda>(p, ro). AList.update p ro) ps xs))"
  by (induction ps arbitrary: xs) (auto simp: distinct_update)

lemma fold_update_map_of:
  "distinct (map fst ps) \<Longrightarrow>
     map_of (fold (\<lambda>(p, ro). AList.update p ro) ps xs) = map_of xs ++ map_of ps"
proof (induction ps arbitrary: xs)
  case (Cons p ps)
  obtain a b where p: "p = (a, b)" by (cases p)
  have "a \<notin> dom (map_of ps)" using Cons(2) by (simp add: p dom_map_of_conv_image_fst)
  then have "(map_of xs)(a \<mapsto> b) ++ map_of ps = (map_of xs ++ map_of ps)(a \<mapsto> b)"
    by (rule map_add_upd_left)
  moreover have "map_of (fold (\<lambda>(p, ro). AList.update p ro) (p # ps) xs) = (map_of xs)(a \<mapsto> b) ++ map_of ps"
    using Cons by (simp add: p update_conv')
  ultimately show ?case by (auto simp: p fun_eq_iff map_add_def split: option.split)
qed simp

interpretation carried: handler_world "carried_over w0 v vol" "\<lambda>e. True" L driver for w0 v vol L driver
proof unfold_locales
  show "keeps (carried_over w0 v vol) (cleanupStaleStagingPath E path)" for E path
    by (rule keeps_frame) (simp_all add: carried_over_def)
  show "keeps (carried_over w0 v vol) (CleanupVolumeResources L E driver u)" for E u
    by (rule keeps_frame) (simp_all add: carried_over_def)
qed (simp_all add: carried_over_def)

lemma carried_state:
  "keeps (carried_over w0 v vol) (getVolumeMutex u)" "keeps (carried_over w0 v vol) (delete_backoff u)"
  "keeps (carried_over w0 v vol) (modify (\<lambda>w. w\<lparr>recoveryBackoff := f w\<rparr>))"
  by (simp_all add: keeps_def getVolumeMutex_def delete_backoff_def carried_over_def)

lemma carried_publishes:
  assumes "distinct (map fst (vol_publishPaths vol))"
    and "staged_volume v (vol_StagedPath vol) (vol_readOnly vol) newVol"
  shows "keeps (carried_over w0 v vol)
    (recover_publishes E v (vol_StagedPath vol) dev (vol_publishPaths vol) newVol)"
proof (rule keepsI)
  fix w r w' assume inv: "carried_over w0 v vol w"
    and run: "run_state (recover_publishes E v (vol_StagedPath vol) dev (vol_publishPaths vol) newVol) w = (r, w')"
  obtain torn w1 where torn: "run_state (tear_down_all E (vol_publishPaths vol)) w = (torn, w1)"
    by (metis surj_pair)
  obtain vol' failed recovered w2 where
    rebind: "run_state (rebind_all E (vol_StagedPath vol) newVol torn) w1 = ((vol', failed, recovered), w2)"
    by (metis surj_pair)
  have "carried_over w0 v vol w2"
    using keepsD [OF carried.keeps_rebind_all keepsD [OF carried.keeps_tear_down_all inv torn] rebind] .
  moreover have "map_of (vol_publishPaths vol') = map_of (vol_publishPaths vol)"
    "vol_StagedPath vol' = vol_StagedPath vol" "vol_readOnly vol' = vol_readOnly vol"
    "distinct (map fst (vol_publishPaths vol'))"
    using rebind_all_volume [OF rebind] tear_down_all_paths [OF torn] assms
    by (simp_all add: add_publish_fold fold_update_map_of fold_update_distinct staged_volume_def)
  ultimately have stored: "carried_over w0 v vol (w2\<lparr>volumes := AList.update v vol' (volumes w2)\<rparr>)"
    by (simp add: carried_over_def update_conv')
  show "carried_over w0 v vol w'"
  proof (rule keepsD [where I = "carried_over w0 v vol", OF _ stored])
    show "keeps (carried_over w0 v vol) (do {
        (if dev = '''' then ret ()
         else for_each recovered (\<lambda>p. remountInContainers E (fst p) (vol_StagedPath vol) dev (snd p)));
        (if failed \<noteq> [] then emit (ERecovery v ''failed'')
         else do { emit (ERecovery v ''success''); emit (ESessionUp v True) }) })"
      by (intro keeps_rules carried.keeps_mark carried.keeps_remountInContainers)
         (simp_all add: is_removal_def)
  qed (use run torn rebind in \<open>simp add: recover_publishes_def store_volume_def\<close>)
qed

lemma carried_recover_staging:
  assumes "distinct (map fst (vol_publishPaths vol))"
  shows "keeps (carried_over w0 v vol) (recover_staging L ord E driver v vol dev)"
proof -
  have staged: "ensures (carried_over w0 v vol)
      (stageNewVolume L ord E driver v (vol_StagedPath vol) ctx (vol_readOnly vol))
      (\<lambda>x. \<forall>new. x = Inr new \<longrightarrow> staged_volume v (vol_StagedPath vol) (vol_readOnly vol) new)" for ctx
    by (rule ensures_result [OF carried.keeps_stageNewVolume]) (auto dest: stageNewVolume_result)
  show ?thesis
    unfolding recover_staging_def Let_def
    by (intro keeps_case_option keeps_if keeps_return keeps_bind carried.keeps_recover_unmount
        carried.keeps_recover_detach carried.keeps_stale carried.keeps_mark
        keeps_bind_ensures [OF staged] keeps_case_sum carried_publishes [OF assms])
       (auto simp: is_removal_def)
qed

lemma recoverVolume_carries:
  assumes "node_inv w" and "map_of (volumes w) v = Some vol"
  shows "carried_over w v vol (snd (run_state (recoverVolume L ord E driver v) w))"
proof -
  let ?I = "carried_over w v vol"
  have "distinct (map fst (vol_publishPaths vol))"
    using assms by (auto simp: node_inv_def vol_ok_def dest: map_of_SomeD)
  then have start: "?I w" using assms(2) by (simp add: carried_over_def)
  have load: "ensures ?I (load_volume v) (\<lambda>x. \<exists>vol1. x = Some vol1
      \<and> distinct (map fst (vol_publishPaths vol1)) \<and> carried_over w v vol1 = ?I)"
    unfolding ensures_def load_volume_def carried_over_def by (auto simp: keeps_gets fun_eq_iff)
  have staging: "keeps ?I (recover_staging L ord E driver v vol1 dev)"
    if "distinct (map fst (vol_publishPaths vol1))" "carried_over w v vol1 = ?I" for vol1 dev
    using carried_recover_staging [OF that(1), of w v] that(2) by simp
  have "keeps ?I (recoverVolume L ord E driver v)"
    unfolding recoverVolume_def resetRecoveryBackoff_def recoveryThrottled_def noteRecoveryAttempt_def
    by (rule keeps_bind)
       (auto intro!: keeps_bind keeps_if keeps_case_option keeps_gets keeps_return carried_state
          carried.keeps_mark carried.keeps_probe carried.keeps_checkHealth
          carried.keeps_capture_device carried.keeps_monitor_live staging
          keeps_bind_ensures [OF load] simp: is_removal_def is_probe_def Let_def)
  then show ?thesis using start by (rule keeps_run)
qed

text \<open>
  C17: A recovery loses no publish path: whatever fails on the way, afterwards the volume is still
  in the map at the same staging path, with the same access mode and exactly the same publish
  paths, so that a path that could not be bound again is retried by a later sweep; all other
  volumes are untouched.
\<close>

theorem recovery_keeps_publish_paths:
  assumes "node_inv w" and "map_of (volumes w) v = Some vol"
  shows "carried_over w v vol (snd (run_state (recoverVolume L ord E driver v) w))"
  using assms by (rule recoverVolume_carries)

theorem recovery_keeps_publish_paths_witness:
  "carried_over demo_node ''/buckets/v'' demo_volume (snd (run_state (recoverVolume demo_libs id
     unmounted_env demo_driver ''/buckets/v'') demo_node))"
  by (rule recovery_keeps_publish_paths [OF demo_node_inv]) (simp add: demo_node_def)

text \<open>
  A volume whose context is nil is never recovered: however dead its mount is, and however
  often the monitor tries, \<open>recoverVolume\<close> issues only probes and leaves the volume as it is.
  \<open>NodeStageVolume\<close> and \<open>NodePublishVolume\<close> record such a volume when they rebuild it from a
  healthy mount for a request without volume context, which a volume without attributes has.
\<close>

theorem nil_context_is_never_recovered:
  assumes "map_of (volumes w) v = Some vol" and "vol_volContext vol = None"
  shows "untouched w (snd (run_state (recoverVolume L ord E driver v) w))"
proof -
  let ?I = "untouched w"
  have load: "ensures ?I (load_volume v) (\<lambda>x. x = Some vol)"
    using assms(1) by (auto simp: ensures_def load_volume_def keeps_gets untouched_def)
  have mark: "keeps ?I (emit (ERecovery v s))" for s
    by (rule quiet.keeps_note) (simp add: is_metric_def)
  have now: "keeps ?I (ext (time_Now E) ENow)"
    by (rule quiet.keeps_probe) (simp add: is_probe_def)
  have "keeps ?I (recoverVolume L ord E driver v)"
    unfolding recoverVolume_def resetRecoveryBackoff_def recoveryThrottled_def
    by (rule keeps_bind)
       (auto intro!: keeps_case_option keeps_bind [OF keeps_gets] keeps_bind [OF now] keeps_return mark
          keeps_untouched_state keeps_bind [OF keeps_untouched_state(1)]
          keeps_bind_ensures [OF load] keeps_bind [OF quiet.keeps_checkHealth] simp: assms(2))
  then show ?thesis using untouched_refl by (rule keeps_run)
qed

definition rebuilt_node :: node where
  "rebuilt_node = snd (run_state (NodeStageVolume demo_libs id calm_env demo_driver
     \<lparr>st_VolumeId = ''/buckets/v'', st_StagingTargetPath = ''/s'', st_VolumeCapability = Some None,
      st_VolumeContext = None\<rparr>) (demo_node\<lparr>volumes := []\<rparr>))"

theorem nil_context_is_never_recovered_witness:
  "untouched rebuilt_node (snd (run_state (recoverVolume demo_libs id unmounted_env demo_driver
     ''/buckets/v'') rebuilt_node))"
proof -
  have "fst (run_state (isStagingPathHealthy calm_env p) w) = True" for p and w :: node
    by (simp add: isStagingPathHealthy_def probeStatfs_def node_steps is_corrupted_def calm_env_def
        split: prod.split)
  then have healthy: "\<exists>w'. run_state (isStagingPathHealthy calm_env p) w = (True, w')"
    for p and w :: node by (metis prod.collapse)
  let ?w = "demo_node\<lparr>volumes := [], volumeMutexes := snd (GetMutex ''/buckets/v'' newKeyMutex)\<rparr>"
  obtain w' where run: "run_state (isStagingPathHealthy calm_env ''/s'') ?w = (True, w')"
    using healthy [where w = ?w] by metis
  have start: "run_state (getVolumeMutex ''/buckets/v'') (demo_node\<lparr>volumes := []\<rparr>) = ((), ?w)"
    "run_state (load_volume ''/buckets/v'') ?w = (None, ?w)"
    by (simp_all add: node_steps demo_node_def)
  have "\<exists>vol. map_of (volumes rebuilt_node) ''/buckets/v'' = Some vol \<and> vol_volContext vol = None"
    by (simp add: rebuilt_node_def NodeStageVolume_def Let_def start run store_volume_def update_conv')
  then show ?thesis using nil_context_is_never_recovered by blast
qed

section \<open>The sweep\<close>

text \<open>
  The sweeps and the goroutines they start: \<open>running\<close> is one entry per goroutine. A step is a
  launch for one volume of a sweep, or a goroutine that ends.
\<close>

inductive monitor_step ::
  "string list \<times> 'n node_scheme \<Rightarrow> string list \<times> 'n node_scheme \<Rightarrow> bool" where
  launch: "run_state (launchVolumeHealthCheck v) w = (started, w') \<Longrightarrow>
    monitor_step (running, w) (if started then v # running else running, w')"
| finish: "v \<in> set running \<Longrightarrow> run_state (finishVolumeHealthCheck v) w = (u, w') \<Longrightarrow>
    monitor_step (running, w) (remove1 v running, w')"

definition one_check_each :: "string list \<times> 'n node_scheme \<Rightarrow> bool" where
  "one_check_each s \<longleftrightarrow> distinct (fst s) \<and> set (fst s) = set (activeRecoveries (snd s))"

lemma monitor_step_inv: "monitor_step s s' \<Longrightarrow> one_check_each s \<Longrightarrow> one_check_each s'"
proof (induction rule: monitor_step.induct)
  case (launch v w started w' running)
  then show ?case
    by (cases "v \<in> set (activeRecoveries w)")
       (clarsimp simp: one_check_each_def launchVolumeHealthCheck_def)+
next
  case (finish v running w u w')
  have "activeRecoveries w' = removeAll v (activeRecoveries w)"
    using finish(2) by (clarsimp simp: finishVolumeHealthCheck_def)
  then show ?case using finish(3) by (simp add: one_check_each_def)
qed

text \<open>
  However sweeps and health checks interleave, at most one health check, and so at most one
  recovery, runs per volume: a check that hangs blocks further checks of its volume instead of
  letting goroutines pile up.
\<close>

theorem at_most_one_check_per_volume:
  assumes "monitor_step\<^sup>*\<^sup>* ([], w) (running, w')" and "activeRecoveries w = []"
  shows "distinct running \<and> set running = set (activeRecoveries w')"
proof -
  have "one_check_each (running, w')"
    using assms(1)
  proof (induction rule: rtranclp_induct)
    case base
    show ?case using assms(2) by (simp add: one_check_each_def)
  qed (rule monitor_step_inv)
  then show ?thesis by (simp add: one_check_each_def)
qed

theorem at_most_one_check_per_volume_witness:
  "distinct [''v''] \<and> set [''v''] = set (activeRecoveries (demo_node\<lparr>activeRecoveries := [''v'']\<rparr>))"
proof (rule at_most_one_check_per_volume)
  have first: "monitor_step ([], demo_node) ([''v''], demo_node\<lparr>activeRecoveries := [''v'']\<rparr>)"
    using launch [of "''v''" demo_node True _ "[]"]
    by (simp add: launchVolumeHealthCheck_def demo_node_def)
  have "monitor_step ([''v''], demo_node\<lparr>activeRecoveries := [''v'']\<rparr>)
      ([''v''], demo_node\<lparr>activeRecoveries := [''v'']\<rparr>)"
    using launch [of "''v''" "demo_node\<lparr>activeRecoveries := [''v'']\<rparr>" False _ "[''v'']"]
    by (simp add: launchVolumeHealthCheck_def demo_node_def)
  with first show "monitor_step\<^sup>*\<^sup>* ([], demo_node) ([''v''], demo_node\<lparr>activeRecoveries := [''v'']\<rparr>)"
    by simp
qed (simp add: demo_node_def)

end
