(* ===== verification/Refinement.thy ===== *)
theory Refinement
  imports HandlerProps
begin

text \<open>
  The abstract machine the node service implements. What kubelet relies on is, for each volume,
  whether it is staged, where, and at which target paths it is published; \<open>allowed\<close> says which
  of these states a request may lead to, given whether it succeeded. The handlers and the health
  check, with every call to the outside, refine it.
\<close>

section \<open>The specification\<close>

datatype request =
  StageReq NodeStageVolumeRequest
| PublishReq NodePublishVolumeRequest
| UnpublishReq string string
| UnstageReq string string
| ExpandReq string string int
| CheckReq string

text \<open>For each staged volume its staging path and its publish paths with their access mode.\<close>

type_synonym spec_state = "string \<Rightarrow> (string \<times> (string \<Rightarrow> bool option)) option"

text \<open>
  A failed publish of an unknown volume may leave it staged, so that the retry of the call does
  not stage it again; everything else is determined by the request and its outcome.
\<close>

fun allowed :: "request \<Rightarrow> bool \<Rightarrow> spec_state \<Rightarrow> spec_state list" where
  "allowed (StageReq q) ok a =
     (if ok \<and> a (st_VolumeId q) = None
      then [a(st_VolumeId q \<mapsto> (st_StagingTargetPath q, Map.empty))] else [a])"
| "allowed (PublishReq q) ok a =
     (case a (pb_VolumeId q) of
        Some (staging, published) \<Rightarrow>
          [if ok then a(pb_VolumeId q \<mapsto> (staging, published(pb_TargetPath q \<mapsto> pb_Readonly q))) else a]
      | None \<Rightarrow>
          if ok then [a(pb_VolumeId q \<mapsto> (pb_StagingTargetPath q, [pb_TargetPath q \<mapsto> pb_Readonly q]))]
          else [a, a(pb_VolumeId q \<mapsto> (pb_StagingTargetPath q, Map.empty))])"
| "allowed (UnpublishReq v target) ok a =
     (case a v of
        Some (staging, published) \<Rightarrow> [if ok then a(v \<mapsto> (staging, published(target := None))) else a]
      | None \<Rightarrow> [a])"
| "allowed (UnstageReq v path) ok a = [if ok then a(v := None) else a]"
| "allowed (ExpandReq v path bytes) ok a = [a]"
| "allowed (CheckReq v) ok a = [a]"

fun allowed_run :: "request list \<Rightarrow> bool list \<Rightarrow> spec_state \<Rightarrow> spec_state list" where
  "allowed_run (q # qs) (ok # oks) a = concat (map (allowed_run qs oks) (allowed q ok a))"
| "allowed_run qs oks a = [a]"

section \<open>The implementation\<close>

definition paths :: "'n node_scheme \<Rightarrow> spec_state" where
  "paths w v = map_option (\<lambda>vol. (vol_StagedPath vol, map_of (vol_publishPaths vol))) (map_of (volumes w) v)"

fun serve :: "libs \<Rightarrow> (gomap \<Rightarrow> gomap) \<Rightarrow> env \<Rightarrow> SeaweedFsDriver \<Rightarrow> request \<Rightarrow> ('n, err option) nio" where
  "serve L ord E driver (StageReq q) = NodeStageVolume L ord E driver q"
| "serve L ord E driver (PublishReq q) = NodePublishVolume L ord E driver q"
| "serve L ord E driver (UnpublishReq v target) = NodeUnpublishVolume E v target"
| "serve L ord E driver (UnstageReq v path) = NodeUnstageVolume L E driver v path"
| "serve L ord E driver (ExpandReq v path bytes) = NodeExpandVolume E v path bytes"
| "serve L ord E driver (CheckReq v) = do { performVolumeHealthCheck L ord E driver v; ret None }"

fun serve_all ::
  "libs \<Rightarrow> (gomap \<Rightarrow> gomap) \<Rightarrow> env \<Rightarrow> SeaweedFsDriver \<Rightarrow> request list \<Rightarrow> ('n, bool list) nio" where
  "serve_all L ord E driver [] = ret []"
| "serve_all L ord E driver (q # qs) = do {
     r \<leftarrow> serve L ord E driver q;
     oks \<leftarrow> serve_all L ord E driver qs;
     ret ((r = None) # oks)
   }"

section \<open>The simulation, request by request\<close>

lemma paths_update:
  "volumes w' = AList.update v vol (volumes w) \<Longrightarrow>
   paths w' = (paths w)(v \<mapsto> (vol_StagedPath vol, map_of (vol_publishPaths vol)))"
  by (simp add: paths_def fun_eq_iff update_conv')

lemma paths_cong: "volumes w' = volumes w \<Longrightarrow> paths w' = paths w"
  by (simp add: paths_def fun_eq_iff)

lemma stage_refines:
  assumes "run_state (NodeStageVolume L ord E driver q) w = (r, w')"
  shows "paths w' \<in> set (allowed (StageReq q) (r = None) (paths w))"
proof (cases "r = None \<and> map_of (volumes w) (st_VolumeId q) = None")
  case True
  then obtain vol where "volumes w' = AList.update (st_VolumeId q) vol (volumes w)"
    "vol_StagedPath vol = st_StagingTargetPath q" "vol_publishPaths vol = []"
    using stage_effect [OF assms] True by (simp, blast)
  then show ?thesis
    using True paths_update [of w' _ vol w] by (simp add: paths_def [of w "st_VolumeId q"])
next
  case False
  then have "volumes w' = volumes w"
    using stage_effect [OF assms] by (cases r; cases "map_of (volumes w) (st_VolumeId q)") simp_all
  then have "paths w' = paths w" by (rule paths_cong)
  then show ?thesis using False by (auto simp: paths_def [of w "st_VolumeId q"])
qed

lemma paths_eqI:
  "map_of (volumes w') v = Some vol \<Longrightarrow> (\<And>u. u \<noteq> v \<Longrightarrow> map_of (volumes w') u = map_of (volumes w) u) \<Longrightarrow>
   paths w' = (paths w)(v \<mapsto> (vol_StagedPath vol, map_of (vol_publishPaths vol)))"
  by (simp add: paths_def fun_eq_iff)

lemma unpublish_refines:
  assumes "run_state (NodeUnpublishVolume E v target) w = (r, w')"
  shows "paths w' \<in> set (allowed (UnpublishReq v target) (r = None) (paths w))"
proof (cases "v = '''' \<or> target = ''''")
  case True
  then have "r \<noteq> None \<and> w' = w"
    using assms by (cases "v = ''''") (auto simp: NodeUnpublishVolume_def)
  then show ?thesis by (cases r) (simp_all split: option.split)
next
  case False
  then have "v \<noteq> ''''" "target \<noteq> ''''" by simp_all
  from unpublish_effect [OF assms this] show ?thesis
    using paths_cong [of w' w] paths_update [of w' v "RemovePublishPath target (the (map_of (volumes w) v))" w]
    by (cases "map_of (volumes w) v"; cases r)
       (simp_all add: paths_def [of w v] RemovePublishPath_def delete_conv')
qed

lemma unstage_refines:
  assumes "run_state (NodeUnstageVolume L E driver v path) w = (r, w')"
  shows "paths w' \<in> set (allowed (UnstageReq v path) (r = None) (paths w))"
proof (cases "v = '''' \<or> path = ''''")
  case True
  then have "r \<noteq> None \<and> w' = w"
    using assms by (cases "v = ''''") (auto simp: NodeUnstageVolume_def)
  then show ?thesis by (cases r) simp_all
next
  case False
  then have "v \<noteq> ''''" "path \<noteq> ''''" by simp_all
  note eff = unstage_effect [OF assms this]
  show ?thesis
  proof (cases r)
    case None
    with eff have "paths w' = (paths w)(v := None)" by (simp add: paths_def fun_eq_iff)
    with None show ?thesis by simp
  next
    case (Some err)
    with eff have "paths w' = paths w" by (intro paths_cong) simp
    with Some show ?thesis by simp
  qed
qed

lemma publish_refines:
  assumes "run_state (NodePublishVolume L ord E driver q) w = (r, w')"
  shows "paths w' \<in> set (allowed (PublishReq q) (r = None) (paths w))"
proof (cases "pb_VolumeCapability q = None \<or> pb_VolumeId q = '''' \<or> pb_TargetPath q = ''''
    \<or> pb_StagingTargetPath q = ''''")
  case True
  then have "\<exists>e. r = Some e \<and> w' = w"
    using assms by (cases "pb_VolumeCapability q") (auto simp: NodePublishVolume_def Let_def split: if_splits)
  then show ?thesis by (auto split: option.split)
next
  case False
  let ?v = "pb_VolumeId q"
  from False obtain cap where cap: "pb_VolumeCapability q = Some cap" by auto
  obtain u w0 where u: "run_state (getVolumeMutex ?v) w = (u, w0)" by (metis surj_pair)
  then have w0: "volumes w0 = volumes w" by (auto simp: getVolumeMutex_def)
  obtain x w1 where x: "run_state (publish_volume L ord E driver q cap) w0 = (x, w1)" by (metis surj_pair)
  note eff = publish_volume_outcome [OF x]
  show ?thesis
  proof (cases x)
    case (Inl e)
    then have "r = Some e" "volumes w' = volumes w"
      using eff assms False cap u x w0 by (auto simp: NodePublishVolume_def Let_def)
    then have "r \<noteq> None" "paths w' = paths w" using paths_cong by simp_all
    then show ?thesis by (auto split: option.split)
  next
    case (Inr vol)
    let ?s = "vol_StagedPath vol" and ?p = "map_of (vol_publishPaths vol)"
    note e = eff [of undefined vol, unfolded Inr, simplified]
    have w1: "paths w1 = (paths w)(?v \<mapsto> (?s, ?p))"
      using e w0 by (intro paths_eqI) auto
    have known: "paths w1 = paths w \<and> paths w ?v = Some (?s, ?p)" if "map_of (volumes w) ?v \<noteq> None"
      using e w0 that paths_cong [of w1 w] by (auto simp: paths_def [of w ?v])
    have new: "?s = pb_StagingTargetPath q \<and> ?p = Map.empty" if "map_of (volumes w) ?v = None"
      using e w0 that by auto
    obtain p w2 where p: "run_state (Publish E (pb_StagingTargetPath q) (pb_TargetPath q) (pb_Readonly q)) w1
        = (p, w2)" by (metis surj_pair)
    then have w2: "volumes w2 = volumes w1" using same.keeps_Publish [THEN same_tables] by blast
    show ?thesis
    proof (cases p)
      case (Some err)
      then have "r \<noteq> None" "paths w' = paths w1"
        using assms False cap u x Inr p w2 paths_cong [of w' w1]
        by (auto simp: NodePublishVolume_def Let_def)
      then show ?thesis using known new w1
        by (cases "map_of (volumes w) ?v") (auto simp: paths_def [of w ?v])
    next
      case None
      then have "r = None" and "volumes w' = AList.update ?v (AddPublishPath (pb_TargetPath q) (pb_Readonly q) vol)
          (volumes w2)"
        using assms False cap u x Inr p by (auto simp: NodePublishVolume_def Let_def store_volume_def)
      then have "paths w' = (paths w)(?v \<mapsto> (?s, ?p(pb_TargetPath q \<mapsto> pb_Readonly q)))"
        using paths_update [of w' ?v _ w2] paths_cong [OF w2] w1
        by (simp add: AddPublishPath_def update_conv')
      then show ?thesis using known new \<open>r = None\<close>
        by (cases "map_of (volumes w) ?v") (auto simp: paths_def [of w ?v])
    qed
  qed
qed

lemma expand_refines:
  assumes "run_state (NodeExpandVolume E v path bytes) w = (r, w')"
  shows "paths w' = paths w"
proof (rule paths_cong)
  have "keeps (\<lambda>w. volumes w = volumes w0) (NodeExpandVolume E v path bytes)" for w0 :: "'a node_scheme"
    unfolding NodeExpandVolume_def
    by (intro keeps_rules) (auto simp: keeps_def getVolumeMutex_def load_volume_def Quota_def
        split: option.splits)
  from keepsD [OF this refl assms] show "volumes w' = volumes w" .
qed

text \<open>The health check: a probe changes nothing, a retry only binds, a recovery carries over.\<close>

definition same_paths :: "'n node_scheme \<Rightarrow> 'n node_scheme \<Rightarrow> bool" where
  "same_paths w0 w \<longleftrightarrow> node_inv w \<and> paths w = paths w0"

interpretation path_frame: handler_world "same_paths w0" "\<lambda>e. True" L driver for w0 L driver
proof unfold_locales
  show "keeps (same_paths w0) (cleanupStaleStagingPath E path)" for E path
    by (rule keeps_frame) (simp_all add: same_paths_def node_inv_def paths_def fun_eq_iff)
  show "keeps (same_paths w0) (CleanupVolumeResources L E driver v)" for E v
    by (rule keeps_frame) (simp_all add: same_paths_def node_inv_def paths_def fun_eq_iff)
qed (simp_all add: same_paths_def node_inv_def paths_def fun_eq_iff)

lemma same_paths_state:
  "keeps (same_paths w0) (getVolumeMutex v)" "keeps (same_paths w0) (delete_backoff v)"
  "keeps (same_paths w0) (load_volume v)"
  by (simp_all add: keeps_def getVolumeMutex_def delete_backoff_def load_volume_def same_paths_def
      node_inv_def paths_def fun_eq_iff)

lemma recover_unknown:
  assumes "map_of (volumes w) v = None"
  shows "volumes (snd (run_state (recoverVolume L ord E driver v) w)) = volumes w"
  using assms
  by (simp add: recoverVolume_def recoveryThrottled_def node_steps split: option.split prod.split)

lemma recover_refines: "keeps (same_paths w0) (recoverVolume L ord E driver v)"
proof (rule keepsI)
  fix w u w' assume inv: "same_paths w0 w" and run: "run_state (recoverVolume L ord E driver v) w = (u, w')"
  have wf: "node_inv w" using inv by (simp add: same_paths_def)
  have "node_inv w'" using keepsD [OF node_wf.keeps_recoverVolume wf run] .
  moreover have "paths w' = paths w"
  proof (cases "map_of (volumes w) v")
    case None
    from recover_unknown [OF this] run show ?thesis by (intro paths_cong) (metis snd_conv)
  next
    case (Some vol)
    from recoverVolume_carries [OF wf Some, of L ord E driver] run
    have "carried_over w v vol w'" by simp
    then obtain vol' where "map_of (volumes w') v = Some vol'" "vol_StagedPath vol' = vol_StagedPath vol"
      "map_of (vol_publishPaths vol') = map_of (vol_publishPaths vol)"
      "\<And>x. x \<noteq> v \<Longrightarrow> map_of (volumes w') x = map_of (volumes w) x"
      by (auto simp: carried_over_def)
    then have "paths w' x = paths w x" for x using Some by (cases "x = v") (simp_all add: paths_def)
    then show ?thesis by blast
  qed
  ultimately show "same_paths w0 w'" using inv by (simp add: same_paths_def)
qed

lemma check_refines: "keeps (same_paths w0) (performVolumeHealthCheck L ord E driver v)"
  unfolding performVolumeHealthCheck_def hasUnhealthyPublishPath_def resetRecoveryBackoff_def
    retryPublishPaths_def
  by (intro keeps_rules same_paths_state path_frame.keeps_probeStaging recover_refines
      path_frame.keeps_any_unhealthy path_frame.keeps_checkHealth path_frame.keeps_rebind_unhealthy)

lemma serve_refines:
  assumes "node_inv w" and "run_state (serve L ord E driver q) w = (r, w')"
  shows "paths w' \<in> set (allowed q (r = None) (paths w)) \<and> node_inv w'"
proof (cases q)
  case (StageReq x)
  then have run: "run_state (NodeStageVolume L ord E driver x) w = (r, w')" using assms(2) by simp
  show ?thesis unfolding StageReq
    using stage_refines [OF run] keepsD [OF node_wf.keeps_NodeStageVolume assms(1) run] by blast
next
  case (PublishReq x)
  then have run: "run_state (NodePublishVolume L ord E driver x) w = (r, w')" using assms(2) by simp
  show ?thesis unfolding PublishReq
    using publish_refines [OF run] keepsD [OF node_wf.keeps_NodePublishVolume assms(1) run] by blast
next
  case (UnpublishReq v t)
  then have run: "run_state (NodeUnpublishVolume E v t) w = (r, w')" using assms(2) by simp
  show ?thesis unfolding UnpublishReq
    using unpublish_refines [OF run] keepsD [OF node_wf.keeps_NodeUnpublishVolume assms(1) run] by blast
next
  case (UnstageReq v p)
  then have run: "run_state (NodeUnstageVolume L E driver v p) w = (r, w')" using assms(2) by simp
  show ?thesis unfolding UnstageReq
    using unstage_refines [OF run] keepsD [OF node_wf.keeps_NodeUnstageVolume assms(1) run] by blast
next
  case (ExpandReq v p b)
  then have run: "run_state (NodeExpandVolume E v p b) w = (r, w')" using assms(2) by simp
  show ?thesis unfolding ExpandReq
    using expand_refines [OF run] keepsD [OF node_wf.keeps_NodeExpandVolume assms(1) run] by simp
next
  case (CheckReq v)
  then obtain u where "run_state (performVolumeHealthCheck L ord E driver v) w = (u, w')"
    using assms(2) by (auto split: prod.splits)
  from keepsD [OF check_refines _ this, of w] CheckReq assms(1) show ?thesis
    by (simp add: same_paths_def)
qed

lemma serve_all_refines:
  assumes "node_inv w" and "run_state (serve_all L ord E driver qs) w = (oks, w')"
  shows "paths w' \<in> set (allowed_run qs oks (paths w)) \<and> node_inv w' \<and> length oks = length qs"
  using assms
proof (induction qs arbitrary: w oks)
  case (Cons q qs)
  obtain r w1 oks1 where q: "run_state (serve L ord E driver q) w = (r, w1)"
    and qs: "run_state (serve_all L ord E driver qs) w1 = (oks1, w')" "oks = (r = None) # oks1"
    using Cons.prems(2) by (auto split: prod.splits)
  from serve_refines [OF Cons.prems(1) q] Cons.IH [OF _ qs(1)] show ?case by (auto simp: qs(2))
qed simp

section \<open>Properties\<close>

text \<open>
  C2: The node service implements its specification: whatever the outside answers and in whatever
  order requests and health checks come, the staging and publish paths the driver has recorded
  after a run are among those the specification allows for the outcomes it reported. A health
  check with a recovery is invisible in it.
\<close>

theorem node_service_refines_specification:
  assumes "node_inv w" and "run_state (serve_all L ord E driver qs) w = (oks, w')"
  shows "paths w' \<in> set (allowed_run qs oks (paths w)) \<and> length oks = length qs"
  using serve_all_refines [OF assms] by simp

theorem node_service_refines_specification_witness:
  "\<exists>oks w'. run_state (serve_all demo_libs id unmounted_env demo_driver
       [CheckReq ''/buckets/v'', UnpublishReq ''/buckets/v'' ''/p'']) demo_node = (oks, w')
     \<and> paths w' \<in> set (allowed_run [CheckReq ''/buckets/v'', UnpublishReq ''/buckets/v'' ''/p'']
         oks (paths demo_node))"
  using node_service_refines_specification [OF demo_node_inv prod.collapse [symmetric]]
  by (metis prod.collapse)

text \<open>Which requests end the publication of a volume at a target, if they succeed.\<close>

fun ends_publication :: "string \<Rightarrow> string \<Rightarrow> request \<Rightarrow> bool" where
  "ends_publication v target (UnpublishReq u t) \<longleftrightarrow> u = v \<and> t = target"
| "ends_publication v target (UnstageReq u p) \<longleftrightarrow> u = v"
| "ends_publication v target q \<longleftrightarrow> False"

definition recorded :: "string \<Rightarrow> string \<Rightarrow> string \<Rightarrow> spec_state \<Rightarrow> bool" where
  "recorded v staging target a \<longleftrightarrow> (\<exists>published. a v = Some (staging, published) \<and> published target \<noteq> None)"

lemma allowed_recorded:
  assumes "recorded v staging target a" and "\<not> (ok \<and> ends_publication v target q)"
    and "b \<in> set (allowed q ok a)"
  shows "recorded v staging target b"
  using assms by (cases q) (auto simp: recorded_def split: option.splits if_splits)

lemma allowed_run_recorded:
  "recorded v staging target a \<Longrightarrow> length oks = length qs \<Longrightarrow>
   \<forall>(q, ok) \<in> set (zip qs oks). \<not> (ok \<and> ends_publication v target q) \<Longrightarrow>
   b \<in> set (allowed_run qs oks a) \<Longrightarrow> recorded v staging target b"
  by (induction qs oks a rule: allowed_run.induct) (auto dest: allowed_recorded)

lemma no_end:
  "\<forall>q \<in> set qs. \<not> ends_publication v target q \<Longrightarrow>
   \<forall>(q, ok) \<in> set (zip qs oks). \<not> (ok \<and> ends_publication v target q)"
  by (auto dest: set_zip_leftD)

text \<open>
  C12: A published path stays recorded: once a volume is recorded as published at a target, it stays
  so, at the same staging path and ready for every recovery, through any sequence of requests and
  health checks until an unpublish of that target or an unstage of that volume succeeds. Failed
  calls, recoveries that fail halfway and the requests for other volumes do not lose it.
\<close>

theorem published_path_stays_recorded:
  assumes "node_inv w" and "run_state (serve_all L ord E driver qs) w = (oks, w')"
    and "recorded v staging target (paths w)"
    and "\<forall>(q, ok) \<in> set (zip qs oks). \<not> (ok \<and> ends_publication v target q)"
  shows "recorded v staging target (paths w')"
  using serve_all_refines [OF assms(1,2)] allowed_run_recorded [OF assms(3) _ assms(4)] by blast

theorem published_path_stays_recorded_witness:
  "recorded ''/buckets/v'' ''/s'' ''/p'' (paths (snd (run_state (serve_all demo_libs id unmounted_env
     demo_driver [CheckReq ''/buckets/v'', ExpandReq ''/buckets/v'' ''/p'' 5]) demo_node)))"
proof (rule published_path_stays_recorded [OF demo_node_inv prod.collapse [symmetric]])
  show "recorded ''/buckets/v'' ''/s'' ''/p'' (paths demo_node)"
    by (auto simp: recorded_def paths_def demo_node_def demo_volume_def)
  show "\<forall>(q, ok) \<in> set (zip [CheckReq ''/buckets/v'', ExpandReq ''/buckets/v'' ''/p'' 5] oks).
    \<not> (ok \<and> ends_publication ''/buckets/v'' ''/p'' q)" for oks
    by (rule no_end) simp
qed

end
