(* ===== verification/Restore.thy ===== *)
theory Restore
  imports HandlerProps
begin

text \<open>
  The start of the node plugin (\<open>NewNodeServer\<close> in pkg/driver/utils.go, pkg/driver/restore.go): the
  cache directory is emptied, and the volumes the mount service still holds are adopted with the
  publish paths the kernel's mount table shows. The health monitor it then starts is
  \<open>HealthMonitor\<close>.
\<close>

section \<open>Adopting volumes\<close>

text \<open>\<open>Inr []\<close> stands for the error branches of the source, which adopt without publish paths.\<close>

definition discover_publish_paths :: "env \<Rightarrow> string \<Rightarrow> ('w, (string \<times> bool) list) io" where
  "discover_publish_paths E targetPath = do {
     d \<leftarrow> getMountDevice E targetPath;
     (case d of
        Inl _ \<Rightarrow> ret []
      | Inr device \<Rightarrow>
          if device = '''' then ret []
          else do {
            p \<leftarrow> findPublishPathsByDevice E device targetPath;
            ret (case p of Inl _ \<Rightarrow> [] | Inr paths \<Rightarrow> paths)
          })
   }"

definition adopted_volume :: "libs \<Rightarrow> SeaweedFsDriver \<Rightarrow> MountInfo \<Rightarrow> (string \<times> bool) list \<Rightarrow> Volume" where
  "adopted_volume L driver info paths =
     fold (\<lambda>(path, readOnly). AddPublishPath path readOnly) paths
       ((rebuildVolumeFromStaging L driver (mi_VolumeID info) (mi_TargetPath info))
         \<lparr>vol_unmounter := Some (mi_VolumeID info),
          vol_volContext := Some (cloneVolumeContext (Some (mi_VolumeContext info))),
          vol_readOnly := mi_ReadOnly info\<rparr>)"

definition restoreVolume ::
  "libs \<Rightarrow> env \<Rightarrow> SeaweedFsDriver \<Rightarrow> MountInfo \<Rightarrow> ('n, bool) nio" where
  "restoreVolume L E driver info =
     (if mi_VolumeID info = '''' \<or> mi_TargetPath info = '''' then ret False
      else do {
        alive \<leftarrow> isStagingPathLive E (mi_TargetPath info);
        (if \<not> alive then ret False
         else (case newUnmounter driver of
                 Some _ \<Rightarrow> ret False
               | None \<Rightarrow> do {
                   paths \<leftarrow> discover_publish_paths E (mi_TargetPath info);
                   store_volume (mi_VolumeID info) (adopted_volume L driver info paths);
                   ret True
                 }))
      })"

fun restore_all :: "libs \<Rightarrow> env \<Rightarrow> SeaweedFsDriver \<Rightarrow> MountInfo list \<Rightarrow> ('n, nat) nio" where
  "restore_all L E driver [] = ret 0"
| "restore_all L E driver (info # infos) = do {
     added \<leftarrow> restoreVolume L E driver info;
     restored \<leftarrow> restore_all L E driver infos;
     ret (if added then Suc restored else restored)
   }"

definition restoreVolumes :: "libs \<Rightarrow> env \<Rightarrow> SeaweedFsDriver \<Rightarrow> ('n, nat) nio" where
  "restoreVolumes L E driver =
     (case NewClient (mountEndpoint driver) of
        Some _ \<Rightarrow> ret 0
      | None \<Rightarrow> do {
          l \<leftarrow> ext (svc_List E) ESvcList;
          (case l of Inl _ \<Rightarrow> ret 0 | Inr infos \<Rightarrow> restore_all L E driver infos)
        })"

section \<open>The start of the plugin\<close>

fun remove_each :: "env \<Rightarrow> string list \<Rightarrow> ('w, err option) io" where
  "remove_each E [] = ret None"
| "remove_each E (file # files) = do {
     r \<leftarrow> ext (\<lambda>h. os_RemoveAll E h file) (ERemoveAll file);
     (case r of Some err \<Rightarrow> ret (Some err) | None \<Rightarrow> remove_each E files)
   }"

definition removeDirContent :: "env \<Rightarrow> string \<Rightarrow> ('w, err option) io" where
  "removeDirContent E path = do {
     g \<leftarrow> ext (\<lambda>h. fs_Glob E h (path_join [path, ''*''])) (EGlob (path_join [path, ''*'']));
     (case g of Inl err \<Rightarrow> ret (Some err) | Inr files \<Rightarrow> remove_each E files)
   }"

definition empty_node :: "event list \<Rightarrow> string list \<Rightarrow> node" where
  "empty_node h ps = \<lparr>hist = h, probes = ps, volumes = [], volumeMutexes = newKeyMutex,
     recoveryBackoff = [], activeRecoveries = []\<rparr>"

text \<open>The new plugin process starts from the world the old one left.\<close>

definition NewNodeServer :: "libs \<Rightarrow> env \<Rightarrow> SeaweedFsDriver \<Rightarrow> event list \<Rightarrow> node" where
  "NewNodeServer L E n h =
     snd (run_state (do {
       (if CacheDir n \<noteq> '''' \<and> path_clean (CacheDir n) \<noteq> path_clean (os_TempDir L) then do {
          removeDirContent E (path_clean (CacheDir n));
          ret ()
        } else ret ());
       restoreVolumes L E n
     }) (empty_node h []))"

section \<open>What is adopted\<close>

lemma discover_same: "run_state (discover_publish_paths E path) w = (ps, w') \<Longrightarrow>
    volumes w' = volumes w \<and> volumeMutexes w' = volumeMutexes w
    \<and> recoveryBackoff w' = recoveryBackoff w \<and> activeRecoveries w' = activeRecoveries w"
proof (rule same_tables)
  show "keeps (\<lambda>w. tables w = V) (discover_publish_paths E path)" for V
    unfolding discover_publish_paths_def
    by (intro keeps_rules same.keeps_getMountDevice same.keeps_findPublishPaths)
qed

lemma live_same: "run_state (isStagingPathLive E path) w = (r, w') \<Longrightarrow>
    volumes w' = volumes w \<and> volumeMutexes w' = volumeMutexes w
    \<and> recoveryBackoff w' = recoveryBackoff w \<and> activeRecoveries w' = activeRecoveries w"
  by (rule same_tables [OF same.keeps_live])

lemma add_paths_fold:
  "fold (\<lambda>(path, ro). AddPublishPath path ro) ps vol
     = vol\<lparr>vol_publishPaths := fold (\<lambda>(p, ro). AList.update p ro) ps (vol_publishPaths vol)\<rparr>"
  by (induction ps arbitrary: vol) (auto simp: AddPublishPath_def)

lemma adopted_volume_fields:
  "vol_VolumeId (adopted_volume L driver info ps) = mi_VolumeID info"
  "vol_StagedPath (adopted_volume L driver info ps) = mi_TargetPath info"
  "vol_unmounter (adopted_volume L driver info ps) = Some (mi_VolumeID info)"
  "vol_volContext (adopted_volume L driver info ps) = Some (mi_VolumeContext info)"
  "vol_readOnly (adopted_volume L driver info ps) = mi_ReadOnly info"
  "vol_publishPaths (adopted_volume L driver info ps) = fold (\<lambda>(p, ro). AList.update p ro) ps []"
  by (simp_all add: adopted_volume_def add_paths_fold rebuildVolumeFromStaging_def cloneVolumeContext_def)

lemma adopted_volume_paths:
  "distinct (map fst ps) \<Longrightarrow> map_of (vol_publishPaths (adopted_volume L driver info ps)) = map_of ps"
  by (simp add: adopted_volume_fields fold_update_map_of)

lemma restoreVolume_outcome:
  assumes "run_state (restoreVolume L E driver info) w = (added, w')"
  shows "if added then \<exists>ps. volumes w' = AList.update (mi_VolumeID info) (adopted_volume L driver info ps) (volumes w)
    else volumes w' = volumes w"
  using assms
  by (auto simp: restoreVolume_def store_volume_def
      split: if_splits option.splits prod.splits dest!: discover_same live_same)

lemma keeps_restoreVolume_inv: "keeps node_inv (restoreVolume L E driver info)"
proof (rule keepsI)
  fix w added w' assume inv: "node_inv w"
    and run: "run_state (restoreVolume L E driver info) w = (added, w')"
  have "vol_ok (mi_VolumeID info) (adopted_volume L driver info ps)" for ps
    by (simp add: vol_ok_def adopted_volume_fields fold_update_distinct)
  then have "node_inv (w\<lparr>volumes := AList.update (mi_VolumeID info) (adopted_volume L driver info ps)
      (volumes w)\<rparr>)" for ps
    by (rule node_wf.I_store [OF inv])
  moreover have "node_inv w' = node_inv (w\<lparr>volumes := volumes w'\<rparr>)" by (simp add: node_inv_def)
  ultimately show "node_inv w'"
    using restoreVolume_outcome [OF run] inv by (cases added) auto
qed

lemma keeps_restoreVolumes_inv: "keeps node_inv (restoreVolumes L E driver)"
proof -
  have "keeps node_inv (restore_all L E driver infos)" for infos
    by (induction infos) (auto intro!: keeps_rules keeps_restoreVolume_inv)
  then show ?thesis
    unfolding restoreVolumes_def
    by (intro keeps_rules node_wf.keeps_call) (simp add: is_removal_def)
qed

section \<open>Adopted volumes are protected\<close>

definition own_table :: "env \<Rightarrow> mountInfoEntry list \<Rightarrow> bool" where
  "own_table E entries \<longleftrightarrow> (\<forall>h. \<exists>content. proc_MountInfo E h None = Inr content
     \<and> parseMountInfoReader content = (entries, None))"

lemma own_table_parse:
  assumes "own_table E entries"
  shows "\<exists>w'. run_state (parseMountInfo E None) w = (Inr entries, w')"
  using assms [unfolded own_table_def, rule_format, of "hist w"]
  by (auto simp: parseMountInfo_def)

lemma discover_table:
  assumes "own_table E entries" and "best_entry path None entries = Some st" and "mie_device st \<noteq> ''''"
  shows "fst (run_state (discover_publish_paths E path) w)
    = filterPublishPaths entries (mie_device st) path"
proof -
  obtain w1 where w1: "run_state (parseMountInfo E None) w = (Inr entries, w1)"
    using own_table_parse [OF assms(1)] by blast
  obtain w2 where w2: "run_state (parseMountInfo E None) w1 = (Inr entries, w2)"
    using own_table_parse [OF assms(1)] by blast
  show ?thesis
    using assms(2,3)
    by (simp add: discover_publish_paths_def getMountDevice_def findPublishPathsByDevice_def w1 w2)
qed

lemma restoreVolume_adopts:
  assumes "mi_VolumeID info \<noteq> ''''" and "mi_TargetPath info \<noteq> ''''" and "newUnmounter driver = None"
    and "mount_stays_live E (mi_TargetPath info)" and "own_table E entries"
    and "best_entry (mi_TargetPath info) None entries = Some st" and "mie_device st \<noteq> ''''"
  shows "volumes (snd (run_state (restoreVolume L E driver info) w))
    = AList.update (mi_VolumeID info)
        (adopted_volume L driver info (filterPublishPaths entries (mie_device st) (mi_TargetPath info)))
        (volumes w)"
proof -
  have "fst (run_state (isStagingPathLive E (mi_TargetPath info)) w)" for w :: "'n node_scheme"
    using assms(4) 
    by (cases "os_Stat E (hist w) (mi_TargetPath info)")
       (auto simp: mount_stays_live_def isStagingPathLive_def dest: spec [of _ "hist w"])
  then obtain w1 where w1: "run_state (isStagingPathLive E (mi_TargetPath info)) w = (True, w1)"
    by (metis (full_types) prod.collapse)
  obtain w2 where w2: "run_state (discover_publish_paths E (mi_TargetPath info)) w1
      = (filterPublishPaths entries (mie_device st) (mi_TargetPath info), w2)"
    using discover_table [OF assms(5-7)] by (metis prod.collapse)
  show ?thesis
    using assms(1-3) discover_same [OF w2] live_same [OF w1]
    by (simp add: restoreVolume_def w1 w2 store_volume_def)
qed

text \<open>
  C20: A restart of the node plugin does not expose running pods: a volume the mount service still
  holds, whose staging path is a live mount and has a pod bound to it according to the kernel's
  mount table, is adopted with that publish path, and a later recovery of it, however slow its
  probes are, leaves the mount and the volume alone.
\<close>

theorem restored_volume_is_protected:
  assumes "mi_VolumeID info \<noteq> ''''" and "mi_TargetPath info \<noteq> ''''" and "newUnmounter driver = None"
    and "mount_stays_live E (mi_TargetPath info)" and "own_table E entries"
    and "best_entry (mi_TargetPath info) None entries = Some st" and "mie_device st \<noteq> ''''"
    and "e \<in> set entries" and "is_publish_bind (mie_device st) (mi_TargetPath info) e"
    and "w' = snd (run_state (restoreVolume L E driver info) w)"
  shows "(\<exists>vol. map_of (volumes w') (mi_VolumeID info) = Some vol
      \<and> HasPublishPath (mie_mountpoint e) vol \<and> vol_volContext vol \<noteq> None)
    \<and> untouched w' (snd (run_state (recoverVolume L ord E driver (mi_VolumeID info)) w'))"
proof -
  let ?ps = "filterPublishPaths entries (mie_device st) (mi_TargetPath info)"
  let ?vol = "adopted_volume L driver info ?ps"
  have vol: "map_of (volumes w') (mi_VolumeID info) = Some ?vol"
    unfolding assms(10) restoreVolume_adopts [OF assms(1-7)] by (simp add: update_conv')
  have "mie_mountpoint e \<in> fst ` set ?ps"
    using assms(8,9) by (auto simp: filterPublishPaths_dom)
  then have "map_of ?ps (mie_mountpoint e) \<noteq> None"
    by (simp add: map_of_eq_None_iff)
  then have path: "HasPublishPath (mie_mountpoint e) ?vol"
    by (simp add: HasPublishPath_def adopted_volume_paths filterPublishPaths_distinct)
  then have "vol_publishPaths ?vol \<noteq> []" by (auto simp: HasPublishPath_def)
  with recovery_spares [OF vol] assms(4)
  have "untouched w' (snd (run_state (recoverVolume L ord E driver (mi_VolumeID info)) w'))"
    by (simp add: adopted_volume_fields)
  with vol path show ?thesis by (simp add: adopted_volume_fields)
qed

definition restart_env :: env where
  "restart_env = calm_env\<lparr>proc_MountInfo := \<lambda>h p. Inr (''30 1 0:60 / /s rw - fuse.seaweedfs fs rw'' @ [CHR 0x0A]
     @ ''31 1 0:60 / /k/pods/u1/volumes/kubernetes.io~csi/pv/mount rw - fuse.seaweedfs fs rw'')\<rparr>"

definition restart_info :: MountInfo where
  "restart_info = \<lparr>mi_VolumeID = ''/buckets/v'', mi_TargetPath = ''/s'', mi_CacheDir = ''/c'',
     mi_LocalSocket = ''/m.sock'', mi_VolumeContext = [], mi_ReadOnly = False\<rparr>"

definition fuse_entry :: "string \<Rightarrow> mountInfoEntry" where
  "fuse_entry p = \<lparr>mie_device = ''0:60'', mie_root = ''/'', mie_mountpoint = p,
     mie_fstype = ''fuse.seaweedfs'', mie_readOnly = False\<rparr>"

theorem restored_volume_is_protected_witness:
  "\<exists>vol. map_of (volumes (snd (run_state (restoreVolume demo_libs restart_env demo_driver restart_info)
       (empty_node [] [])))) ''/buckets/v'' = Some vol
     \<and> HasPublishPath ''/k/pods/u1/volumes/kubernetes.io~csi/pv/mount'' vol"
proof -
  let ?p = "''/k/pods/u1/volumes/kubernetes.io~csi/pv/mount''"
  let ?entries = "[fuse_entry ''/s'', fuse_entry ?p]"
  have "parseMountInfoReader (''30 1 0:60 / /s rw - fuse.seaweedfs fs rw'' @ [CHR 0x0A]
     @ ''31 1 0:60 / /k/pods/u1/volumes/kubernetes.io~csi/pv/mount rw - fuse.seaweedfs fs rw'')
       = (?entries, None)"
    by code_simp
  then have table: "own_table restart_env ?entries" by (simp add: own_table_def restart_env_def)
  have live: "mount_stays_live restart_env (mi_TargetPath restart_info)"
    by (simp add: mount_stays_live_def restart_env_def calm_env_def)
  have bind: "is_publish_bind ''0:60'' ''/s'' (fuse_entry ?p)" by code_simp
  have client: "newUnmounter demo_driver = None" by code_simp
  have best: "best_entry ''/s'' None ?entries = Some (fuse_entry ''/s'')" by code_simp
  have fields: "mi_VolumeID restart_info = ''/buckets/v''" "mi_TargetPath restart_info = ''/s''"
    "mie_device (fuse_entry q) = ''0:60''" "mie_mountpoint (fuse_entry q) = q" for q
    by (simp_all add: restart_info_def fuse_entry_def)
  show ?thesis
    using restored_volume_is_protected [of restart_info demo_driver restart_env ?entries
        "fuse_entry ''/s''" "fuse_entry ?p", OF _ _ client live table _ _ _ _ refl] best bind
    unfolding fields by fastforce
qed

lemma keeps_remove_each:
  assumes "\<And>f. f \<in> set fs \<Longrightarrow> keeps I (ext (\<lambda>h. os_RemoveAll E h f) (ERemoveAll f))"
  shows "keeps I (remove_each E fs)"
  using assms by (induction fs) (auto intro!: keeps_rules)

lemma keeps_removeDirContent_inv: "keeps node_inv (removeDirContent E p)"
proof -
  have remove: "keeps node_inv (ext (\<lambda>h. os_RemoveAll E h f) (ERemoveAll f))" for f
    by (simp add: keeps_def node_inv_def)
  show ?thesis
    unfolding removeDirContent_def
    by (intro keeps_rules keeps_remove_each [OF remove] node_wf.keeps_probe) (simp add: is_probe_def)
qed

lemma keeps_removeDirContent_safe:
  assumes "\<And>h fs f. fs_Glob E h (path_join [p, ''*'']) = Inr fs \<Longrightarrow> f \<in> set fs \<Longrightarrow> path_inside base f"
  shows "keeps (\<lambda>w. removal_safe base (hist w)) (removeDirContent E p)"
proof -
  have "ensures (\<lambda>w. removal_safe base (hist w)) (ext (\<lambda>h. fs_Glob E h (path_join [p, ''*'']))
      (EGlob (path_join [p, ''*'']))) (\<lambda>g. \<forall>fs. g = Inr fs \<longrightarrow> (\<forall>f \<in> set fs. path_inside base f))"
    using assms by (auto simp: ensures_def intro!: removal.keeps_call simp: is_removal_def)
  then show ?thesis
    unfolding removeDirContent_def
  proof (rule keeps_bind_ensures)
    fix g :: "err + string list"
    assume inside: "\<forall>fs. g = Inr fs \<longrightarrow> (\<forall>f \<in> set fs. path_inside base f)"
    have "keeps (\<lambda>w. removal_safe base (hist w)) (ext (\<lambda>h. os_RemoveAll E h f) (ERemoveAll f))"
      if "path_inside base f" for f
      using that by (simp add: keeps_def)
    with inside show "keeps (\<lambda>w. removal_safe base (hist w))
        (case g of Inl err \<Rightarrow> ret (Some err) | Inr fs \<Rightarrow> remove_each E fs)"
      by (auto intro!: keeps_rules keeps_remove_each)
  qed
qed

lemma keeps_restoreVolumes_safe: "keeps (\<lambda>w. safe_in L n w) (restoreVolumes L E n)"
proof -
  have "keeps (\<lambda>w. safe_in L n w) (restoreVolume L E n info)" for info
    unfolding restoreVolume_def discover_publish_paths_def
    by (intro keeps_rules removal.keeps_live node_safe.keeps_store removal.keeps_getMountDevice
        removal.keeps_findPublishPaths TrueI)
  then have "keeps (\<lambda>w. safe_in L n w) (restore_all L E n infos)" for infos
    by (induction infos) (auto intro!: keeps_rules)
  then show ?thesis
    unfolding restoreVolumes_def
    by (intro keeps_rules removal.keeps_call) (simp add: is_removal_def)
qed

text \<open>
  The plugin starts in a good state: whatever it finds, the volume map of a new node server is
  well formed, and the emptying of the cache directory removes nothing but what the directory
  holds, so a removal-safe history stays so.
\<close>

theorem NewNodeServer_starts_well:
  assumes "removal_safe (path_clean (cache_base L n)) h"
    and "\<And>h p fs f. fs_Glob E h p = Inr fs \<Longrightarrow> f \<in> set fs \<Longrightarrow> path_inside (path_dir p) f"
    and "path_is_abs (CacheDir n)"
  shows "node_inv (NewNodeServer L E n h) \<and> safe_in L n (NewNodeServer L E n h)"
proof -
  let ?base = "path_clean (CacheDir n)"
  have base: "path_clean (cache_base L n) = ?base"
    using assms(3) by (auto simp: cache_base_def path_is_abs_def has_prefix_def)
  obtain es where es: "list_all plain_elem es" "?base = abs_path es"
    using path_clean_rooted [OF assms(3)] by metis
  have "list_all plain_elem (es @ [''*''])" using es by (simp add: plain_elem_def)
  then have "path_dir (path_join [?base, ''*'']) = ?base"
    by (simp add: es(2) path_join_abs_path_elem)
  then have content: "keeps (\<lambda>w. safe_in L n w) (removeDirContent E ?base)"
    using assms(2) [of _ "path_join [?base, ''*'']"] unfolding base
    by (intro keeps_removeDirContent_safe) auto
  have start: "safe_in L n (empty_node h [])" "node_inv (empty_node h [])"
    using assms(1) by (simp_all add: empty_node_def node_inv_def)
  show ?thesis
    unfolding NewNodeServer_def
    by (intro conjI keeps_run [where I = "\<lambda>w. safe_in L n w", OF _ start(1)]
        keeps_run [where I = node_inv, OF _ start(2)] keeps_bind keeps_if keeps_return
        keeps_removeDirContent_inv content keeps_restoreVolumes_safe
        keeps_restoreVolumes_inv)
qed

theorem NewNodeServer_starts_well_witness:
  "node_inv (NewNodeServer demo_libs (restart_env\<lparr>fs_Glob := \<lambda>h p. Inr []\<rparr>)
     (demo_driver\<lparr>CacheDir := ''/c''\<rparr>) [])"
  by (rule NewNodeServer_starts_well [THEN conjunct1]) (simp_all add: path_is_abs_def has_prefix_def)

end
