(* ===== verification/MountManager.thy ===== *)
theory MountManager
  imports RemovalSafety
begin

text \<open>
  The mount service (pkg/mountmanager/manager.go): it owns the weed mount processes, one per
  volume. \<open>Mount\<close>, \<open>Unmount\<close> and \<open>List\<close> are actions on the manager's state; the goroutines
  that run beside them (\<open>wait\<close> of every process, \<open>watchProcessExit\<close> of every entry) and the
  death of a process are background steps. The state carries a schedule of such steps, and
  every point where a call may lose the processor (\<open>pause\<close>) runs the next batch of it, so a
  theorem about every schedule is a theorem about every interleaving. Calls for one volume
  exclude each other (theory KeyMutex); calls for other volumes touch other keys.
\<close>

section \<open>State\<close>

text \<open>A process: its channels \<open>exited\<close> and \<open>done\<close> are closed or not.\<close>

record weedMountProcess =
  p_target :: string
  p_exited :: bool
  p_done :: bool

record mountEntry =
  me_volumeID :: string
  me_targetPath :: string
  me_cacheDir :: string
  me_localSocket :: string
  me_volumeContext :: gomap
  me_readOnly :: bool
  me_process :: nat

datatype background_step =
  ProcessExits nat
| CleanupRuns nat
| WatcherRuns string mountEntry

text \<open>
  \<open>procs\<close> maps a process address to the process; an entry is its own pointer, since every
  entry is made with its own process. \<open>watchers\<close> are the \<open>watchProcessExit\<close> goroutines that
  have not yet returned.
\<close>

record manager = world +
  mounts :: "(string \<times> mountEntry) list"
  procs :: "nat \<Rightarrow> weedMountProcess option"
  watchers :: "(string \<times> mountEntry) list"
  next_pid :: nat
  sched :: "background_step list list"

type_synonym ('m, 'a) mio = "('m manager_scheme, 'a) state"

text \<open>What the operating system answers about processes.\<close>

record procenv =
  cmd_Pipe :: "event list \<Rightarrow> string \<Rightarrow> err option"
  cmd_Start :: "event list \<Rightarrow> string \<Rightarrow> string list \<Rightarrow> err option"
  done_wait :: "event list \<Rightarrow> nat \<Rightarrow> nat \<Rightarrow> bool"

definition exited :: "nat \<Rightarrow> 'm manager_scheme \<Rightarrow> bool" where
  "exited pid w = (case procs w pid of None \<Rightarrow> False | Some p \<Rightarrow> p_exited p)"

definition is_done :: "nat \<Rightarrow> 'm manager_scheme \<Rightarrow> bool" where
  "is_done pid w = (case procs w pid of None \<Rightarrow> False | Some p \<Rightarrow> p_done p)"

definition set_proc :: "nat \<Rightarrow> (weedMountProcess \<Rightarrow> weedMountProcess) \<Rightarrow> ('m, unit) mio" where
  "set_proc pid f = modify (\<lambda>w. w\<lparr>procs := (procs w)(pid := map_option f (procs w pid))\<rparr>)"

section \<open>The process goroutines\<close>

text \<open>\<open>wait\<close>: \<open>cmd.Wait\<close> returned, so \<open>exited\<close> is closed; then unmount and close \<open>done\<close>.\<close>

definition wait_exited :: "nat \<Rightarrow> ('m, unit) mio" where
  "wait_exited pid = set_proc pid (\<lambda>p. p\<lparr>p_exited := True\<rparr>)"

definition wait_cleanup :: "env \<Rightarrow> nat \<Rightarrow> ('m, unit) mio" where
  "wait_cleanup E pid = do {
     p \<leftarrow> gets (\<lambda>w. procs w pid);
     (case p of
        None \<Rightarrow> ret ()
      | Some pr \<Rightarrow> do {
          u \<leftarrow> ext (\<lambda>h. mu_Unmount E h (p_target pr)) (EUnmount (p_target pr));
          (case u of
             None \<Rightarrow> ret ()
           | Some err \<Rightarrow> do {
               ext (\<lambda>h. unix_Detach E h (p_target pr)) (ELazyUnmount (p_target pr));
               ret ()
             });
          set_proc pid (\<lambda>p. p\<lparr>p_done := True\<rparr>)
        })
   }"

definition wait :: "env \<Rightarrow> nat \<Rightarrow> ('m, unit) mio" where
  "wait E pid = do { wait_exited pid; wait_cleanup E pid }"

text \<open>The part of \<open>watchProcessExit\<close> after \<open>done\<close> is closed.\<close>

definition watchProcessExit :: "string \<Rightarrow> mountEntry \<Rightarrow> ('m, unit) mio" where
  "watchProcessExit volumeID entry = modify (\<lambda>w.
     case map_of (mounts w) volumeID of
       None \<Rightarrow> w
     | Some existing \<Rightarrow>
         if existing = entry then w\<lparr>mounts := AList.delete volumeID (mounts w)\<rparr> else w)"

fun background :: "env \<Rightarrow> background_step \<Rightarrow> ('m, unit) mio" where
  "background E (ProcessExits pid) = wait_exited pid"
| "background E (CleanupRuns pid) = do {
     ready \<leftarrow> gets (\<lambda>w. exited pid w \<and> \<not> is_done pid w);
     if ready then wait_cleanup E pid else ret ()
   }"
| "background E (WatcherRuns v entry) = do {
     ready \<leftarrow> gets (\<lambda>w. (v, entry) \<in> set (watchers w) \<and> is_done (me_process entry) w);
     if ready then do {
       watchProcessExit v entry;
       modify (\<lambda>w. w\<lparr>watchers := remove1 (v, entry) (watchers w)\<rparr>)
     } else ret ()
   }"

definition pause :: "env \<Rightarrow> ('m, unit) mio" where
  "pause E = do {
     batches \<leftarrow> gets sched;
     (case batches of
        [] \<Rightarrow> ret ()
      | b # bs \<Rightarrow> do { modify (\<lambda>w. w\<lparr>sched := bs\<rparr>); for_each b (background E) })
   }"

section \<open>Starting and stopping a process\<close>

text \<open>
  Waiting \<open>ms\<close> milliseconds for \<open>done\<close>: at once if it is closed; otherwise the environment
  says whether the process goes away in time, and if it does, \<open>wait\<close> has run to its end.
\<close>

definition await_done :: "env \<Rightarrow> procenv \<Rightarrow> nat \<Rightarrow> nat \<Rightarrow> ('m, bool) mio" where
  "await_done E P ms pid = do {
     d \<leftarrow> gets (is_done pid);
     if d then ret True
     else do {
       b \<leftarrow> ext (\<lambda>h. done_wait P h ms pid) (EDoneWait ms pid);
       (if b then wait E pid else ret ());
       ret b
     }
   }"

definition stop :: "env \<Rightarrow> procenv \<Rightarrow> nat \<Rightarrow> ('m, err option) mio" where
  "stop E P pid = do {
     emit (ESignal pid False);
     d \<leftarrow> await_done E P 5000 pid;
     if d then ret None
     else do {
       emit (ESignal pid True);
       d2 \<leftarrow> await_done E P 1000 pid;
       if d2 then ret None
       else ret (Some (errorf ''timed out waiting for weed mount to stop''))
     }
   }"

text \<open>Times in milliseconds; the poll interval is 10.\<close>

function waitForMount :: "env \<Rightarrow> string \<Rightarrow> nat \<Rightarrow> nat \<Rightarrow> ('m, err option) mio" where
  "waitForMount E path timeout elapsed = do {
     r \<leftarrow> ext (\<lambda>h. mu_IsLikelyNotMountPoint E h path) (EIsLikelyNotMountPoint path);
     (case r of
        Inl err \<Rightarrow> ret (Some err)
      | Inr notMount \<Rightarrow>
          if \<not> notMount then ret None
          else do {
            pause E;
            if elapsed + 10 \<ge> timeout then ret (Some (errorf ''timeout waiting for mount''))
            else waitForMount E path timeout (elapsed + 10)
          })
   }"
  by auto
termination
  by (relation "measure (\<lambda>(E, path, timeout, elapsed). timeout - elapsed)") auto

declare waitForMount.simps [simp del]

definition startWeedMountProcess ::
  "env \<Rightarrow> procenv \<Rightarrow> string \<Rightarrow> string list \<Rightarrow> string \<Rightarrow> string \<Rightarrow> ('m, err + nat) mio" where
  "startWeedMountProcess E P command args target volumeID = do {
     p1 \<leftarrow> ext (\<lambda>h. cmd_Pipe P h ''stdout'') (ECmdPipe ''stdout'');
     (case p1 of
        Some e \<Rightarrow> ret (Inl (wrap_err ''creating stdout pipe: '' e))
      | None \<Rightarrow> do {
     p2 \<leftarrow> ext (\<lambda>h. cmd_Pipe P h ''stderr'') (ECmdPipe ''stderr'');
     (case p2 of
        Some e \<Rightarrow> ret (Inl (wrap_err ''creating stderr pipe: '' e))
      | None \<Rightarrow> do {
     s \<leftarrow> ext (\<lambda>h. cmd_Start P h command args) (ECmdStart command args);
     (case s of
        Some e \<Rightarrow> ret (Inl (wrap_err ''starting weed mount: '' e))
      | None \<Rightarrow> do {
     pid \<leftarrow> gets next_pid;
     modify (\<lambda>w. w\<lparr>next_pid := Suc pid, procs := (procs w)(pid \<mapsto>
       \<lparr>p_target = target, p_exited = False, p_done = False\<rparr>)\<rparr>);
     m \<leftarrow> waitForMount E target 10000 0;
     (case m of
        Some err \<Rightarrow> do { stop E P pid; ret (Inl err) }
      | None \<Rightarrow> ret (Inr pid)) }) }) }) }"

section \<open>Requests\<close>

definition validateMountRequest :: "MountRequest \<Rightarrow> err option" where
  "validateMountRequest req =
     (if mr_VolumeID req = '''' then Some (errorf ''volumeId is required'')
      else if mr_TargetPath req = '''' then Some (errorf ''targetPath is required'')
      else if mr_CacheDir req = '''' then Some (errorf ''cacheDir is required'')
      else if mr_LocalSocket req = '''' then Some (errorf ''localSocket is required'')
      else if mr_MountArgs req = [] then Some (errorf ''mountArgs is required'')
      else None)"

definition ensureTargetClean :: "env \<Rightarrow> string \<Rightarrow> ('m, err option) mio" where
  "ensureTargetClean E targetPath = do {
     r \<leftarrow> ext (\<lambda>h. mu_IsLikelyNotMountPoint E h targetPath) (EIsLikelyNotMountPoint targetPath);
     failed \<leftarrow> (case r of
        Inl err \<Rightarrow>
          if is_not_exist err then ret None
          else if is_corrupted_mnt err then do {
            u \<leftarrow> ext (\<lambda>h. mu_Unmount E h targetPath) (EUnmount targetPath);
            (case u of
               None \<Rightarrow> ret None
             | Some unmountErr \<Rightarrow> do {
                 l \<leftarrow> ext (\<lambda>h. unix_Detach E h targetPath) (ELazyUnmount targetPath);
                 (case l of
                    None \<Rightarrow> ret None
                  | Some lazyErr \<Rightarrow> ret (Some (lazyErr\<lparr>err_text :=
                      ''failed to unmount corrupted mount '' @ targetPath @ '': regular unmount: ''
                      @ err_text unmountErr @ ''; lazy unmount: '' @ err_text lazyErr\<rparr>)))
               })
          }
          else ret (Some err)
      | Inr notMnt \<Rightarrow>
          if \<not> notMnt then do {
            u \<leftarrow> ext (\<lambda>h. mu_Unmount E h targetPath) (EUnmount targetPath);
            (case u of
               None \<Rightarrow> ret None
             | Some unmountErr \<Rightarrow> ret (Some (unmountErr\<lparr>err_text :=
                 ''failed to unmount existing mount '' @ targetPath @ '': ''
                 @ err_text unmountErr\<rparr>)))
          }
          else ret None);
     (case failed of
        Some e \<Rightarrow> ret (Some e)
      | None \<Rightarrow> ext (\<lambda>h. os_MkdirAll E h targetPath) (EMkdirAll targetPath))
   }"

definition startMount ::
  "env \<Rightarrow> procenv \<Rightarrow> string \<Rightarrow> MountRequest \<Rightarrow> ('m, err + mountEntry) mio" where
  "startMount E P weedBinary req = do {
     c \<leftarrow> ensureTargetClean E (mr_TargetPath req);
     (case c of
        Some e \<Rightarrow> ret (Inl e)
      | None \<Rightarrow>
          if mr_CacheDir req = '''' then ret (Inl (errorf ''cacheDir is required''))
          else do {
            mk \<leftarrow> ext (\<lambda>h. os_MkdirAll E h (mr_CacheDir req)) (EMkdirAll (mr_CacheDir req));
            (case mk of
               Some e \<Rightarrow> ret (Inl (wrap_err ''creating cache dir: '' e))
             | None \<Rightarrow>
                 if mr_LocalSocket req = '''' then ret (Inl (errorf ''localSocket is required''))
                 else if mr_MountArgs req = [] then ret (Inl (errorf ''mountArgs is required''))
                 else do {
                   process \<leftarrow> startWeedMountProcess E P weedBinary (mr_MountArgs req)
                     (mr_TargetPath req) (mr_VolumeID req);
                   (case process of
                      Inl e \<Rightarrow> ret (Inl e)
                    | Inr pid \<Rightarrow> ret (Inr \<lparr>me_volumeID = mr_VolumeID req,
                        me_targetPath = mr_TargetPath req, me_cacheDir = mr_CacheDir req,
                        me_localSocket = mr_LocalSocket req,
                        me_volumeContext = mr_VolumeContext req,
                        me_readOnly = mr_ReadOnly req, me_process = pid\<rparr>))
                 })
          })
   }"

section \<open>The operations\<close>

definition DefaultWeedBinary :: string where
  "DefaultWeedBinary = ''weed''"

definition NewManager :: "string \<Rightarrow> string" where
  "NewManager weedBinary = (if weedBinary = '''' then DefaultWeedBinary else weedBinary)"

definition getMount :: "string \<Rightarrow> ('m, mountEntry option) mio" where
  "getMount volumeID = gets (\<lambda>w. map_of (mounts w) volumeID)"

definition removeMount :: "string \<Rightarrow> ('m, unit) mio" where
  "removeMount volumeID = modify (\<lambda>w. w\<lparr>mounts := AList.delete volumeID (mounts w)\<rparr>)"

text \<open>Receiving from \<open>done\<close> blocks until \<open>wait\<close> of the exited process has finished.\<close>

definition receive_done :: "env \<Rightarrow> nat \<Rightarrow> ('m, unit) mio" where
  "receive_done E pid = do {
     d \<leftarrow> gets (is_done pid);
     if d then ret () else wait_cleanup E pid
   }"

definition Mount ::
  "env \<Rightarrow> procenv \<Rightarrow> string \<Rightarrow> MountRequest option \<Rightarrow> ('m, err + string) mio" where
  "Mount E P weedBinary reqp =
     (case reqp of
        None \<Rightarrow> ret (Inl (errorf ''mount request is nil''))
      | Some req \<Rightarrow>
     (case validateMountRequest req of
        Some e \<Rightarrow> ret (Inl e)
      | None \<Rightarrow> do {
     pause E;
     existing \<leftarrow> getMount (mr_VolumeID req);
     pause E;
     early \<leftarrow> (case existing of
        None \<Rightarrow> ret None
      | Some entry \<Rightarrow> do {
          dead \<leftarrow> gets (exited (me_process entry));
          if dead then do {
            receive_done E (me_process entry);
            pause E;
            removeMount (mr_VolumeID req);
            ret None
          }
          else if me_targetPath entry = mr_TargetPath req then
            ret (Some (Inr (me_localSocket entry)))
          else ret (Some (Inl (errorf (''volume '' @ mr_VolumeID req @ '' already mounted at ''
            @ me_targetPath entry))))
        });
     (case early of
        Some res \<Rightarrow> ret res
      | None \<Rightarrow> do {
          started \<leftarrow> startMount E P weedBinary req;
          (case started of
             Inl e \<Rightarrow> ret (Inl e)
           | Inr entry \<Rightarrow> do {
               pause E;
               modify (\<lambda>w. w\<lparr>mounts := AList.update (mr_VolumeID req) entry (mounts w)\<rparr>);
               modify (\<lambda>w. w\<lparr>watchers := (mr_VolumeID req, entry) # watchers w\<rparr>);
               ret (Inr (me_localSocket entry))
             })
        })
   }))"

definition Unmount :: "env \<Rightarrow> procenv \<Rightarrow> string option \<Rightarrow> ('m, err option) mio" where
  "Unmount E P reqp =
     (case reqp of
        None \<Rightarrow> ret (Some (errorf ''unmount request is nil''))
      | Some volumeID \<Rightarrow>
          if volumeID = '''' then ret (Some (errorf ''volumeId is required''))
          else do {
            pause E;
            existing \<leftarrow> getMount volumeID;
            (case existing of
               None \<Rightarrow> ret None
             | Some entry \<Rightarrow> do {
                 pause E;
                 s \<leftarrow> stop E P (me_process entry);
                 (case s of
                    Some e \<Rightarrow> ret (Some e)
                  | None \<Rightarrow> do {
                      ext (\<lambda>h. os_RemoveAll E h (me_cacheDir entry))
                        (ERemoveAll (me_cacheDir entry));
                      pause E;
                      removeMount volumeID;
                      ret None
                    })
               })
          })"

definition mount_info :: "mountEntry \<Rightarrow> MountInfo" where
  "mount_info entry = \<lparr>mi_VolumeID = me_volumeID entry, mi_TargetPath = me_targetPath entry,
     mi_CacheDir = me_cacheDir entry, mi_LocalSocket = me_localSocket entry,
     mi_VolumeContext = me_volumeContext entry, mi_ReadOnly = me_readOnly entry\<rparr>"

text \<open>The order of the list is the map's, which Go leaves open: \<open>mounts\<close> is any such order.\<close>

definition List :: "env \<Rightarrow> ('m, MountInfo list) mio" where
  "List E = do {
     entries \<leftarrow> gets (\<lambda>w. map snd (mounts w));
     pause E;
     gets (\<lambda>w. map mount_info (filter (\<lambda>entry. \<not> exited (me_process entry) w) entries))
   }"

end
