(* ===== verification/ManagerInvariant.thy ===== *)
theory ManagerInvariant
  imports MountManager
begin

text \<open>
  Invariants of the mount manager. The locale \<open>manager_invariant\<close> lists what a predicate on
  the manager's state must survive (recorded calls, a process exit, the cleanup of an exited
  process, a watcher, a new process); its lemmas carry such a predicate through every helper
  under every schedule. It is interpreted on \<open>evolved\<close>, which relates the state of a call's
  start to every later one, and gives the properties of \<open>Mount\<close>, \<open>Unmount\<close> and \<open>List\<close>.
\<close>

section \<open>Invariants under every schedule\<close>

abbreviation with_exit :: "nat \<Rightarrow> 'm manager_scheme \<Rightarrow> 'm manager_scheme" where
  "with_exit pid w \<equiv>
     w\<lparr>procs := (procs w)(pid := map_option (\<lambda>p. p\<lparr>p_exited := True\<rparr>) (procs w pid))\<rparr>"

abbreviation with_done :: "nat \<Rightarrow> 'm manager_scheme \<Rightarrow> 'm manager_scheme" where
  "with_done pid w \<equiv>
     w\<lparr>procs := (procs w)(pid := map_option (\<lambda>p. p\<lparr>p_done := True\<rparr>) (procs w pid))\<rparr>"

definition with_watch :: "string \<Rightarrow> mountEntry \<Rightarrow> 'm manager_scheme \<Rightarrow> 'm manager_scheme" where
  "with_watch v entry w =
     w\<lparr>mounts := (if map_of (mounts w) v = Some entry then AList.delete v (mounts w) else mounts w),
       watchers := remove1 (v, entry) (watchers w)\<rparr>"

abbreviation with_start :: "string \<Rightarrow> 'm manager_scheme \<Rightarrow> 'm manager_scheme" where
  "with_start target w \<equiv> w\<lparr>next_pid := Suc (next_pid w), procs := (procs w)(next_pid w \<mapsto>
     \<lparr>p_target = target, p_exited = False, p_done = False\<rparr>)\<rparr>"

locale manager_invariant =
  fixes I :: "'m manager_scheme \<Rightarrow> bool"
  assumes inv_hist: "I w \<Longrightarrow> I (w\<lparr>hist := h\<rparr>)"
    and inv_sched: "I w \<Longrightarrow> I (w\<lparr>sched := bs\<rparr>)"
    and inv_exit: "I w \<Longrightarrow> I (with_exit pid w)"
    and inv_done: "I w \<Longrightarrow> exited pid w \<Longrightarrow> I (with_done pid w)"
    and inv_watch: "I w \<Longrightarrow> (v, entry) \<in> set (watchers w) \<Longrightarrow> is_done (me_process entry) w \<Longrightarrow>
      I (with_watch v entry w)"
    and inv_start: "I w \<Longrightarrow> I (with_start target w)"
begin

lemma keeps_ext: "keeps I (ext ask ev)"
  by (simp add: keeps_def inv_hist)

lemma keeps_emit: "keeps I (emit ev)"
  by (simp add: keeps_def inv_hist)

lemma cleanup_exited:
  assumes "I w" and "exited pid w" and "run_state (wait_cleanup E pid) w = (r, w')"
  shows "I w'"
proof -
  have eq: "w\<lparr>hist := h, procs := f\<rparr> = (w\<lparr>procs := f\<rparr>)\<lparr>hist := h\<rparr>" for h f
    by (cases w) simp
  have "I (with_done pid w)" using assms(1,2) by (rule inv_done)
  then show ?thesis
    using assms inv_hist
    by (auto simp: wait_cleanup_def set_proc_def exited_def eq split: option.splits)
qed

lemma keeps_wait_exited: "keeps I (wait_exited pid)"
  by (simp add: keeps_def wait_exited_def set_proc_def inv_exit)

lemma keeps_wait: "keeps I (wait E pid)"
proof (rule keepsI)
  fix w r w' assume "I w" and run: "run_state (wait E pid) w = (r, w')"
  then have 1: "I (with_exit pid w)" by (intro inv_exit)
  show "I w'"
  proof (cases "procs w pid")
    case None
    then show ?thesis
      using run 1 by (auto simp: wait_def wait_exited_def wait_cleanup_def set_proc_def)
  next
    case (Some p)
    then have "exited pid (with_exit pid w)" by (simp add: exited_def)
    then show ?thesis
      using run cleanup_exited [OF 1] by (auto simp: wait_def wait_exited_def set_proc_def)
  qed
qed

lemma keeps_background: "keeps I (background E b)"
proof (cases b)
  case (ProcessExits pid)
  then show ?thesis by (simp add: keeps_wait_exited)
next
  case (CleanupRuns pid)
  then show ?thesis
    by (auto simp: keeps_def) (metis cleanup_exited prod.collapse)
next
  case (WatcherRuns v entry)
  show ?thesis
  proof (rule keepsI)
    fix w r w' assume I: "I w" and run: "run_state (background E b) w = (r, w')"
    show "I w'"
    proof (cases "(v, entry) \<in> set (watchers w) \<and> is_done (me_process entry) w")
      case True
      then have "w' = with_watch v entry w"
        using run by (auto simp: WatcherRuns watchProcessExit_def with_watch_def
            split: option.splits if_splits)
      then show ?thesis using I True inv_watch by auto
    next
      case False
      then have "w' = w" using run by (auto simp: WatcherRuns split: if_splits)
      then show ?thesis using I by simp
    qed
  qed
qed

lemma keeps_sched: "keeps I (modify (\<lambda>w. w\<lparr>sched := bs\<rparr>))"
  by (simp add: keeps_def inv_sched)

lemma keeps_pause: "keeps I (pause E)"
  unfolding pause_def
  by (rule keeps_bind, rule keeps_gets, split list.split)
     (intro conjI allI impI keeps_rules keeps_background keeps_sched)

lemma keeps_await: "keeps I (await_done E P ms pid)"
  unfolding await_done_def by (intro keeps_rules keeps_ext keeps_wait)

lemma keeps_stop: "keeps I (stop E P pid)"
  unfolding stop_def by (intro keeps_rules keeps_emit keeps_await)

lemma keeps_waitForMount: "keeps I (waitForMount E path timeout elapsed)"
proof (induction E path timeout elapsed rule: waitForMount.induct)
  case (1 E path timeout elapsed)
  show ?case
    by (subst waitForMount.simps) (intro keeps_rules keeps_ext keeps_pause 1; simp)
qed

lemma keeps_ensureTargetClean: "keeps I (ensureTargetClean E path)"
  unfolding ensureTargetClean_def by (intro keeps_rules keeps_ext)

lemma keeps_startWeed: "keeps I (startWeedMountProcess E P command args target v)"
proof -
  have start: "State_Monad.bind (gets next_pid) (\<lambda>pid. State_Monad.bind (modify (\<lambda>w.
        w\<lparr>next_pid := Suc pid, procs := (procs w)(pid \<mapsto>
          \<lparr>p_target = target, p_exited = False, p_done = False\<rparr>)\<rparr>)) (\<lambda>_. k pid))
      = State_Monad.bind (State (\<lambda>w. (next_pid w, with_start target w))) k"
    for k :: "nat \<Rightarrow> ('m, 'b) mio"
    by (simp add: State_Monad.bind_def gets_def State_Monad.update_def State_Monad.set_def
        State_Monad.get_def)
  have "keeps I (State (\<lambda>w. (next_pid w, with_start target w)))"
    by (simp add: keeps_def inv_start)
  then show ?thesis
    unfolding startWeedMountProcess_def start
    by (intro keeps_rules keeps_ext keeps_waitForMount keeps_stop)
qed

lemma keeps_startMount: "keeps I (startMount E P bin req)"
  unfolding startMount_def
  by (intro keeps_rules keeps_ext keeps_ensureTargetClean keeps_startWeed)

lemma receive_exited:
  assumes "I w" and "exited pid w" and "run_state (receive_done E pid) w = (r, w')"
  shows "I w'"
  using assms cleanup_exited by (auto simp: receive_done_def split: if_splits)

end

section \<open>Well-formed managers and what a call leaves of its start\<close>

definition entry_ok :: "'m manager_scheme \<Rightarrow> string \<times> mountEntry \<Rightarrow> bool" where
  "entry_ok w x \<longleftrightarrow> me_volumeID (snd x) = fst x
     \<and> (\<exists>p. procs w (me_process (snd x)) = Some p \<and> p_target p = me_targetPath (snd x))"

definition mgr_inv :: "'m manager_scheme \<Rightarrow> bool" where
  "mgr_inv w \<longleftrightarrow> distinct (map fst (mounts w)) \<and> set (mounts w) \<subseteq> set (watchers w)
     \<and> (\<forall>x \<in> set (watchers w). entry_ok w x)
     \<and> (\<forall>x \<in> set (watchers w). \<forall>y \<in> set (watchers w).
          me_process (snd x) = me_process (snd y) \<longrightarrow> x = y)
     \<and> (\<forall>pid p. procs w pid = Some p \<longrightarrow> pid < next_pid w \<and> (p_done p \<longrightarrow> p_exited p))"

definition procs_grow :: "'m manager_scheme \<Rightarrow> 'm manager_scheme \<Rightarrow> bool" where
  "procs_grow w0 w \<longleftrightarrow> (\<forall>pid p. procs w0 pid = Some p \<longrightarrow> (\<exists>p'. procs w pid = Some p'
     \<and> p_target p' = p_target p \<and> (p_exited p \<longrightarrow> p_exited p') \<and> (p_done p \<longrightarrow> p_done p')))"

definition evolved :: "'m manager_scheme \<Rightarrow> 'm manager_scheme \<Rightarrow> bool" where
  "evolved w0 w \<longleftrightarrow> mgr_inv w \<and> set (mounts w) \<subseteq> set (mounts w0)
     \<and> set (watchers w) \<subseteq> set (watchers w0) \<and> next_pid w0 \<le> next_pid w \<and> procs_grow w0 w"

definition new_manager :: "background_step list list \<Rightarrow> manager" where
  "new_manager bs = \<lparr>hist = [], probes = [], mounts = [], procs = \<lambda>_. None, watchers = [],
     next_pid = 0, sched = bs\<rparr>"

lemma mgr_inv_new: "mgr_inv (new_manager bs)"
  by (simp add: mgr_inv_def new_manager_def)

lemma evolved_refl: "mgr_inv w \<Longrightarrow> evolved w w"
  by (auto simp: evolved_def procs_grow_def)

lemma evolvedD:
  assumes "evolved w0 w"
  shows "mgr_inv w" and "set (mounts w) \<subseteq> set (mounts w0)"
    and "set (watchers w) \<subseteq> set (watchers w0)" and "next_pid w0 \<le> next_pid w"
    and "procs_grow w0 w"
  using assms by (simp_all add: evolved_def)

lemma procs_grow_trans: "procs_grow u v \<Longrightarrow> procs_grow v w \<Longrightarrow> procs_grow u w"
  unfolding procs_grow_def by metis

lemma evolved_trans: "evolved w0 w1 \<Longrightarrow> evolved w1 w2 \<Longrightarrow> evolved w0 w2"
  unfolding evolved_def by (auto intro: procs_grow_trans)

lemma entry_ok_grow: "entry_ok w x \<Longrightarrow> procs_grow w w' \<Longrightarrow> entry_ok w' x"
  unfolding entry_ok_def procs_grow_def by metis

lemma exited_grow: "procs_grow w0 w \<Longrightarrow> exited pid w0 \<Longrightarrow> exited pid w"
  by (cases "procs w0 pid") (force simp: procs_grow_def exited_def)+

lemma is_done_grow: "procs_grow w0 w \<Longrightarrow> is_done pid w0 \<Longrightarrow> is_done pid w"
  by (cases "procs w0 pid") (force simp: procs_grow_def is_done_def)+

lemma evolved_procs:
  assumes "evolved w0 w" and "mounts w' = mounts w" and "watchers w' = watchers w"
    and "next_pid w \<le> next_pid w'" and "procs_grow w w'"
    and "\<And>pid p. procs w' pid = Some p \<Longrightarrow> pid < next_pid w' \<and> (p_done p \<longrightarrow> p_exited p)"
  shows "evolved w0 w'"
proof -
  have "mgr_inv w'"
    using evolvedD(1) [OF assms(1)] assms(2,3,5,6) unfolding mgr_inv_def
    by (auto intro: entry_ok_grow)
  then show ?thesis
    using evolvedD(2-5) [OF assms(1)] assms(2-5)
    by (auto simp: evolved_def intro: procs_grow_trans)
qed

lemma procs_bounds:
  assumes "evolved w0 w" and "procs w pid = Some p"
  shows "pid < next_pid w" and "p_done p \<Longrightarrow> p_exited p"
  using evolvedD(1) [OF assms(1)] assms(2) by (auto simp: mgr_inv_def)

lemma same_procs:
  assumes "evolved w0 w" and "mounts w' = mounts w" and "watchers w' = watchers w"
    and "procs w' = procs w" and "next_pid w' = next_pid w"
  shows "evolved w0 w'"
  using assms by (intro evolved_procs [OF assms(1)]) (auto simp: procs_grow_def dest: procs_bounds)

lemma evolved_exit:
  assumes "evolved w0 w"
  shows "evolved w0 (with_exit pid w)"
  using procs_bounds [OF assms]
  by (intro evolved_procs [OF assms]) (auto simp: procs_grow_def split: if_splits)

lemma evolved_done:
  assumes "evolved w0 w" and "exited pid w"
  shows "evolved w0 (with_done pid w)"
  using procs_bounds [OF assms(1)] assms(2)
  by (intro evolved_procs [OF assms(1)])
     (auto simp: procs_grow_def exited_def split: if_splits)

lemma evolved_start:
  assumes "evolved w0 w"
  shows "evolved w0 (with_start target w)"
proof (rule evolved_procs [OF assms])
  show "procs_grow w (with_start target w)"
    using procs_bounds(1) [OF assms, of "next_pid w"] by (auto simp: procs_grow_def)
qed (use procs_bounds [OF assms] in \<open>auto intro: less_SucI split: if_splits\<close>)

lemma delete_mount:
  "set (AList.delete v xs) \<subseteq> set xs" "distinct (map fst xs) \<Longrightarrow> distinct (map fst (AList.delete v xs))"
  "x \<in> set (AList.delete v xs) \<Longrightarrow> fst x \<noteq> v"
  by (auto simp: AList.delete_eq distinct_map_filter)

lemma evolved_watch:
  assumes "evolved w0 w"
  shows "evolved w0 (with_watch v entry w)"
proof -
  let ?w = "with_watch v entry w"
  have inv: "mgr_inv w" using assms by (rule evolvedD)
  have sub: "set (mounts ?w) \<subseteq> set (mounts w)" "set (watchers ?w) \<subseteq> set (watchers w)"
    using delete_mount(1) [of v "mounts w"] set_remove1_subset [of "(v, entry)" "watchers w"]
    by (auto simp: with_watch_def)
  have rest: "procs ?w = procs w" "next_pid ?w = next_pid w"
    by (simp_all add: with_watch_def)
  have dist: "distinct (map fst (mounts ?w))"
    using inv delete_mount(2) by (auto simp: with_watch_def mgr_inv_def)
  have "set (mounts ?w) \<subseteq> set (watchers ?w)"
  proof
    fix x assume x: "x \<in> set (mounts ?w)"
    then have "x \<in> set (watchers w)" using sub(1) inv by (auto simp: mgr_inv_def)
    moreover have "x \<noteq> (v, entry)"
      using x inv by (auto simp: with_watch_def mgr_inv_def split: if_splits dest: delete_mount(3))
    ultimately show "x \<in> set (watchers ?w)" by (simp add: with_watch_def)
  qed
  then have "mgr_inv ?w"
    using inv dist subsetD [OF sub(2)] rest by (auto simp: mgr_inv_def entry_ok_def)
  then show ?thesis
    using evolvedD(2-5) [OF assms] sub rest by (auto simp: evolved_def procs_grow_def)
qed

interpretation evolution: manager_invariant "evolved w0" for w0
proof unfold_locales
qed (auto intro: evolved_exit evolved_done evolved_watch evolved_start same_procs)

lemma evolved_delete:
  assumes "evolved w0 w"
  shows "evolved w0 (w\<lparr>mounts := AList.delete v (mounts w)\<rparr>)"
  using assms delete_mount [where v = v and xs = "mounts w"]
  by (auto simp: evolved_def mgr_inv_def entry_ok_def procs_grow_def)

lemma evolved_hist: "evolved w0 w \<Longrightarrow> evolved w0 (w\<lparr>hist := h\<rparr>)"
  by (rule evolution.inv_hist)

text \<open>The background never removes the entry of a process whose cleanup is not over.\<close>

definition live_kept :: "'m manager_scheme \<Rightarrow> 'm manager_scheme \<Rightarrow> bool" where
  "live_kept w0 w \<longleftrightarrow> evolved w0 w
     \<and> (\<forall>x \<in> set (mounts w0). \<not> is_done (me_process (snd x)) w \<longrightarrow> x \<in> set (mounts w))"

lemma live_kept_refl: "mgr_inv w \<Longrightarrow> live_kept w w"
  by (simp add: live_kept_def evolved_refl)

lemma live_kept_step:
  assumes "live_kept w0 w" and "evolved w w'"
    and "\<And>x. x \<in> set (mounts w) \<Longrightarrow> \<not> is_done (me_process (snd x)) w \<Longrightarrow> x \<in> set (mounts w')"
  shows "live_kept w0 w'"
  using assms is_done_grow [OF evolvedD(5) [OF assms(2)]]
  by (auto simp: live_kept_def intro: evolved_trans)

lemma live_kept_same: "live_kept w0 w \<Longrightarrow> evolved w w' \<Longrightarrow> mounts w' = mounts w \<Longrightarrow> live_kept w0 w'"
  by (erule live_kept_step) auto

lemma live_kept_self: "live_kept w0 w \<Longrightarrow> evolved w w"
  unfolding live_kept_def by (blast intro: evolved_refl dest: evolvedD(1))

lemma done_exited: "mgr_inv w \<Longrightarrow> is_done pid w \<Longrightarrow> exited pid w"
  by (auto simp: mgr_inv_def is_done_def exited_def split: option.splits)

interpretation survival: manager_invariant "live_kept w0" for w0
proof unfold_locales
  fix w :: "'a manager_scheme" and v and entry :: mountEntry
  assume kept: "live_kept w0 w" and dead: "is_done (me_process entry) w"
  then have ev: "evolved w0 w" by (simp add: live_kept_def)
  have dist: "distinct (map fst (mounts w))"
    using evolvedD(1) [OF ev] by (simp add: mgr_inv_def)
  show "live_kept w0 (with_watch v entry w)"
  proof (rule live_kept_step [OF kept])
    fix x assume x: "x \<in> set (mounts w)" "\<not> is_done (me_process (snd x)) w"
    have "map_of (mounts w) (fst x) = Some (snd x)" using dist x(1) by simp
    then have "map_of (mounts w) v = Some entry \<Longrightarrow> fst x \<noteq> v" using x(2) dead by auto
    then show "x \<in> set (mounts (with_watch v entry w))"
      using x(1) by (cases x) (auto simp: with_watch_def AList.delete_eq)
  qed (rule evolved_watch [OF live_kept_self [OF kept]])
qed (frule live_kept_self, erule live_kept_same,
  auto intro: evolved_hist evolution.inv_sched evolved_exit evolved_done evolved_start)+

section \<open>What the operations do\<close>

lemmas evolves = keepsD [OF evolution.keeps_pause] keepsD [OF evolution.keeps_stop]
  keepsD [OF evolution.keeps_waitForMount] keepsD [OF evolution.keeps_ensureTargetClean]

lemma known_below:
  assumes "mgr_inv w" and "x \<in> set (watchers w)"
  shows "me_process (snd x) < next_pid w"
  using assms by (fastforce simp: mgr_inv_def entry_ok_def)

definition fresh_process :: "'m manager_scheme \<Rightarrow> string \<Rightarrow> nat \<Rightarrow> 'm manager_scheme \<Rightarrow> bool" where
  "fresh_process w target pid w' \<longleftrightarrow> next_pid w \<le> pid
     \<and> (\<exists>p. procs w' pid = Some p \<and> p_target p = target)
     \<and> (\<forall>x \<in> set (watchers w'). me_process (snd x) \<noteq> pid)"

lemma fresh_process_start:
  assumes "mgr_inv w" and "evolved (with_start target w) w'"
  shows "fresh_process w target (next_pid w) w'"
proof -
  have grow: "procs_grow (with_start target w) w'" and sub: "set (watchers w') \<subseteq> set (watchers w)"
    using evolvedD [OF assms(2)] by auto
  from grow have "\<exists>p. procs w' (next_pid w) = Some p \<and> p_target p = target"
    by (auto simp: procs_grow_def dest: spec [of _ "next_pid w"])
  then show ?thesis
    using known_below [OF assms(1)] subsetD [OF sub] unfolding fresh_process_def by fastforce
qed

lemma fresh_process_mono:
  "fresh_process w1 target pid w' \<Longrightarrow> evolved w w1 \<Longrightarrow> fresh_process w target pid w'"
  by (auto simp: fresh_process_def evolved_def)

lemma startWeedMountProcess_outcome:
  assumes inv: "mgr_inv w"
    and run: "run_state (startWeedMountProcess E P cmd args target v) w = (r, w')"
  shows "evolved w w' \<and> (\<forall>pid. r = Inr pid \<longrightarrow> fresh_process w target pid w')"
proof -
  have hist: "evolved w (w\<lparr>hist := h\<rparr>)" for h by (intro evolved_hist evolved_refl inv)
  have started: "evolved w w' \<and> fresh_process w target (next_pid w) w'"
    if "evolved (with_start target (w\<lparr>hist := h\<rparr>)) w'" for h
  proof -
    have 1: "evolved w (with_start target (w\<lparr>hist := h\<rparr>))"
      by (rule evolved_start) (rule hist)
    have "fresh_process (w\<lparr>hist := h\<rparr>) target (next_pid (w\<lparr>hist := h\<rparr>)) w'"
      by (rule fresh_process_start) (use evolvedD(1) [OF hist] that in auto)
    then have "fresh_process w target (next_pid w) w'"
      using fresh_process_mono hist by fastforce
    with evolved_trans [OF 1 that] show ?thesis by blast
  qed
  have waited: "evolved (with_start target (w\<lparr>hist := h\<rparr>)) s"
    if "run_state (waitForMount E target 10000 0) (w\<lparr>hist := h, next_pid := Suc (next_pid w),
      procs := (procs w)(next_pid w \<mapsto>
        \<lparr>p_target = target, p_exited = False, p_done = False\<rparr>)\<rparr>) = (m, s)" for h m s
  proof (rule evolves(3))
    show "evolved (with_start target (w\<lparr>hist := h\<rparr>)) (with_start target (w\<lparr>hist := h\<rparr>))"
      by (rule evolved_refl, rule evolvedD(1), rule evolved_start, rule hist)
  qed (use that in simp)
  show ?thesis
    using run unfolding startWeedMountProcess_def
    by (auto split: option.splits prod.splits intro: hist
        dest!: waited dest: evolves(2) intro: started [THEN conjunct1] started [THEN conjunct2])
qed

lemma fresh_process_later:
  assumes "fresh_process w0 target pid w" and "evolved w w'"
  shows "fresh_process w0 target pid w'"
proof -
  have "\<exists>p. procs w' pid = Some p \<and> p_target p = target"
    using assms evolvedD(5) [OF assms(2)] unfolding fresh_process_def procs_grow_def by metis
  then show ?thesis
    using assms evolvedD(3) [OF assms(2)] by (auto simp: fresh_process_def)
qed

text \<open>The entry a request is recorded with, given its process.\<close>

definition entry_for :: "MountRequest \<Rightarrow> nat \<Rightarrow> mountEntry" where
  "entry_for req pid = \<lparr>me_volumeID = mr_VolumeID req, me_targetPath = mr_TargetPath req,
     me_cacheDir = mr_CacheDir req, me_localSocket = mr_LocalSocket req,
     me_volumeContext = mr_VolumeContext req, me_readOnly = mr_ReadOnly req,
     me_process = pid\<rparr>"

lemma startMount_outcome:
  assumes inv: "mgr_inv w" and run: "run_state (startMount E P bin req) w = (r, w')"
  shows "evolved w w' \<and> (\<forall>en. r = Inr en \<longrightarrow>
    (\<exists>pid. en = entry_for req pid \<and> fresh_process w (mr_TargetPath req) pid w'))"
proof -
  have clean: "evolved w s"
    if "run_state (ensureTargetClean E (mr_TargetPath req)) w = (c, s)" for c s
    using evolves(4) [OF evolved_refl [OF inv]] that .
  have started: "evolved w s' \<and> (\<forall>pid. q = Inr pid \<longrightarrow> fresh_process w target pid s')"
    if ev: "evolved w s"
      and q: "run_state (startWeedMountProcess E P bin args target v) (s\<lparr>hist := h\<rparr>) = (q, s')"
    for s h args target v q s'
  proof -
    have ev': "evolved w (s\<lparr>hist := h\<rparr>)" using ev by (rule evolved_hist)
    from startWeedMountProcess_outcome [OF evolvedD(1) [OF ev'] q] show ?thesis
      using evolved_trans [OF ev'] fresh_process_mono [OF _ ev'] by blast
  qed
  show ?thesis
    using run unfolding startMount_def
    by (auto split: option.splits prod.splits sum.splits if_splits simp: entry_for_def
        dest!: clean intro: evolved_hist dest: started)
qed

definition with_entry :: "string \<Rightarrow> mountEntry \<Rightarrow> 'm manager_scheme \<Rightarrow> 'm manager_scheme" where
  "with_entry v en w = w\<lparr>mounts := AList.update v en (mounts w), watchers := (v, en) # watchers w\<rparr>"

lemma set_update: "set (AList.update v en xs) \<subseteq> insert (v, en) (set xs)"
  by (induction xs) (auto split: if_splits)

lemma with_entry_inv:
  assumes "mgr_inv w" and "en = entry_for req pid"
    and "fresh_process w0 (mr_TargetPath req) pid w"
  shows "mgr_inv (with_entry (mr_VolumeID req) en w)"
proof -
  let ?w = "with_entry (mr_VolumeID req) en w"
  have fields: "watchers ?w = (mr_VolumeID req, en) # watchers w" "procs ?w = procs w"
    "next_pid ?w = next_pid w" "me_process en = pid"
    using assms(2) by (simp_all add: with_entry_def entry_for_def)
  have "entry_ok ?w (mr_VolumeID req, en)"
    using assms(2,3) fields by (auto simp: entry_ok_def entry_for_def fresh_process_def)
  moreover have "distinct (map fst (mounts ?w))"
    using assms(1) by (simp add: with_entry_def distinct_update mgr_inv_def)
  moreover have "set (mounts ?w) \<subseteq> set (watchers ?w)"
    using set_update [of "mr_VolumeID req" en "mounts w"] assms(1)
    by (auto simp: with_entry_def mgr_inv_def)
  moreover have "entry_ok ?w x" if "x \<in> set (watchers w)" for x
    using assms(1) that fields by (simp add: entry_ok_def mgr_inv_def)
  moreover have "me_process (snd x) \<noteq> pid" if "x \<in> set (watchers w)" for x
    using assms(3) that by (simp add: fresh_process_def)
  ultimately show ?thesis
    using assms(1) fields unfolding mgr_inv_def by (auto; metis)
qed

text \<open>
  How a \<open>Mount\<close> can end: with an error and nothing recorded; with the live entry that was
  there; or with a new entry for a process this call started.
\<close>

definition reused :: "MountRequest \<Rightarrow> mountEntry \<Rightarrow> 'm manager_scheme \<Rightarrow> bool" where
  "reused req en w \<longleftrightarrow> map_of (mounts w) (mr_VolumeID req) = Some en
     \<and> \<not> exited (me_process en) w \<and> me_targetPath en = mr_TargetPath req"

lemma live_kept_evolved: "live_kept w0 w \<Longrightarrow> evolved w0 w"
  by (simp add: live_kept_def)

lemma receive_is_done:
  "run_state (receive_done E pid) s = (u, s1) \<Longrightarrow> procs s pid \<noteq> None \<Longrightarrow> is_done pid s1"
  by (auto simp: receive_done_def wait_cleanup_def set_proc_def is_done_def
      split: option.splits if_splits)

lemma none_later: "evolved w w' \<Longrightarrow> map_of (mounts w) v = None \<Longrightarrow> map_of (mounts w') v = None"
  using image_mono [OF evolvedD(2), of w w' fst] by (auto simp: map_of_eq_None_iff)

text \<open>Removing an entry is harmless once its process is done.\<close>

lemma live_kept_delete:
  assumes "live_kept w s" and "(v, en) \<in> set (mounts w)" and "is_done (me_process en) s"
    and "mgr_inv w"
  shows "live_kept w (s\<lparr>mounts := AList.delete v (mounts s)\<rparr>)"
proof (rule live_kept_step [OF assms(1)])
  show "evolved s (s\<lparr>mounts := AList.delete v (mounts s)\<rparr>)"
    by (rule evolved_delete [OF live_kept_self [OF assms(1)]])
next
  fix x assume x: "x \<in> set (mounts s)" "\<not> is_done (me_process (snd x)) s"
  have "x \<in> set (mounts w)"
    using x(1) evolvedD(2) [OF live_kept_evolved [OF assms(1)]] by blast
  moreover have "distinct (map fst (mounts w))" using assms(4) by (simp add: mgr_inv_def)
  ultimately have "fst x \<noteq> v"
    using x(2) assms(2,3) map_of_is_SomeI [of "mounts w" "fst x" "snd x"] map_of_is_SomeI [of "mounts w" v en]
    by (metis option.inject prod.collapse)
  then show "x \<in> set (mounts (s\<lparr>mounts := AList.delete v (mounts s)\<rparr>))"
    using x(1) by (cases x) (auto simp: AList.delete_eq)
qed

lemma early_outcome:
  assumes kept: "live_kept w s" and en: "(v, en) \<in> set (mounts w)" and inv: "mgr_inv w"
    and run: "run_state (receive_done E (me_process en)) s = (u, s1)" "exited (me_process en) s"
      "run_state (pause E) s1 = (u', s2)"
  shows "live_kept w (s2\<lparr>mounts := AList.delete v (mounts s2)\<rparr>)"
proof (rule live_kept_delete [OF _ en _ inv])
  have 1: "live_kept w s1" using survival.receive_exited [OF kept run(2,1)] .
  show "live_kept w s2" using keepsD [OF survival.keeps_pause 1 run(3)] .
  have "procs s (me_process en) \<noteq> None" using run(2) by (auto simp: exited_def split: option.splits)
  then have "is_done (me_process en) s1" using receive_is_done [OF run(1)] by simp
  moreover have "evolved s1 s2"
    using evolves(1) [OF evolved_refl [OF evolvedD(1) [OF live_kept_evolved [OF 1]]] run(3)] .
  ultimately show "is_done (me_process en) s2"
    using is_done_grow [OF evolvedD(5)] by blast
qed

lemma Mount_outcome:
  assumes inv: "mgr_inv w" and run: "run_state (Mount E P bin (Some req)) w = (r, w')"
  obtains (failed) e where "r = Inl e" and "evolved w w'" and "live_kept w w'"
  | (live) en where "r = Inr (me_localSocket en)" and "evolved w w'" and "reused req en w'"
      and "live_kept w w'"
  | (new) pid s where "r = Inr (mr_LocalSocket req)" and "evolved w s"
      and "fresh_process w (mr_TargetPath req) pid s"
      and "w' = with_entry (mr_VolumeID req) (entry_for req pid) s"
      and "live_kept w s" and "map_of (mounts s) (mr_VolumeID req) = None"
proof -
  let ?v = "mr_VolumeID req"
  consider (invalid) e where "validateMountRequest req = Some e" | (valid) "validateMountRequest req = None"
    by (cases "validateMountRequest req") auto
  then show thesis
  proof cases
    case invalid
    then show thesis
      using failed evolved_refl [OF inv] live_kept_refl [OF inv] run by (auto simp: Mount_def)
  next
    case valid
    obtain u s0 where s0: "run_state (pause E) w = (u, s0)" by (cases "run_state (pause E) w")
    obtain u' s1 where s1: "run_state (pause E) s0 = (u', s1)" by (cases "run_state (pause E) s0")
    have kept0: "live_kept w s0" using keepsD [OF survival.keeps_pause live_kept_refl [OF inv] s0] .
    have kept1: "live_kept w s1" using keepsD [OF survival.keeps_pause kept0 s1] .
    note ev0 = live_kept_evolved [OF kept0] and ev1 = live_kept_evolved [OF kept1]
    have start: thesis
      if kept: "live_kept w s" and none: "map_of (mounts s) ?v = None"
        and q: "run_state (startMount E P bin req) s = (q, s')"
        and fin: "case q of Inl e \<Rightarrow> r = Inl e \<and> w' = s' | Inr en \<Rightarrow> r = Inr (me_localSocket en)
          \<and> w' = with_entry ?v en (snd (run_state (pause E) s'))" for s q s'
    proof -
      note ev = live_kept_evolved [OF kept]
      let ?s = "snd (run_state (pause E) s')"
      from startMount_outcome [OF evolvedD(1) [OF ev] q]
      have out: "evolved s s'" "\<And>en. q = Inr en \<Longrightarrow>
          \<exists>pid. en = entry_for req pid \<and> fresh_process w (mr_TargetPath req) pid s'"
        using fresh_process_mono [OF _ ev] by blast+
      have paused: "evolved s' ?s"
        using evolves(1) [OF evolved_refl [OF evolvedD(1) [OF out(1)]] prod.collapse [symmetric]] .
      have kept': "live_kept w s'" using keepsD [OF survival.keeps_startMount kept q] .
      have kept2: "live_kept w ?s" using keeps_run [OF survival.keeps_pause kept'] .
      have "map_of (mounts ?s) ?v = None" using none_later [OF evolved_trans [OF out(1) paused] none] .
      moreover have "\<And>en. q = Inr en \<Longrightarrow>
          \<exists>pid. en = entry_for req pid \<and> fresh_process w (mr_TargetPath req) pid ?s"
        using out(2) fresh_process_later [OF _ paused] by blast
      ultimately show thesis
        using fin failed new kept' kept2 live_kept_evolved [OF kept'] live_kept_evolved [OF kept2]
        by (cases q) (fastforce simp: entry_for_def)+
    qed
    show thesis
    proof (cases "map_of (mounts s0) ?v")
      case None
      have "evolved s0 s1" using evolves(1) [OF evolved_refl [OF evolvedD(1) [OF ev0]] s1] .
      from start [OF kept1 none_later [OF this None]] show thesis
        using run valid s0 s1 None
        by (auto simp: Mount_def getMount_def with_entry_def split: prod.splits sum.splits)
    next
      case (Some en)
      then have held: "(?v, en) \<in> set (mounts w)"
        using ev0 map_of_SomeD by (fastforce simp: evolved_def)
      show thesis
      proof (cases "exited (me_process en) s1")
        case True
        obtain a s2 where s2: "run_state (receive_done E (me_process en)) s1 = (a, s2)"
          by (cases "run_state (receive_done E (me_process en)) s1")
        obtain b s3 where s3: "run_state (pause E) s2 = (b, s3)" by (cases "run_state (pause E) s2")
        note kept3 = early_outcome [OF kept1 held inv s2 True s3]
        from start [OF kept3] show thesis
          using run valid s0 s1 s2 s3 Some True
          by (auto simp: Mount_def getMount_def removeMount_def with_entry_def AList.delete_conv
              split: prod.splits sum.splits)
      next
        case False
        have "live_kept s0 s1"
          using keepsD [OF survival.keeps_pause live_kept_refl [OF evolvedD(1) [OF ev0]] s1] .
        then have "(?v, en) \<in> set (mounts s1)"
          using map_of_SomeD [OF Some] False done_exited [OF evolvedD(1) [OF ev1]]
          by (force simp: live_kept_def)
        then have "map_of (mounts s1) ?v = Some en"
          using evolvedD(1) [OF ev1] by (intro map_of_is_SomeI) (auto simp: mgr_inv_def)
        then show thesis
          using run valid s0 s1 Some False ev1 kept1 failed live
          by (auto simp: Mount_def getMount_def reused_def split: if_splits)
      qed
    qed
  qed
qed

end
