(* ===== verification/ManagerProps.thy ===== *)
theory ManagerProps
  imports ManagerInvariant
begin

text \<open>
  The properties of the mount service, for every environment and every schedule of the
  goroutines beside a call: what \<open>Mount\<close>, \<open>Unmount\<close> and \<open>List\<close> return and leave behind, and
  what the watchers may remove.
\<close>

section \<open>Removals during a call\<close>

context mount_invariant
begin

lemma keeps_set_proc: "keeps holds (set_proc pid f)"
  unfolding set_proc_def by (rule keeps_modify) simp

lemma keeps_wait_cleanup: "keeps holds (wait_cleanup E pid)"
  unfolding wait_cleanup_def
  by (intro keeps_rules keeps_call keeps_set_proc) (auto simp: is_removal_def)

lemma keeps_wait: "keeps holds (wait E pid)"
  unfolding wait_def wait_exited_def by (intro keeps_rules keeps_set_proc keeps_wait_cleanup)

lemma keeps_background: "keeps holds (background E b)"
  by (cases b) (auto intro!: keeps_rules keeps_set_proc keeps_wait_cleanup keeps_modify
      simp: wait_exited_def watchProcessExit_def split: option.splits)

lemma keeps_pause: "keeps holds (pause E)"
  unfolding pause_def
  by (rule keeps_bind, rule keeps_gets, split list.split)
     (intro conjI allI impI keeps_rules keeps_background keeps_modify; simp)

lemma keeps_await: "keeps holds (await_done E P ms pid)"
  unfolding await_done_def by (intro keeps_rules keeps_call keeps_wait) (auto simp: is_removal_def)

lemma keeps_stop: "keeps holds (stop E P pid)"
  unfolding stop_def
  by (intro keeps_rules keeps_emit keeps_await) (auto simp: is_removal_def)

end

definition no_removal_since :: "event list \<Rightarrow> event list \<Rightarrow> bool" where
  "no_removal_since h0 h \<longleftrightarrow> (\<exists>evs. h = evs @ h0 \<and> \<not> list_ex is_removal evs)"

interpretation no_removal: mount_invariant "no_removal_since h0" for h0
proof unfold_locales
  fix h e assume "no_removal_since h0 h" "\<not> is_removal e"
  then show "no_removal_since h0 (e # h)"
    unfolding no_removal_since_def
    by (metis append_Cons list_ex_iff set_ConsD)
qed

lemma no_removal_refl: "no_removal_since h h"
  by (simp add: no_removal_since_def)

section \<open>Stopping a process\<close>

lemma wait_done: "procs w pid \<noteq> None \<Longrightarrow> is_done pid (snd (run_state (wait E pid) w))"
  by (auto simp: wait_def wait_exited_def wait_cleanup_def set_proc_def is_done_def
      split: option.splits)

lemma await_done_true:
  assumes "run_state (await_done E P ms pid) w = (True, w')" and "procs w pid \<noteq> None"
  shows "is_done pid w'"
  using assms wait_done [of "w\<lparr>hist := EDoneWait ms pid True # hist w\<rparr>" pid E]
  by (auto simp: await_done_def split: if_splits prod.splits)

lemma await_done_known:
  assumes "run_state (await_done E P ms pid) w = (b, w')" and "evolved w0 w" and "procs w pid \<noteq> None"
  shows "procs w' pid \<noteq> None"
proof -
  have "evolved w w'"
    using keepsD [OF evolution.keeps_await evolved_refl assms(1)] evolvedD(1) [OF assms(2)] .
  then show ?thesis using assms(3) by (fastforce simp: evolved_def procs_grow_def)
qed

lemma stop_done:
  assumes "run_state (stop E P pid) w = (None, w')" and "mgr_inv w" and "procs w pid \<noteq> None"
  shows "is_done pid w'"
proof -
  let ?w1 = "w\<lparr>hist := ESignal pid False # hist w\<rparr>"
  obtain b w2 where 1: "run_state (await_done E P 5000 pid) ?w1 = (b, w2)"
    by (cases "run_state (await_done E P 5000 pid) ?w1")
  have ev: "evolved w ?w1" by (intro evolved_hist evolved_refl assms(2))
  show ?thesis
  proof (cases b)
    case True
    then show ?thesis
      using assms(1,3) 1 await_done_true [of E P 5000 pid ?w1 w2] by (auto simp: stop_def)
  next
    case False
    have "procs w2 pid \<noteq> None" using await_done_known [OF 1 ev] assms(3) by simp
    then show ?thesis
      using assms(1) 1 False
        await_done_true [of E P 1000 pid "w2\<lparr>hist := ESignal pid True # hist w2\<rparr>" w']
      by (auto simp: stop_def split: prod.splits if_splits)
  qed
qed

lemma Unmount_outcome:
  assumes inv: "mgr_inv w" and run: "run_state (Unmount E P (Some v)) w = (r, w')"
  shows "evolved w w'"
    and "r = None \<Longrightarrow> map_of (mounts w') v = None"
    and "r = None \<Longrightarrow> map_of (mounts w) v = Some en \<Longrightarrow> is_done (me_process en) w'"
    and "r \<noteq> None \<Longrightarrow> no_removal_since (hist w) (hist w') \<and> live_kept w w'"
    and "live_kept w w'"
proof -
  obtain u s0 where s0: "run_state (pause E) w = (u, s0)" by (cases "run_state (pause E) w")
  obtain u' s1 where s1: "run_state (pause E) s0 = (u', s1)" by (cases "run_state (pause E) s0")
  have kept0: "live_kept w s0" using keepsD [OF survival.keeps_pause live_kept_refl [OF inv] s0] .
  have kept1: "live_kept w s1" using keepsD [OF survival.keeps_pause kept0 s1] .
  have ev0: "evolved w s0" and ev1: "evolved w s1" using kept0 kept1 by (simp_all add: live_kept_def)
  have rm1: "no_removal_since (hist w) (hist s1)"
    using keepsD [OF no_removal.keeps_pause _ s1, of "hist w"]
      keepsD [OF no_removal.keeps_pause _ s0, of "hist w"] no_removal_refl by blast
  have all: "evolved w w' \<and> (r = None \<longrightarrow> map_of (mounts w') v = None)
    \<and> (r = None \<longrightarrow> map_of (mounts w) v = Some en \<longrightarrow> is_done (me_process en) w')
    \<and> (r \<noteq> None \<longrightarrow> no_removal_since (hist w) (hist w')) \<and> live_kept w w'"
  proof (cases "v = '''' \<or> map_of (mounts s0) v = None")
    case True
    show ?thesis
    proof (cases "v = ''''")
      case True
      then show ?thesis
        using run evolved_refl [OF inv] live_kept_refl [OF inv] no_removal_refl [of "hist w"]
        by (auto simp: Unmount_def)
    next
      case False
      with True have none: "map_of (mounts s0) v = None" by blast
      have "is_done (me_process en) s0" if "map_of (mounts w) v = Some en"
      proof (rule ccontr)
        assume "\<not> is_done (me_process en) s0"
        then have "(v, en) \<in> set (mounts s0)"
          using kept0 map_of_SomeD [OF that] by (auto simp: live_kept_def)
        with none show False by (auto simp: map_of_eq_None_iff rev_image_eqI)
      qed
      then show ?thesis
        using run s0 False none ev0 kept0 by (auto simp: Unmount_def getMount_def)
    qed
  next
    case False
    then obtain en0 where en0: "v \<noteq> ''''" "map_of (mounts s0) v = Some en0" by auto
    obtain q s2 where s2: "run_state (stop E P (me_process en0)) s1 = (q, s2)"
      by (cases "run_state (stop E P (me_process en0)) s1")
    have kept2: "live_kept w s2" using keepsD [OF survival.keeps_stop kept1 s2] .
    have rm2: "no_removal_since (hist w) (hist s2)"
      using keepsD [OF no_removal.keeps_stop rm1 s2] .
    show ?thesis
    proof (cases q)
      case (Some e)
      then show ?thesis
        using run s0 s1 s2 en0 kept2 rm2 by (auto simp: Unmount_def getMount_def live_kept_def)
    next
      case None
      let ?s3 = "s2\<lparr>hist := ERemoveAll (me_cacheDir en0) (os_RemoveAll E (hist s2) (me_cacheDir en0))
        # hist s2\<rparr>"
      obtain u3 s3 where s3: "run_state (pause E) ?s3 = (u3, s3)" by (cases "run_state (pause E) ?s3")
      have ev2: "evolved w ?s3" using kept2 by (intro evolved_hist) (simp add: live_kept_def)
      have held: "(v, en0) \<in> set (mounts w)" using en0(2) ev0 by (auto simp: evolved_def dest!: map_of_SomeD)
      have kept3: "live_kept w s3"
        using keepsD [OF survival.keeps_pause survival.inv_hist [OF kept2] s3] .
      note ev3 = live_kept_evolved [OF kept3]
      have same: "en = en0" if "map_of (mounts w) v = Some en"
        using held inv that by (simp add: mgr_inv_def)
      have "evolved s0 s1" using evolves(1) [OF evolved_refl [OF evolvedD(1) [OF ev0]] s1] .
      moreover have "(v, en0) \<in> set (watchers s0)"
        using en0(2) evolvedD(1) [OF ev0] by (auto simp: mgr_inv_def dest!: map_of_SomeD)
      then have "procs s0 (me_process en0) \<noteq> None"
        using evolvedD(1) [OF ev0] by (fastforce simp: mgr_inv_def entry_ok_def)
      ultimately have "procs s1 (me_process en0) \<noteq> None"
        by (fastforce simp: evolved_def procs_grow_def)
      then have "is_done (me_process en0) s2"
        using stop_done [of E P "me_process en0" s1 s2] s2 None evolvedD(1) [OF ev1] by simp
      then have "is_done (me_process en0) ?s3" by (simp add: is_done_def)
      moreover have "evolved ?s3 s3"
        using evolves(1) [OF evolved_refl [OF evolvedD(1) [OF ev2]] s3] .
      ultimately have "is_done (me_process en0) s3"
        using is_done_grow evolvedD(5) by blast
      then show ?thesis
        using run s0 s1 s2 s3 en0 None evolved_delete [OF ev3, of v] same
          live_kept_delete [OF kept3 held _ inv]
        by (auto simp: Unmount_def getMount_def removeMount_def is_done_def AList.delete_conv)
    qed
  qed
  show "evolved w w'" "r = None \<Longrightarrow> map_of (mounts w') v = None"
    "r = None \<Longrightarrow> map_of (mounts w) v = Some en \<Longrightarrow> is_done (me_process en) w'"
    "r \<noteq> None \<Longrightarrow> no_removal_since (hist w) (hist w') \<and> live_kept w w'" "live_kept w w'"
    using all by blast+
qed

section \<open>Concrete managers\<close>

definition calm_proc :: procenv where
  "calm_proc = \<lparr>cmd_Pipe = \<lambda>h n. None, cmd_Start = \<lambda>h c a. None, done_wait = \<lambda>h ms pid. True\<rparr>"

definition demo_request :: MountRequest where
  "demo_request = \<lparr>mr_VolumeID = ''v'', mr_TargetPath = ''/t'', mr_CacheDir = ''/c'',
     mr_MountArgs = [''mount''], mr_LocalSocket = ''/s'', mr_VolumeContext = [(''k'', ''x'')],
     mr_ReadOnly = False\<rparr>"

text \<open>Two managers that own the demo volume: its process runs, or has exited.\<close>

definition demo_manager :: "bool \<Rightarrow> manager" where
  "demo_manager dead = \<lparr>hist = [], probes = [], mounts = [(''v'', entry_for demo_request 0)],
     procs = [0 \<mapsto> \<lparr>p_target = ''/t'', p_exited = dead, p_done = False\<rparr>],
     watchers = [(''v'', entry_for demo_request 0)], next_pid = 1, sched = []\<rparr>"

lemmas demo_simps = demo_manager_def demo_request_def entry_for_def calm_proc_def calm_env_def
  exited_def is_done_def

lemma demo_inv: "mgr_inv (demo_manager dead)"
  by (simp add: mgr_inv_def entry_ok_def demo_simps)

lemma demo_mount:
  "run_state (Mount calm_env calm_proc ''weed'' (Some demo_request)) (demo_manager True)
     = (Inr ''/s'', snd (run_state (Mount calm_env calm_proc ''weed'' (Some demo_request))
         (demo_manager True)))"
  by (simp add: Mount_def validateMountRequest_def pause_def getMount_def removeMount_def
      receive_done_def wait_cleanup_def set_proc_def startMount_def ensureTargetClean_def
      startWeedMountProcess_def waitForMount.simps demo_simps)

section \<open>Mount\<close>

text \<open>
  C18: Every operation of the manager preserves its invariant under every schedule of process
  exits, cleanups and watchers: volume IDs are unique, an entry is stored under its own volume
  ID with its process known and mounted at the entry's target, entries do not share a process,
  every entry has its watcher still running, and \<open>done\<close> is only closed after \<open>exited\<close>.
\<close>

theorem manager_operations_keep_invariant:
  assumes "mgr_inv w"
  shows "mgr_inv (snd (run_state (Mount E P bin req) w))
    \<and> mgr_inv (snd (run_state (Unmount E P v) w))
    \<and> mgr_inv (snd (run_state (List E) w))
    \<and> mgr_inv (snd (run_state (background E b) w))"
proof (intro conjI)
  show "mgr_inv (snd (run_state (background E b) w))"
    using keeps_run [OF evolution.keeps_background [of w] evolved_refl [OF assms]] evolvedD(1)
    by blast
  have "keeps (evolved w) (List E)"
    unfolding List_def by (intro keeps_rules evolution.keeps_pause)
  from keeps_run [OF this evolved_refl [OF assms]] show "mgr_inv (snd (run_state (List E) w))"
    by (rule evolvedD(1))
  show "mgr_inv (snd (run_state (Unmount E P v) w))"
  proof (cases v)
    case None
    then show ?thesis using assms by (simp add: Unmount_def)
  next
    case (Some i)
    then show ?thesis
      using Unmount_outcome(1) [OF assms prod.collapse [symmetric]] evolvedD(1) by blast
  qed
  show "mgr_inv (snd (run_state (Mount E P bin req) w))"
  proof (cases req)
    case None
    then show ?thesis using assms by (simp add: Mount_def)
  next
    case (Some rq)
    show ?thesis
    proof (cases rule: Mount_outcome [OF assms prod.collapse [symmetric], of E P bin rq,
        case_names failed live new])
      case failed
      then show ?thesis using Some evolvedD(1) by blast
    next
      case live
      then show ?thesis using Some evolvedD(1) by blast
    next
      case (new pid s)
      then show ?thesis using Some with_entry_inv [OF evolvedD(1)] by metis
    qed
  qed
qed

theorem manager_operations_keep_invariant_witness:
  "mgr_inv (snd (run_state (Mount calm_env calm_proc ''weed'' (Some demo_request))
     (demo_manager True)))"
  using manager_operations_keep_invariant [OF demo_inv] by blast

text \<open>A process that has exited stays so, whatever the manager does next.\<close>

lemma ended_later:
  "mgr_inv w \<and> exited pid w \<Longrightarrow> (evolved w w \<Longrightarrow> evolved w w') \<Longrightarrow> mgr_inv w' \<and> exited pid w'"
  using exited_grow [OF evolvedD(5)] evolvedD(1) evolved_refl by blast

interpretation ended: manager_invariant "\<lambda>w. mgr_inv w \<and> exited pid w" for pid
  by unfold_locales
     (erule ended_later, rule evolution.inv_hist evolution.inv_sched evolution.inv_exit evolution.inv_done
        evolution.inv_watch evolution.inv_start, assumption+)+

lemma keeps_next_pid: "keeps (\<lambda>w. next_pid w = n) (pause E)"
proof -
  have set_proc: "keeps (\<lambda>w. next_pid w = n) (set_proc pid f)" for pid f
    by (simp add: keeps_def set_proc_def)
  have call: "keeps (\<lambda>w. next_pid w = n) (ext ask ev)" for ask :: "event list \<Rightarrow> 'r" and ev
    by (simp add: keeps_def)
  have background: "keeps (\<lambda>w. next_pid w = n) (background E b)" for b
    by (cases b)
       (auto intro!: keeps_rules set_proc call simp: wait_exited_def wait_cleanup_def,
        auto simp: keeps_def watchProcessExit_def split: option.split)
  have "keeps (\<lambda>w. next_pid w = n) (modify (\<lambda>w. w\<lparr>sched := bs\<rparr>))" for bs by (simp add: keeps_def)
  then show ?thesis
    unfolding pause_def
    by - (rule keeps_bind, rule keeps_gets, split list.split, intro conjI allI impI keeps_rules background)
qed

text \<open>
  Asking for a mount again, under any schedule, if the process of its entry has not exited by the
  end of the call: the answer is the entry's socket, the entry stays, no process is started.
\<close>

lemma Mount_again:
  assumes inv: "mgr_inv w" and en: "map_of (mounts w) (mr_VolumeID req) = Some en"
    and target: "me_targetPath en = mr_TargetPath req" and valid: "validateMountRequest req = None"
    and run: "run_state (Mount E P bin (Some req)) w = (r, w')" and alive: "\<not> exited (me_process en) w'"
  shows "r = Inr (me_localSocket en) \<and> map_of (mounts w') (mr_VolumeID req) = Some en \<and> next_pid w' = next_pid w"
proof -
  let ?v = "mr_VolumeID req" and ?dead = "\<lambda>s. mgr_inv s \<and> exited (me_process en) s"
  obtain u s0 where s0: "run_state (pause E) w = (u, s0)" by (metis surj_pair)
  obtain u' s1 where s1: "run_state (pause E) s0 = (u', s1)" by (metis surj_pair)
  have kept: "live_kept w s0" "live_kept w s1"
    using keepsD [OF survival.keeps_pause live_kept_refl [OF inv] s0] keepsD [OF survival.keeps_pause _ s1] by blast+
  note ev = live_kept_evolved [OF kept(1)] live_kept_evolved [OF kept(2)]
  have held: "map_of (mounts s) ?v = Some en" if "\<not> exited (me_process en) s" "live_kept w s" for s
  proof -
    note evs = live_kept_evolved [OF that(2)]
    have "(?v, en) \<in> set (mounts s)"
      using that map_of_SomeD [OF en] done_exited [OF evolvedD(1) [OF evs]] by (force simp: live_kept_def)
    then show ?thesis using evolvedD(1) [OF evs] by (intro map_of_is_SomeI) (auto simp: mgr_inv_def)
  qed
  have "\<not> exited (me_process en) s1"
  proof
    assume "exited (me_process en) s1"
    then have dead: "?dead s1" using evolvedD(1) [OF ev(2)] by blast
    have finish: "exited (me_process en) w'"
      if "?dead s" "run_state (startMount E P bin req) s = (q, s')"
        "mounted = snd (run_state (pause E) s')" "w' = s' \<or> procs w' = procs mounted" for s q s' mounted
    proof -
      have "?dead s'" by (rule keepsD [OF ended.keeps_startMount that(1,2)])
      moreover from this have "?dead mounted" using keeps_run [OF ended.keeps_pause] that(3) by blast
      ultimately show ?thesis using that(4) by (auto simp: exited_def)
    qed
    show False
    proof (cases "map_of (mounts s0) ?v")
      case None
      then show False
        using run valid s0 s1 alive finish [OF dead]
        by (fastforce simp: Mount_def getMount_def split: prod.splits sum.splits)
    next
      case (Some en2)
      have "(?v, en2) \<in> set (mounts w)" using map_of_SomeD [OF Some] evolvedD(2) [OF ev(1)] by blast
      then have same: "en2 = en" using en inv by (simp add: mgr_inv_def)
      obtain x s2 where s2: "run_state (receive_done E (me_process en)) s1 = (x, s2)" by (metis surj_pair)
      obtain y s3 where s3: "run_state (pause E) s2 = (y, s3)" by (metis surj_pair)
      have "?dead s2" using ended.receive_exited [OF dead _ s2] dead by blast
      then have "?dead s3" using keepsD [OF ended.keeps_pause _ s3] by blast
      then have "?dead (s3\<lparr>mounts := AList.delete ?v (mounts s3)\<rparr>)"
        using evolvedD(1) [OF evolved_delete [OF evolved_refl]] by (auto simp: exited_def)
      then show False
        using run valid s0 s1 s2 s3 Some same dead alive finish
        by (fastforce simp: Mount_def getMount_def removeMount_def split: prod.splits sum.splits)
    qed
  qed
  moreover from this have "\<not> exited (me_process en) s0"
    using keepsD [OF ended.keeps_pause _ s1] evolvedD(1) [OF ev(1)] by blast
  moreover have "next_pid s1 = next_pid w"
    using keepsD [OF keeps_next_pid _ s1] keepsD [OF keeps_next_pid _ s0] by blast
  ultimately show ?thesis
    using run valid s0 s1 held kept target by (auto simp: Mount_def getMount_def split: if_splits)
qed

text \<open>
  C11: \<open>Mount\<close> never reports success for a dead weed mount process (issue #261). When it returns
  a socket, the volume's entry has the requested target and that socket, and its process is
  either one this very call started, or one that has not exited; and a success leaves the
  invariant intact. In particular a process that had exited before the call is never reported.
  (A process this call started may exit before the call returns, after its mount appeared.)
\<close>

theorem Mount_never_reports_dead_process:
  assumes "mgr_inv w" and "run_state (Mount E P bin (Some req)) w = (Inr sock, w')"
  shows "\<exists>en. map_of (mounts w') (mr_VolumeID req) = Some en
    \<and> me_targetPath en = mr_TargetPath req \<and> me_localSocket en = sock
    \<and> \<not> exited (me_process en) w
    \<and> (next_pid w \<le> me_process en \<or> \<not> exited (me_process en) w') \<and> mgr_inv w'"
proof (cases rule: Mount_outcome [OF assms, case_names failed live new])
  case failed
  then show ?thesis by simp
next
  case (live en)
  then show ?thesis
    using exited_grow [OF evolvedD(5) [OF live(2)]] evolvedD(1) [OF live(2)] by (auto simp: reused_def)
next
  case (new pid s)
  have inv: "mgr_inv w'"
    unfolding new(4) by (rule with_entry_inv [OF evolvedD(1) [OF new(2)] refl new(3)])
  have "procs w pid = None"
  proof (rule ccontr)
    assume "procs w pid \<noteq> None"
    then have "pid < next_pid w" using assms(1) by (auto simp: mgr_inv_def)
    then show False using new(3) by (simp add: fresh_process_def)
  qed
  then show ?thesis
    using new inv by (auto simp: with_entry_def update_conv entry_for_def exited_def fresh_process_def)
qed

theorem Mount_never_reports_dead_process_witness:
  "\<exists>en. map_of (mounts (snd (run_state (Mount calm_env calm_proc ''weed'' (Some demo_request))
      (demo_manager True)))) ''v'' = Some en \<and> \<not> exited (me_process en) (demo_manager True)
    \<and> exited 0 (demo_manager True)"
proof -
  have "mr_VolumeID demo_request = ''v''" by (simp add: demo_request_def)
  moreover have "exited 0 (demo_manager True)" by (simp add: demo_simps)
  ultimately show ?thesis
    using Mount_never_reports_dead_process [OF demo_inv demo_mount] by metis
qed

text \<open>
  The watcher of an old process never removes a newer entry: whatever exits, cleanups and
  watchers run, and in whatever order, the entry of a process whose cleanup is not over stays
  (the identity check of \<open>watchProcessExit\<close>), and no background step invents an entry.
\<close>

theorem background_keeps_live_entries:
  assumes "mgr_inv w" and "map_of (mounts w) v = Some en"
    and "\<not> is_done (me_process en) (snd (run_state (for_each bs (background E)) w))"
  shows "map_of (mounts (snd (run_state (for_each bs (background E)) w))) v = Some en
    \<and> set (mounts (snd (run_state (for_each bs (background E)) w))) \<subseteq> set (mounts w)"
proof -
  let ?w = "snd (run_state (for_each bs (background E)) w)"
  have "keeps (live_kept w) (for_each bs (background E))"
    by (rule keeps_for_each) (rule survival.keeps_background)
  then have kept: "live_kept w ?w"
    using live_kept_refl [OF assms(1)] by (rule keeps_run)
  then have "(v, en) \<in> set (mounts ?w)"
    using map_of_SomeD [OF assms(2)] assms(3) by (auto simp: live_kept_def)
  moreover have "distinct (map fst (mounts ?w))" "set (mounts ?w) \<subseteq> set (mounts w)"
    using kept by (auto simp: live_kept_def evolved_def mgr_inv_def)
  ultimately show ?thesis by simp
qed

theorem background_keeps_live_entries_witness:
  "map_of (mounts (snd (run_state (for_each [WatcherRuns ''v'' (entry_for demo_request 0)]
     (background calm_env)) (demo_manager False)))) ''v'' = Some (entry_for demo_request 0)"
proof -
  have "map_of (mounts (demo_manager False)) ''v'' = Some (entry_for demo_request 0)"
    by (simp add: demo_manager_def)
  moreover have "\<not> is_done (me_process (entry_for demo_request 0))
      (snd (run_state (for_each [WatcherRuns ''v'' (entry_for demo_request 0)]
        (background calm_env)) (demo_manager False)))"
    by (simp add: demo_simps)
  ultimately show ?thesis using background_keeps_live_entries [OF demo_inv] by blast
qed

text \<open>
  C39: A dead process's entry goes away on its own: once its process has exited, the rest of
  \<open>wait\<close> and then the entry's watcher (both pending by the invariant) leave no entry for the
  volume, so a later \<open>Mount\<close> starts a fresh process even if \<open>Unmount\<close> is never called.
\<close>

theorem dead_entry_is_cleared:
  assumes "mgr_inv w" and "map_of (mounts w) v = Some en"
  shows "map_of (mounts (snd (run_state (for_each [ProcessExits (me_process en),
      CleanupRuns (me_process en), WatcherRuns v en] (background E)) w))) v = None"
proof -
  let ?pid = "me_process en"
  have watch: "(v, en) \<in> set (watchers w)"
    using assms map_of_SomeD [OF assms(2)] by (auto simp: mgr_inv_def)
  then obtain p where p: "procs w ?pid = Some p"
    using assms(1) by (fastforce simp: mgr_inv_def entry_ok_def)
  show ?thesis
    using assms(2) watch p
    by (auto simp: wait_exited_def set_proc_def wait_cleanup_def exited_def is_done_def
        watchProcessExit_def AList.delete_conv split: option.splits)
qed

theorem dead_entry_is_cleared_witness:
  "map_of (mounts (snd (run_state (for_each [ProcessExits 0, CleanupRuns 0,
      WatcherRuns ''v'' (entry_for demo_request 0)] (background calm_env)) (demo_manager False))))
    ''v'' = None"
proof -
  have "map_of (mounts (demo_manager False)) ''v'' = Some (entry_for demo_request 0)"
    by (simp add: demo_manager_def)
  from dead_entry_is_cleared [OF demo_inv this, of calm_env] show ?thesis
    by (simp add: entry_for_def)
qed

text \<open>
  \<open>Unmount\<close> is all or nothing: on success the volume has no entry and the process it had
  has completely stopped; on an error no directory was removed, and the entry is kept unless
  its process went away by itself.
\<close>

theorem Unmount_all_or_nothing:
  assumes "mgr_inv w" and "run_state (Unmount E P (Some v)) w = (r, w')"
    and "map_of (mounts w) v = Some en"
  shows "case r of
      None \<Rightarrow> map_of (mounts w') v = None \<and> is_done (me_process en) w'
    | Some e \<Rightarrow> no_removal_since (hist w) (hist w')
        \<and> (is_done (me_process en) w' \<or> map_of (mounts w') v = Some en)"
proof (cases r)
  case None
  then show ?thesis using Unmount_outcome(2,3) [OF assms(1,2)] assms(3) by simp
next
  case (Some e)
  then have kept: "no_removal_since (hist w) (hist w')" "live_kept w w'"
    using Unmount_outcome(4) [OF assms(1,2)] by auto
  then have "distinct (map fst (mounts w'))" by (simp add: live_kept_def evolved_def mgr_inv_def)
  then show ?thesis
    using Some kept map_of_SomeD [OF assms(3)] by (auto simp: live_kept_def)
qed

theorem Unmount_all_or_nothing_witness:
  "map_of (mounts (snd (run_state (Unmount calm_env calm_proc (Some ''v'')) (demo_manager False))))
     ''v'' = None"
proof -
  have run: "run_state (Unmount calm_env calm_proc (Some ''v'')) (demo_manager False)
    = (None, snd (run_state (Unmount calm_env calm_proc (Some ''v'')) (demo_manager False)))"
    by (simp add: Unmount_def pause_def getMount_def removeMount_def stop_def await_done_def wait_def
        wait_exited_def wait_cleanup_def set_proc_def demo_simps)
  have "map_of (mounts (demo_manager False)) ''v'' = Some (entry_for demo_request 0)"
    by (simp add: demo_manager_def)
  from Unmount_all_or_nothing [OF demo_inv run this] show ?thesis by simp
qed

text \<open>
  \<open>List\<close> reports exactly the live mounts: each reported volume is an entry of the manager
  with the fields it was mounted with whose process has not exited when it is reported, each
  entry whose process has not exited by then is reported, and no volume is reported twice.
\<close>

theorem List_reports_live_mounts:
  assumes "mgr_inv w" and "run_state (List E) w = (infos, w')"
  shows "set infos = {mount_info en | v en. map_of (mounts w) v = Some en
      \<and> \<not> exited (me_process en) w'} \<and> distinct (map mi_VolumeID infos)"
proof -
  have infos: "infos = map mount_info (filter (\<lambda>en. \<not> exited (me_process en) w') (map snd (mounts w)))"
    using assms(2) by (auto simp: List_def split: prod.splits)
  have dist: "distinct (map fst (mounts w))" using assms(1) by (simp add: mgr_inv_def)
  have "map (mi_VolumeID \<circ> mount_info) (map snd (mounts w)) = map fst (mounts w)"
    using assms(1) by (auto simp: mount_info_def mgr_inv_def entry_ok_def)
  then have "distinct (map mi_VolumeID infos)"
    using dist unfolding infos by (metis distinct_map_filter map_map)
  moreover have "en \<in> snd ` set (mounts w) \<longleftrightarrow> (\<exists>v. map_of (mounts w) v = Some en)" for en
    using dist by force
  ultimately show ?thesis unfolding infos by auto
qed

theorem List_reports_live_mounts_witness:
  "{mount_info en | v en. map_of (mounts (demo_manager False)) v = Some en
      \<and> \<not> exited (me_process en) (demo_manager False)} = {mount_info (entry_for demo_request 0)}"
proof -
  have "run_state (List calm_env) (demo_manager False)
    = ([mount_info (entry_for demo_request 0)], demo_manager False)"
    by (simp add: List_def pause_def demo_simps)
  from List_reports_live_mounts [OF demo_inv this] show ?thesis by simp
qed

end
