(* ===== verification/Service.thy ===== *)
theory Service
  imports ManagerProps
begin

text \<open>
  The mount service as the driver reaches it: the HTTP handlers in front of the manager
  (cmd/seaweedfs-mount/main.go) and the client (pkg/mountmanager/client.go). JSON is the parameter
  \<open>codec\<close>; the Unix socket is the parameter \<open>link\<close>, which may fail before a request is served or
  lose the reply after it, as the client's timeout does. The locale \<open>mount_service\<close> is what a
  caller relies on; the manager provides it, and so does the client over any link.
\<close>

section \<open>JSON\<close>

record codec =
  enc_mount :: "MountRequest \<Rightarrow> string"
  dec_mount :: "string \<Rightarrow> err + MountRequest"
  enc_unmount :: "string \<Rightarrow> string"
  dec_unmount :: "string \<Rightarrow> err + string"
  enc_mounted :: "string \<Rightarrow> string"
  dec_mounted :: "string \<Rightarrow> err + string"
  enc_unmounted :: string
  dec_unmounted :: "string \<Rightarrow> err + unit"
  enc_error :: "string \<Rightarrow> string"
  dec_error :: "string \<Rightarrow> err + string"
  enc_list :: "MountInfo list \<Rightarrow> string"
  dec_list :: "string \<Rightarrow> err + MountInfo list"
  status_line :: "nat \<Rightarrow> string"
  rest_of_body :: "string \<Rightarrow> string"

text \<open>\<open>encoding/json\<close> decodes what it encoded, for the wire types of types.go.\<close>

definition codec_ok :: "codec \<Rightarrow> bool" where
  "codec_ok C \<longleftrightarrow> (\<forall>r. dec_mount C (enc_mount C r) = Inr r) \<and> (\<forall>v. dec_unmount C (enc_unmount C v) = Inr v)
     \<and> (\<forall>s. dec_mounted C (enc_mounted C s) = Inr s) \<and> dec_unmounted C (enc_unmounted C) = Inr ()
     \<and> (\<forall>e. dec_error C (enc_error C e) = Inr e) \<and> (\<forall>l. dec_list C (enc_list C l) = Inr l)"

section \<open>The handlers\<close>

definition makePostHandler ::
  "codec \<Rightarrow> (string \<Rightarrow> err + 'req) \<Rightarrow> ('req \<Rightarrow> ('m, err + 'resp) mio) \<Rightarrow> ('resp \<Rightarrow> string) \<Rightarrow>
   string \<Rightarrow> string \<Rightarrow> ('m, nat \<times> string) mio" where
  "makePostHandler C decode managerFunc encode meth body =
     (if meth \<noteq> ''POST'' then ret (405, enc_error C ''method not allowed'')
      else (case decode body of
              Inl err \<Rightarrow> ret (400, enc_error C (''invalid request: '' @ err_text err))
            | Inr req \<Rightarrow> do {
                r \<leftarrow> managerFunc req;
                ret (case r of
                   Inl err \<Rightarrow> (500, enc_error C (err_text err))
                 | Inr resp \<Rightarrow> (200, encode resp))
              }))"

definition manager_unmount :: "env \<Rightarrow> procenv \<Rightarrow> string \<Rightarrow> ('m, err + unit) mio" where
  "manager_unmount E P v = do {
     r \<leftarrow> Unmount E P (Some v);
     ret (case r of Some err \<Rightarrow> Inl err | None \<Rightarrow> Inr ())
   }"

text \<open>The multiplexer of \<open>main\<close>; an unknown path is answered by \<open>net/http\<close>.\<close>

definition serve_http ::
  "codec \<Rightarrow> env \<Rightarrow> procenv \<Rightarrow> string \<Rightarrow> string \<Rightarrow> string \<Rightarrow> string \<Rightarrow> ('m, nat \<times> string) mio" where
  "serve_http C E P bin meth path body =
     (if path = ''/mount'' then
        makePostHandler C (dec_mount C) (\<lambda>req. Mount E P bin (Some req)) (enc_mounted C) meth body
      else if path = ''/unmount'' then
        makePostHandler C (dec_unmount C) (manager_unmount E P) (\<lambda>_. enc_unmounted C) meth body
      else if path = ''/list'' then
        (if meth \<noteq> ''GET'' then ret (405, '''')
         else do { infos \<leftarrow> List E; ret (200, enc_list C infos) })
      else if path = ''/healthz'' then ret (200, ''ok'')
      else ret (404, ''404 page not found''))"

section \<open>The client\<close>

text \<open>What becomes of a call on the socket.\<close>

datatype link = Delivered | Unreachable err | ReplyLost err

definition exchange ::
  "codec \<Rightarrow> (event list \<Rightarrow> link) \<Rightarrow> env \<Rightarrow> procenv \<Rightarrow> string \<Rightarrow> string \<Rightarrow> string \<Rightarrow> string \<Rightarrow>
   ('m, err + nat \<times> string) mio" where
  "exchange C net E P bin meth path body = do {
     l \<leftarrow> gets (\<lambda>w. net (hist w));
     (case l of
        Unreachable err \<Rightarrow> ret (Inl err)
      | ReplyLost err \<Rightarrow> do { _ \<leftarrow> serve_http C E P bin meth path body; ret (Inl err) }
      | Delivered \<Rightarrow> do { r \<leftarrow> serve_http C E P bin meth path body; ret (Inr r) })
   }"

definition service_error :: "codec \<Rightarrow> nat \<Rightarrow> string \<Rightarrow> err" where
  "service_error C status text =
     errorf (''mount service error: '' @ status_line C status @ '' ('' @ text @ '')'')"

text \<open>\<open>doPost\<close> after the call: the service's error text if there is one, else the status.\<close>

definition doPost_result :: "codec \<Rightarrow> (string \<Rightarrow> err + 'r) \<Rightarrow> err + nat \<times> string \<Rightarrow> err + 'r" where
  "doPost_result C decode x =
     (case x of
        Inl err \<Rightarrow> Inl (wrap_err ''call mount service: '' err)
      | Inr (status, body) \<Rightarrow>
          if status \<ge> 400 then
            (case dec_error C body of
               Inr msg \<Rightarrow> if msg \<noteq> '''' then Inl (errorf msg)
                 else Inl (service_error C status (rest_of_body C body))
             | Inl _ \<Rightarrow> Inl (service_error C status (rest_of_body C body)))
          else
            (case decode body of
               Inl err \<Rightarrow> Inl (wrap_err ''decode response: '' err)
             | Inr out \<Rightarrow> Inr out))"

definition doPost ::
  "codec \<Rightarrow> (event list \<Rightarrow> link) \<Rightarrow> env \<Rightarrow> procenv \<Rightarrow> string \<Rightarrow> string \<Rightarrow> string \<Rightarrow> (string \<Rightarrow> err + 'r) \<Rightarrow>
   ('m, err + 'r) mio" where
  "doPost C net E P bin path payload decode = do {
     x \<leftarrow> exchange C net E P bin ''POST'' path payload;
     ret (doPost_result C decode x)
   }"

definition client_Mount ::
  "codec \<Rightarrow> (event list \<Rightarrow> link) \<Rightarrow> env \<Rightarrow> procenv \<Rightarrow> string \<Rightarrow> MountRequest \<Rightarrow> ('m, err + string) mio" where
  "client_Mount C net E P bin req = doPost C net E P bin ''/mount'' (enc_mount C req) (dec_mounted C)"

definition client_Unmount ::
  "codec \<Rightarrow> (event list \<Rightarrow> link) \<Rightarrow> env \<Rightarrow> procenv \<Rightarrow> string \<Rightarrow> string \<Rightarrow> ('m, err option) mio" where
  "client_Unmount C net E P bin v = do {
     r \<leftarrow> doPost C net E P bin ''/unmount'' (enc_unmount C v) (dec_unmounted C);
     ret (case r of Inl err \<Rightarrow> Some err | Inr _ \<Rightarrow> None)
   }"

definition ErrListUnsupported :: err where
  "ErrListUnsupported = errorf ''mount service does not support /list''"

definition list_result :: "codec \<Rightarrow> err + nat \<times> string \<Rightarrow> err + MountInfo list" where
  "list_result C x =
     (case x of
        Inl err \<Rightarrow> Inl (wrap_err ''call mount service: '' err)
      | Inr (status, body) \<Rightarrow>
          if status = 404 \<or> status = 405 then Inl ErrListUnsupported
          else if status \<ge> 400 then Inl (service_error C status body)
          else
            (case dec_list C body of
               Inl err \<Rightarrow> Inl (wrap_err ''decode response: '' err)
             | Inr out \<Rightarrow> Inr out))"

definition client_List ::
  "codec \<Rightarrow> (event list \<Rightarrow> link) \<Rightarrow> env \<Rightarrow> procenv \<Rightarrow> string \<Rightarrow> ('m, err + MountInfo list) mio" where
  "client_List C net E P bin = do {
     x \<leftarrow> exchange C net E P bin ''GET'' ''/list'' '''';
     ret (list_result C x)
   }"

section \<open>Remote calls\<close>

text \<open>What the caller sees of the manager's result over a link.\<close>

definition seen :: "link \<Rightarrow> err + 'r \<Rightarrow> err + 'r \<Rightarrow> bool" where
  "seen l local remote \<longleftrightarrow>
     (case l of
        Delivered \<Rightarrow>
          (case local of
             Inr s \<Rightarrow> remote = Inr s
           | Inl e \<Rightarrow> isl remote \<and> (err_text e \<noteq> '''' \<longrightarrow> remote = Inl (errorf (err_text e))))
      | _ \<Rightarrow> isl remote)"

lemma doPost_seen:
  assumes "serve_http C E P bin ''POST'' path payload =
      makePostHandler C decode f encode ''POST'' payload"
    and "decode payload = Inr req" and "\<And>s. dec (encode s) = Inr s" and "\<And>e. dec_error C (enc_error C e) = Inr e"
    and "run_state (doPost C net E P bin path payload dec) w = (r, w')"
  shows "(\<exists>q. run_state (f req) w = (q, w') \<and> seen (net (hist w)) q r)
    \<or> (\<exists>e. net (hist w) = Unreachable e) \<and> w' = w \<and> isl r"
proof (cases "net (hist w)")
  case (Unreachable e)
  then show ?thesis using assms(5) by (auto simp: doPost_def exchange_def doPost_result_def)
next
  case Delivered
  obtain q w1 where q: "run_state (f req) w = (q, w1)" by fastforce
  then have "w' = w1 \<and> seen Delivered q r"
    using assms Delivered
    by (cases q) (auto simp: doPost_def exchange_def doPost_result_def makePostHandler_def seen_def)
  then show ?thesis using q Delivered by auto
next
  case (ReplyLost e)
  obtain q w1 where q: "run_state (f req) w = (q, w1)" by fastforce
  then have "w' = w1 \<and> seen (ReplyLost e) q r"
    using assms ReplyLost
    by (auto simp: doPost_def exchange_def doPost_result_def makePostHandler_def seen_def)
  then show ?thesis using q ReplyLost by auto
qed

lemma client_Mount_seen:
  assumes "codec_ok C" and "run_state (client_Mount C net E P bin req) w = (r, w')"
  shows "(\<exists>q. run_state (Mount E P bin (Some req)) w = (q, w') \<and> seen (net (hist w)) q r)
    \<or> (\<exists>e. net (hist w) = Unreachable e) \<and> w' = w \<and> isl r"
  using assms
  by (intro doPost_seen [of C E P bin "''/mount''" "enc_mount C req" "dec_mount C" _ "enc_mounted C" req])
     (auto simp: serve_http_def codec_ok_def client_Mount_def)

lemma client_Unmount_seen:
  assumes "codec_ok C" and "run_state (client_Unmount C net E P bin v) w = (r, w')"
  shows "(\<exists>q. run_state (Unmount E P (Some v)) w = (q, w')
      \<and> seen (net (hist w)) (case q of Some e \<Rightarrow> Inl e | None \<Rightarrow> Inr ()) (case r of Some e \<Rightarrow> Inl e | None \<Rightarrow> Inr ()))
    \<or> (\<exists>e. net (hist w) = Unreachable e) \<and> w' = w \<and> r \<noteq> None"
proof -
  obtain x where x: "run_state (doPost C net E P bin ''/unmount'' (enc_unmount C v) (dec_unmounted C)) w = (x, w')"
    and r: "x = (case r of Some e \<Rightarrow> Inl e | None \<Rightarrow> Inr ())"
    using assms(2) by (auto simp: client_Unmount_def split: prod.splits sum.splits)
  have "(\<exists>q. run_state (manager_unmount E P v) w = (q, w') \<and> seen (net (hist w)) q x)
    \<or> (\<exists>e. net (hist w) = Unreachable e) \<and> w' = w \<and> isl x"
    using assms(1) x
    by (intro doPost_seen [of C E P bin "''/unmount''" "enc_unmount C v" "dec_unmount C" _ "\<lambda>_. enc_unmounted C" v])
       (auto simp: serve_http_def codec_ok_def)
  then show ?thesis
    unfolding r by (auto simp: manager_unmount_def split: prod.splits option.splits)
qed

section \<open>The contract\<close>

locale mount_service =
  fixes inv :: "'s \<Rightarrow> bool" and mounted :: "'s \<Rightarrow> string \<Rightarrow> MountInfo option"
    and mount :: "MountRequest \<Rightarrow> ('s, err + string) state"
    and unmount :: "string \<Rightarrow> ('s, err option) state"
  assumes mount_keeps: "keeps inv (mount req)" and unmount_keeps: "keeps inv (unmount v)"
    and mount_done: "inv s \<Longrightarrow> run_state (mount req) s = (Inr sock, s') \<Longrightarrow>
      \<exists>info. mounted s' (mr_VolumeID req) = Some info \<and> mi_TargetPath info = mr_TargetPath req
        \<and> mi_LocalSocket info = sock"
    and unmount_done: "inv s \<Longrightarrow> run_state (unmount v) s = (None, s') \<Longrightarrow> mounted s' v = None"
begin

text \<open>What a recovery asks of the service: stop the old process, then start a new one.\<close>

lemma remount_done:
  assumes "inv s" and "run_state (unmount (mr_VolumeID req)) s = (None, s1)"
    and "run_state (mount req) s1 = (Inr sock, s2)"
  shows "mounted s1 (mr_VolumeID req) = None \<and> inv s2
    \<and> (\<exists>info. mounted s2 (mr_VolumeID req) = Some info \<and> mi_TargetPath info = mr_TargetPath req)"
  using unmount_done [OF assms(1,2)] keepsD [OF unmount_keeps assms(1,2)] mount_done [OF _ assms(3)]
    keepsD [OF mount_keeps _ assms(3)] by blast

end

definition manager_mounts :: "'m manager_scheme \<Rightarrow> string \<Rightarrow> MountInfo option" where
  "manager_mounts w v = map_option mount_info (map_of (mounts w) v)"

lemma Mount_entry:
  assumes "mgr_inv w" and "run_state (Mount E P bin (Some req)) w = (Inr sock, w')"
  shows "\<exists>en. map_of (mounts w') (mr_VolumeID req) = Some en \<and> me_targetPath en = mr_TargetPath req
    \<and> me_localSocket en = sock \<and> (next_pid w \<le> me_process en \<or> \<not> exited (me_process en) w')"
proof (cases rule: Mount_outcome [OF assms, case_names failed live new])
  case (live en)
  then show ?thesis by (auto simp: reused_def)
next
  case (new pid s)
  then show ?thesis by (auto simp: with_entry_def update_conv' entry_for_def fresh_process_def)
qed simp

text \<open>Where nothing is recorded for the volume, a \<open>Mount\<close> that succeeds has started a process.\<close>

lemma Mount_fresh:
  assumes "mgr_inv w" and "run_state (Mount E P bin (Some req)) w = (Inr sock, w')"
    and "map_of (mounts w) (mr_VolumeID req) = None"
  shows "\<exists>en. map_of (mounts w') (mr_VolumeID req) = Some en \<and> me_targetPath en = mr_TargetPath req
    \<and> me_localSocket en = sock \<and> next_pid w \<le> me_process en"
proof (cases rule: Mount_outcome [OF assms(1,2), case_names failed live new])
  case (live en)
  then have "(mr_VolumeID req, en) \<in> set (mounts w)"
    using evolvedD(2) [OF live(2)] map_of_SomeD by (fastforce simp: reused_def)
  then show ?thesis using assms(3) by (force simp: map_of_eq_None_iff)
qed (auto simp: with_entry_def update_conv' entry_for_def fresh_process_def)

lemma Mount_keeps: "keeps mgr_inv (Mount E P bin (Some req))"
proof (rule keepsI)
  fix w r w' assume inv: "mgr_inv w" and run: "run_state (Mount E P bin (Some req)) w = (r, w')"
  show "mgr_inv w'"
  proof (cases rule: Mount_outcome [OF inv run, case_names failed live new])
    case (new pid s)
    then show ?thesis using with_entry_inv [OF evolvedD(1) [OF new(2)] refl new(3)] by simp
  qed (auto dest: evolvedD(1))
qed

lemma Unmount_keeps: "keeps mgr_inv (Unmount E P (Some v))"
  by (rule keepsI) (auto dest: Unmount_outcome(1) evolvedD(1))

interpretation local_service: mount_service mgr_inv manager_mounts
  "\<lambda>req. Mount E P bin (Some req)" "\<lambda>v. Unmount E P (Some v)" for E P bin
  using Mount_entry
  by unfold_locales (fastforce simp: Mount_keeps Unmount_keeps manager_mounts_def mount_info_def
      dest: Unmount_outcome(2))+

lemma seen_success: "seen l q (Inr s) \<Longrightarrow> q = Inr s"
  by (auto simp: seen_def split: link.splits sum.splits)

lemma client_Mount_success:
  "codec_ok C \<Longrightarrow> run_state (client_Mount C net E P bin req) w = (Inr sock, w') \<Longrightarrow>
   run_state (Mount E P bin (Some req)) w = (Inr sock, w')"
  using client_Mount_seen [of C net E P bin req w "Inr sock" w'] by (auto dest: seen_success)

lemma client_Unmount_success:
  "codec_ok C \<Longrightarrow> run_state (client_Unmount C net E P bin v) w = (None, w') \<Longrightarrow>
   run_state (Unmount E P (Some v)) w = (None, w')"
  using client_Unmount_seen [of C net E P bin v w None w']
  by (auto split: option.splits) (auto simp: seen_def split: link.splits)

lemma client_keeps:
  shows "keeps (\<lambda>w. codec_ok C \<and> mgr_inv w) (client_Mount C net E P bin req)"
    and "keeps (\<lambda>w. codec_ok C \<and> mgr_inv w) (client_Unmount C net E P bin v)"
proof -
  show "keeps (\<lambda>w. codec_ok C \<and> mgr_inv w) (client_Mount C net E P bin req)"
    by (rule keepsI) (metis client_Mount_seen keepsD [OF Mount_keeps])
  show "keeps (\<lambda>w. codec_ok C \<and> mgr_inv w) (client_Unmount C net E P bin v)"
    by (rule keepsI) (metis client_Unmount_seen keepsD [OF Unmount_keeps])
qed

text \<open>Over any link the client keeps the contract: a success is the manager's success.\<close>

interpretation remote_service: mount_service "\<lambda>w. codec_ok C \<and> mgr_inv w" manager_mounts
  "client_Mount C net E P bin" "client_Unmount C net E P bin" for C net E P bin
proof (rule mount_service.intro)
  fix w w' :: "'a manager_scheme" and req sock v
  assume inv: "codec_ok C \<and> mgr_inv w"
  show "\<exists>info. manager_mounts w' (mr_VolumeID req) = Some info \<and> mi_TargetPath info = mr_TargetPath req
      \<and> mi_LocalSocket info = sock"
    if "run_state (client_Mount C net E P bin req) w = (Inr sock, w')"
    using local_service.mount_done [OF _ client_Mount_success [OF _ that]] inv by blast
  show "manager_mounts w' v = None" if "run_state (client_Unmount C net E P bin v) w = (None, w')"
    using local_service.unmount_done [OF _ client_Unmount_success [OF _ that]] inv by blast
qed (rule client_keeps)+

section \<open>A codec\<close>

text \<open>
  A codec that satisfies the law: a list of strings is written with a dot before each character, a
  semicolon after each string and an exclamation mark at the end.
\<close>

definition put :: "string \<Rightarrow> string" where
  "put s = concat (map (\<lambda>c. [CHR ''.'', c]) s) @ '';''"

definition put_list :: "string list \<Rightarrow> string" where
  "put_list xs = concat (map put xs) @ ''!''"

fun get_list :: "string \<Rightarrow> string list \<times> string" where
  "get_list [] = ([], [])"
| "get_list (x # s) =
     (if x = CHR ''!'' then ([], s)
      else if x = CHR '';'' then (case get_list s of (xs, t) \<Rightarrow> ([] # xs, t))
      else (case s of
          [] \<Rightarrow> ([], [])
        | c # s' \<Rightarrow> (case get_list s' of
            ([], t) \<Rightarrow> ([[c]], t)
          | (y # ys, t) \<Rightarrow> ((c # y) # ys, t))))"

lemma get_put: "get_list r = (xs, t) \<Longrightarrow> get_list (put s @ r) = (s # xs, t)"
  by (induction s) (auto simp: put_def)

lemma get_put_list [simp]: "get_list (put_list xs @ t) = (xs, t)"
  by (induction xs) (auto simp: put_list_def intro: get_put)

lemma get_put_last [simp]: "get_list (put_list xs) = (xs, [])"
  using get_put_list [of xs "[]"] by simp

definition demo_enc_info :: "MountInfo \<Rightarrow> string" where
  "demo_enc_info i = put_list [mi_VolumeID i, mi_TargetPath i, mi_CacheDir i, mi_LocalSocket i,
     if mi_ReadOnly i then ''1'' else '''']
     @ put_list (map fst (mi_VolumeContext i)) @ put_list (map snd (mi_VolumeContext i))"

definition demo_dec_info :: "string \<Rightarrow> MountInfo" where
  "demo_dec_info s = (case get_list s of (f, r) \<Rightarrow> case get_list r of (ks, r2) \<Rightarrow>
     \<lparr>mi_VolumeID = f ! 0, mi_TargetPath = f ! 1, mi_CacheDir = f ! 2, mi_LocalSocket = f ! 3,
      mi_VolumeContext = zip ks (fst (get_list r2)), mi_ReadOnly = f ! 4 = ''1''\<rparr>)"

lemma demo_info: "demo_dec_info (demo_enc_info i) = i"
  by (simp add: demo_dec_info_def demo_enc_info_def zip_map_fst_snd)

definition demo_codec :: codec where
  "demo_codec = \<lparr>
     enc_mount = \<lambda>r. put_list (mr_MountArgs r) @ demo_enc_info \<lparr>mi_VolumeID = mr_VolumeID r,
       mi_TargetPath = mr_TargetPath r, mi_CacheDir = mr_CacheDir r, mi_LocalSocket = mr_LocalSocket r,
       mi_VolumeContext = mr_VolumeContext r, mi_ReadOnly = mr_ReadOnly r\<rparr>,
     dec_mount = \<lambda>s. (case get_list s of (args, r) \<Rightarrow> let i = demo_dec_info r in
       Inr \<lparr>mr_VolumeID = mi_VolumeID i, mr_TargetPath = mi_TargetPath i, mr_CacheDir = mi_CacheDir i,
         mr_MountArgs = args, mr_LocalSocket = mi_LocalSocket i, mr_VolumeContext = mi_VolumeContext i,
         mr_ReadOnly = mi_ReadOnly i\<rparr>),
     enc_unmount = \<lambda>v. v, dec_unmount = Inr, enc_mounted = \<lambda>s. s, dec_mounted = Inr,
     enc_unmounted = ''{}'', dec_unmounted = \<lambda>s. Inr (), enc_error = \<lambda>e. e, dec_error = Inr,
     enc_list = \<lambda>l. put_list (map demo_enc_info l),
     dec_list = \<lambda>s. Inr (map demo_dec_info (fst (get_list s))),
     status_line = format_nat, rest_of_body = \<lambda>s. ''''\<rparr>"

lemma demo_codec_ok: "codec_ok demo_codec"
  by (simp add: codec_ok_def demo_codec_def demo_info Let_def comp_def)

lemma client_List_success:
  assumes "codec_ok C" and "net (hist w) = Delivered"
    and "run_state (client_List C net E P bin) w = (Inr infos, w')"
  shows "run_state (List E) w = (infos, w')"
  using assms by (auto simp: client_List_def exchange_def serve_http_def list_result_def codec_ok_def
      split: prod.splits)

section \<open>Concrete calls\<close>

definition demo_net :: "event list \<Rightarrow> link" where
  "demo_net = (\<lambda>h. Delivered)"

definition demo_client_Mount :: "manager \<Rightarrow> (err + string) \<times> manager" where
  "demo_client_Mount = run_state (client_Mount demo_codec demo_net calm_env calm_proc ''weed'' demo_request)"

definition demo_client_Unmount :: "manager \<Rightarrow> err option \<times> manager" where
  "demo_client_Unmount = run_state (client_Unmount demo_codec demo_net calm_env calm_proc ''weed'' ''v'')"

lemma demo_rest: "rest_of_body demo_codec s = ''''"
  by (simp add: demo_codec_def)

lemma demo_net_Delivered: "demo_net h = Delivered"
  by (simp add: demo_net_def)

section \<open>Properties\<close>

lemma delivered_post:
  assumes "net (hist w) = Delivered"
    and "serve_http C E P bin ''POST'' path payload = makePostHandler C decode f encode ''POST'' payload"
    and "decode payload = Inr req" and "\<And>s. dec (encode s) = Inr s" and "\<And>e. dec_error C (enc_error C e) = Inr e"
  shows "run_state (doPost C net E P bin path payload dec) w =
    (case run_state (f req) w of
       (Inr s, w') \<Rightarrow> (Inr s, w')
     | (Inl e, w') \<Rightarrow> (Inl (if err_text e = '''' then service_error C 500 (rest_of_body C (enc_error C ''''))
         else errorf (err_text e)), w'))"
  using assms by (auto simp: doPost_def exchange_def makePostHandler_def doPost_result_def
      split: prod.splits sum.splits)

text \<open>
  C36: Over a working socket the client's calls are the manager's calls: the same effect on the
  manager, the same success value, the same text of an error, for \<open>Mount\<close>, \<open>Unmount\<close> and \<open>List\<close>.
\<close>

theorem client_calls_are_the_managers:
  assumes "codec_ok C" and "net (hist w) = Delivered"
  shows "run_state (client_Mount C net E P bin req) w =
      (case run_state (Mount E P bin (Some req)) w of
         (Inr sock, w') \<Rightarrow> (Inr sock, w')
       | (Inl e, w') \<Rightarrow> (Inl (if err_text e = '''' then service_error C 500 (rest_of_body C (enc_error C ''''))
           else errorf (err_text e)), w'))
    \<and> run_state (client_Unmount C net E P bin v) w =
      (case run_state (Unmount E P (Some v)) w of
         (None, w') \<Rightarrow> (None, w')
       | (Some e, w') \<Rightarrow> (Some (if err_text e = '''' then service_error C 500 (rest_of_body C (enc_error C ''''))
           else errorf (err_text e)), w'))
    \<and> run_state (client_List C net E P bin) w =
      (case run_state (List E) w of (infos, w') \<Rightarrow> (Inr infos, w'))"
proof (intro conjI)
  note ok = assms(1) [unfolded codec_ok_def]
  show "run_state (client_Mount C net E P bin req) w =
      (case run_state (Mount E P bin (Some req)) w of
         (Inr sock, w') \<Rightarrow> (Inr sock, w')
       | (Inl e, w') \<Rightarrow> (Inl (if err_text e = '''' then service_error C 500 (rest_of_body C (enc_error C ''''))
           else errorf (err_text e)), w'))"
    unfolding client_Mount_def
    by (rule delivered_post [where decode = "dec_mount C" and encode = "enc_mounted C"])
       (use ok assms(2) in \<open>simp_all add: serve_http_def\<close>)
  show "run_state (client_Unmount C net E P bin v) w =
      (case run_state (Unmount E P (Some v)) w of
         (None, w') \<Rightarrow> (None, w')
       | (Some e, w') \<Rightarrow> (Some (if err_text e = '''' then service_error C 500 (rest_of_body C (enc_error C ''''))
           else errorf (err_text e)), w'))"
    using assms by (auto simp: client_Unmount_def doPost_def exchange_def serve_http_def
      makePostHandler_def manager_unmount_def doPost_result_def codec_ok_def
      split: prod.splits option.splits)
  show "run_state (client_List C net E P bin) w = (case run_state (List E) w of (infos, w') \<Rightarrow> (Inr infos, w'))"
    using assms by (auto simp: client_List_def exchange_def serve_http_def list_result_def codec_ok_def
      split: prod.splits)
qed

theorem client_calls_are_the_managers_witness:
  "demo_client_Unmount (demo_manager True) =
     (case run_state (Unmount calm_env calm_proc (Some ''v'')) (demo_manager True) of
        (None, w') \<Rightarrow> (None, w')
      | (Some e, w') \<Rightarrow> (Some (if err_text e = '''' then service_error demo_codec 500 ''''
           else errorf (err_text e)), w'))"
  using client_calls_are_the_managers [OF demo_codec_ok, where net = demo_net and w = "demo_manager True"
      and E = calm_env and P = calm_proc and bin = "''weed''" and v = "''v''", OF demo_net_Delivered]
  unfolding demo_client_Unmount_def demo_rest by blast

text \<open>
  A remount through the client, over any link, is a fresh mount: when \<open>Unmount\<close> and then \<open>Mount\<close>
  succeed, nothing is recorded for the volume in between, and afterwards there is an entry with
  the requested target and the returned socket, whose process this \<open>Mount\<close> started.
\<close>

theorem client_remount_is_fresh:
  assumes "codec_ok C" and "mgr_inv w"
    and "run_state (client_Unmount C net E P bin (mr_VolumeID req)) w = (None, w1)"
    and "run_state (client_Mount C net E P bin req) w1 = (Inr sock, w2)"
  shows "map_of (mounts w1) (mr_VolumeID req) = None
    \<and> (\<exists>en. map_of (mounts w2) (mr_VolumeID req) = Some en \<and> me_targetPath en = mr_TargetPath req
        \<and> me_localSocket en = sock \<and> next_pid w1 \<le> me_process en)"
proof -
  have inv: "codec_ok C \<and> mgr_inv w" using assms(1,2) by simp
  have gone: "map_of (mounts w1) (mr_VolumeID req) = None" and inv1: "mgr_inv w1"
    using remote_service.remount_done [OF inv assms(3,4)] keepsD [OF client_keeps(2) inv assms(3)]
    by (auto simp: manager_mounts_def)
  have run: "run_state (Mount E P bin (Some req)) w1 = (Inr sock, w2)"
    using client_Mount_success [OF assms(1,4)] .
  from Mount_fresh [OF inv1 run gone] show ?thesis using gone by simp
qed

lemma demo_remount:
  shows "demo_client_Unmount (demo_manager True) = (None, snd (demo_client_Unmount (demo_manager True)))"
    and "fst (demo_client_Mount (snd (demo_client_Unmount (demo_manager True)))) = Inr ''/s''"
  by (simp_all add: demo_client_Unmount_def demo_client_Mount_def client_Unmount_def client_Mount_def
      doPost_def exchange_def serve_http_def makePostHandler_def manager_unmount_def doPost_result_def
      demo_codec_ok [unfolded codec_ok_def] demo_net_def Mount_def Unmount_def validateMountRequest_def pause_def
      getMount_def removeMount_def stop_def await_done_def wait_def wait_exited_def wait_cleanup_def set_proc_def
      startMount_def ensureTargetClean_def startWeedMountProcess_def waitForMount.simps demo_simps)

theorem client_remount_is_fresh_witness:
  "\<exists>w1 w2 en. demo_client_Unmount (demo_manager True) = (None, w1)
     \<and> map_of (mounts w1) ''v'' = None \<and> demo_client_Mount w1 = (Inr ''/s'', w2)
     \<and> map_of (mounts w2) ''v'' = Some en \<and> next_pid w1 \<le> me_process en"
proof -
  let ?w1 = "snd (demo_client_Unmount (demo_manager True))"
  have m: "demo_client_Mount ?w1 = (Inr ''/s'', snd (demo_client_Mount ?w1))"
    using demo_remount(2) by (metis prod.collapse)
  have v: "mr_VolumeID demo_request = ''v''" by (simp add: demo_request_def)
  show ?thesis
    using client_remount_is_fresh [OF demo_codec_ok demo_inv, where req = demo_request, unfolded v,
        OF demo_remount(1) [unfolded demo_client_Unmount_def] m [unfolded demo_client_Mount_def
          demo_client_Unmount_def]] demo_remount(1) m
    unfolding demo_client_Unmount_def demo_client_Mount_def by (metis prod.collapse)
qed

text \<open>
  C37: A \<open>Mount\<close> whose reply is lost (the client's timeout) fails for the caller although the volume is
  mounted; asking again is safe: whatever processes exit and goroutines run meanwhile, if the second
  request and its reply arrive and the volume's own process has not exited by then, the second call
  returns the socket of the first, the volume keeps its entry and no second process is started.
\<close>

theorem retry_after_lost_reply:
  assumes "codec_ok C" and "mgr_inv w" and "net (hist w) = ReplyLost e" and "net (hist w1) = Delivered"
    and "run_state (Mount E P bin (Some req)) w = (Inr sock, w1)"
    and "run_state (client_Mount C net E P bin req) w1 = (r, w2)"
    and "\<forall>en. map_of (mounts w1) (mr_VolumeID req) = Some en \<longrightarrow> \<not> exited (me_process en) w2"
  shows "(\<exists>e'. run_state (client_Mount C net E P bin req) w = (Inl e', w1))
    \<and> r = Inr sock \<and> map_of (mounts w2) (mr_VolumeID req) = map_of (mounts w1) (mr_VolumeID req)
    \<and> next_pid w2 = next_pid w1"
proof
  show "\<exists>e'. run_state (client_Mount C net E P bin req) w = (Inl e', w1)"
    using assms(1,3,5)
    by (auto simp: client_Mount_def doPost_def exchange_def serve_http_def makePostHandler_def
        doPost_result_def codec_ok_def)
  obtain en where en: "map_of (mounts w1) (mr_VolumeID req) = Some en" "me_targetPath en = mr_TargetPath req"
    "me_localSocket en = sock"
    using Mount_entry [OF assms(2,5)] by blast
  have inv: "mgr_inv w1" using keepsD [OF Mount_keeps assms(2,5)] .
  have valid: "validateMountRequest req = None"
    using assms(5) by (cases "validateMountRequest req") (auto simp: Mount_def)
  obtain q w3 where q: "run_state (Mount E P bin (Some req)) w1 = (q, w3)" by (metis surj_pair)
  then have "w3 = w2"
    using assms(1,4,6)
    by (auto simp: client_Mount_def doPost_def exchange_def serve_http_def makePostHandler_def codec_ok_def
        split: sum.splits prod.splits)
  with Mount_again [OF inv en(1,2) valid q] assms(7) en
  have again: "q = Inr sock" "map_of (mounts w2) (mr_VolumeID req) = Some en" "next_pid w2 = next_pid w1" by auto
  have "r = Inr sock"
    using assms(1,4,6) q again(1)
    by (simp add: client_Mount_def doPost_def exchange_def serve_http_def makePostHandler_def
        doPost_result_def codec_ok_def)
  with again en(1) show "r = Inr sock \<and> map_of (mounts w2) (mr_VolumeID req) = map_of (mounts w1) (mr_VolumeID req)
    \<and> next_pid w2 = next_pid w1" by simp
qed

definition flaky_net :: "event list \<Rightarrow> link" where
  "flaky_net h = (if h = [] then ReplyLost (errorf ''timeout'') else Delivered)"

lemma demo_mount_after:
  "let w1 = snd (run_state (Mount calm_env calm_proc ''weed'' (Some demo_request)) (demo_manager True)) in
   sched w1 = [] \<and> hist w1 \<noteq> [] \<and> map_of (mounts w1) ''v'' = Some (entry_for demo_request 1) \<and> \<not> exited 1 w1"
  by (simp add: Mount_def validateMountRequest_def pause_def getMount_def removeMount_def
      receive_done_def wait_cleanup_def set_proc_def startMount_def ensureTargetClean_def
      startWeedMountProcess_def waitForMount.simps demo_simps Let_def)

theorem retry_after_lost_reply_witness:
  "\<exists>w1 w2. snd (run_state (client_Mount demo_codec flaky_net calm_env calm_proc ''weed'' demo_request)
       (demo_manager True)) = w1
     \<and> run_state (client_Mount demo_codec flaky_net calm_env calm_proc ''weed'' demo_request) w1 = (Inr ''/s'', w2)
     \<and> next_pid w2 = next_pid w1"
proof -
  let ?w1 = "snd (run_state (Mount calm_env calm_proc ''weed'' (Some demo_request)) (demo_manager True))"
  let ?again = "run_state (client_Mount demo_codec flaky_net calm_env calm_proc ''weed'' demo_request) ?w1"
  have v: "mr_VolumeID demo_request = ''v''" by (simp add: demo_request_def)
  have *: "flaky_net (hist (demo_manager True)) = ReplyLost (errorf ''timeout'')" "flaky_net (hist ?w1) = Delivered"
    using demo_mount_after unfolding Let_def flaky_net_def by (auto simp: demo_simps)
  have "snd ?again = ?w1"
    using demo_mount_after *(2) unfolding Let_def
    by (simp add: client_Mount_def doPost_def exchange_def serve_http_def makePostHandler_def Mount_def
        validateMountRequest_def pause_def getMount_def demo_simps demo_codec_ok [unfolded codec_ok_def])
  then have live: "\<forall>en. map_of (mounts ?w1) (mr_VolumeID demo_request) = Some en \<longrightarrow> \<not> exited (me_process en) (snd ?again)"
    using demo_mount_after unfolding Let_def v by (auto simp: entry_for_def)
  from retry_after_lost_reply [OF demo_codec_ok demo_inv * demo_mount prod.collapse [symmetric] live]
  show ?thesis by (metis prod.collapse snd_conv)
qed

end
