(* ===== verification/Restart.thy ===== *)
theory Restart
  imports Restore Service
begin

text \<open>
  A restart of the node plugin next to the mount service: what \<open>restoreVolumes\<close> adopts from the list
  the manager gives through the client.
\<close>

section \<open>What a restore stores\<close>

lemma restore_all_from:
  assumes "run_state (restore_all L E driver infos) w = (n, w')" and "map_of (volumes w') v = Some vol"
  shows "map_of (volumes w) v = Some vol
    \<or> (\<exists>info ps. info \<in> set infos \<and> mi_VolumeID info = v \<and> vol = adopted_volume L driver info ps)"
  using assms
proof (induction infos arbitrary: w n)
  case (Cons info infos)
  obtain added w1 where r: "run_state (restoreVolume L E driver info) w = (added, w1)" by (metis surj_pair)
  then obtain k where "run_state (restore_all L E driver infos) w1 = (k, w')"
    using Cons.prems(1) by (auto split: prod.splits)
  from Cons.IH [OF this Cons.prems(2)] consider
      "\<exists>info ps. info \<in> set infos \<and> mi_VolumeID info = v \<and> vol = adopted_volume L driver info ps"
    | "map_of (volumes w1) v = Some vol" "volumes w1 = volumes w"
    | ps where "map_of (volumes w1) v = Some vol"
        "volumes w1 = AList.update (mi_VolumeID info) (adopted_volume L driver info ps) (volumes w)"
    using restoreVolume_outcome [OF r] by metis
  then show ?case
  proof cases
    case 3
    then show ?thesis by (cases "mi_VolumeID info = v") (auto simp: update_conv')
  qed auto
qed simp

lemma restore_all_dom:
  "run_state (restore_all L E driver infos) w = (n, w') \<Longrightarrow>
   dom (map_of (volumes w)) \<subseteq> dom (map_of (volumes w'))"
proof (induction infos arbitrary: w n)
  case (Cons info infos)
  obtain added w1 where r: "run_state (restoreVolume L E driver info) w = (added, w1)" by (metis surj_pair)
  then obtain k where "run_state (restore_all L E driver infos) w1 = (k, w')"
    using Cons.prems by (auto split: prod.splits)
  from Cons.IH [OF this] show ?case
    using restoreVolume_outcome [OF r] by (cases added) (auto simp: update_conv' dom_def subset_iff)
qed simp

definition adoptable :: "env \<Rightarrow> MountInfo \<Rightarrow> bool" where
  "adoptable E info \<longleftrightarrow> mi_VolumeID info \<noteq> '''' \<and> mi_TargetPath info \<noteq> ''''
     \<and> mount_stays_live E (mi_TargetPath info)"

lemma restoreVolume_adds:
  assumes "adoptable E info" and "newUnmounter driver = None"
    and "run_state (restoreVolume L E driver info) w = (added, w')"
  shows "mi_VolumeID info \<in> dom (map_of (volumes w'))"
proof -
  obtain a w1 where l: "run_state (isStagingPathLive E (mi_TargetPath info)) w = (a, w1)" by (metis surj_pair)
  have "fst (run_state (isStagingPathLive E (mi_TargetPath info)) w)"
    using assms(1)
    by (cases "os_Stat E (hist w) (mi_TargetPath info)")
       (auto simp: adoptable_def mount_stays_live_def isStagingPathLive_def dest: spec [of _ "hist w"])
  then have added
    using assms l by (auto simp: restoreVolume_def adoptable_def store_volume_def split: prod.splits)
  then show ?thesis using restoreVolume_outcome [OF assms(3)] by (auto simp: update_conv')
qed

lemma restore_all_adds:
  assumes "run_state (restore_all L E driver infos) w = (n, w')" and "info \<in> set infos"
    and "adoptable E info" and "newUnmounter driver = None"
  shows "mi_VolumeID info \<in> dom (map_of (volumes w'))"
  using assms(1,2)
proof (induction infos arbitrary: w n)
  case (Cons i infos)
  obtain added w1 where r: "run_state (restoreVolume L E driver i) w = (added, w1)" by (metis surj_pair)
  then obtain k where k: "run_state (restore_all L E driver infos) w1 = (k, w')"
    using Cons.prems(1) by (auto split: prod.splits)
  show ?case
  proof (cases "info = i")
    case True
    then have "mi_VolumeID info \<in> dom (map_of (volumes w1))"
      using restoreVolume_adds [OF assms(3,4)] r by simp
    then show ?thesis using restore_all_dom [OF k] by blast
  next
    case False
    then show ?thesis using Cons.IH [OF k] Cons.prems(2) by simp
  qed
qed simp

lemma restoreVolumes_list:
  assumes "\<And>h. svc_List E h = Inr infos" and "newUnmounter driver = None"
  shows "\<exists>w1. volumes w1 = volumes w
    \<and> run_state (restoreVolumes L E driver) w = run_state (restore_all L E driver infos) w1"
  using assms(2)
  by (auto simp: restoreVolumes_def newUnmounter_def assms(1) intro!: exI [of _ "w\<lparr>hist := _ # hist w\<rparr>"])

section \<open>The restart\<close>

text \<open>
  C21: A restarted plugin monitors exactly what the mount service holds: when the manager's list reaches
  it over the client, each volume it adopts is an entry of the manager whose process runs, with that
  entry's target, context and mode, and each entry whose process runs and whose target stays a live
  mount is adopted, so no live mount falls out of the monitoring.
\<close>

theorem restart_adopts_what_the_manager_holds:
  assumes "mgr_inv m" and "codec_ok C" and "net (hist m) = Delivered"
    and "run_state (client_List C net E' P bin) m = (Inr infos, m')"
    and "\<And>h. svc_List E h = Inr infos" and "newUnmounter driver = None"
    and "run_state (restoreVolumes L E driver) (empty_node h []) = (n, w')"
  shows "(\<forall>v vol. map_of (volumes w') v = Some vol \<longrightarrow>
      (\<exists>en. map_of (mounts m) v = Some en \<and> \<not> exited (me_process en) m'
        \<and> vol_StagedPath vol = me_targetPath en \<and> vol_volContext vol = Some (me_volumeContext en)
        \<and> vol_readOnly vol = me_readOnly en))
    \<and> (\<forall>v en. map_of (mounts m) v = Some en \<longrightarrow> \<not> exited (me_process en) m' \<longrightarrow>
      adoptable E (mount_info en) \<longrightarrow> v \<in> dom (map_of (volumes w')))"
proof -
  have list: "run_state (List E') m = (infos, m')"
    using client_List_success [OF assms(2,3,4)] .
  note infos = List_reports_live_mounts [OF assms(1) list, THEN conjunct1]
  have id: "me_volumeID en = v" if "map_of (mounts m) v = Some en" for v en
  proof -
    have "entry_ok m (v, en)" using map_of_SomeD [OF that] assms(1) unfolding mgr_inv_def by blast
    then show ?thesis by (simp add: entry_ok_def)
  qed
  obtain w1 where w1: "volumes w1 = []" "run_state (restore_all L E driver infos) w1 = (n, w')"
    using restoreVolumes_list [OF assms(5,6), of "empty_node h []" L] assms(7) by (auto simp: empty_node_def)
  have "\<exists>en. map_of (mounts m) v = Some en \<and> \<not> exited (me_process en) m'
      \<and> vol_StagedPath vol = me_targetPath en \<and> vol_volContext vol = Some (me_volumeContext en)
      \<and> vol_readOnly vol = me_readOnly en" if stored: "map_of (volumes w') v = Some vol" for v vol
  proof -
    obtain info ps where i: "info \<in> set infos" "mi_VolumeID info = v" "vol = adopted_volume L driver info ps"
      using restore_all_from [OF w1(2) stored] w1(1) by auto
    from i(1) obtain u en where
      en: "map_of (mounts m) u = Some en" "\<not> exited (me_process en) m'" "info = mount_info en"
      unfolding infos by blast
    have "u = v" using id [OF en(1)] i(2) en(3) by (simp add: mount_info_def)
    moreover have "vol_StagedPath vol = me_targetPath en" "vol_volContext vol = Some (me_volumeContext en)"
      "vol_readOnly vol = me_readOnly en"
      unfolding i(3) en(3) adopted_volume_fields by (simp_all add: mount_info_def)
    ultimately show ?thesis using en(1,2) by blast
  qed
  moreover have "v \<in> dom (map_of (volumes w'))"
    if "map_of (mounts m) v = Some en" "\<not> exited (me_process en) m'" "adoptable E (mount_info en)" for v en
  proof -
    have "mount_info en \<in> set infos" unfolding infos using that(1,2) by blast
    from restore_all_adds [OF w1(2) this that(3) assms(6)] show ?thesis
      using id [OF that(1)] by (simp add: mount_info_def)
  qed
  ultimately show ?thesis by blast
qed

definition listing_env :: env where
  "listing_env = calm_env\<lparr>svc_List := \<lambda>h. Inr [mount_info (entry_for demo_request 0)]\<rparr>"

theorem restart_adopts_what_the_manager_holds_witness:
  "''v'' \<in> dom (map_of (volumes (snd (run_state (restoreVolumes demo_libs listing_env demo_driver) (empty_node [] [])))))"
proof -
  have list: "run_state (client_List demo_codec demo_net calm_env calm_proc ''weed'') (demo_manager False)
    = (Inr [mount_info (entry_for demo_request 0)], demo_manager False)"
    by (simp add: client_List_def exchange_def demo_net_def serve_http_def list_result_def
        demo_codec_ok [unfolded codec_ok_def] List_def pause_def demo_simps)
  have svc: "svc_List listing_env h = Inr [mount_info (entry_for demo_request 0)]" for h
    by (simp add: listing_env_def)
  have client: "newUnmounter demo_driver = None" by code_simp
  have adoptable: "adoptable listing_env (mount_info (entry_for demo_request 0))"
    by (simp add: adoptable_def mount_info_def mount_stays_live_def listing_env_def demo_simps)
  have entry: "map_of (mounts (demo_manager False)) ''v'' = Some (entry_for demo_request 0)"
    "\<not> exited (me_process (entry_for demo_request 0)) (demo_manager False)"
    by (simp_all add: demo_simps)
  from restart_adopts_what_the_manager_holds [OF demo_inv demo_codec_ok demo_net_Delivered list svc client
      prod.collapse [symmetric], THEN conjunct2] entry adoptable
  show ?thesis by blast
qed

end
