(* ===== verification/EndToEnd.thy ===== *)
theory EndToEnd
  imports Restart
begin

text \<open>
  The driver and the mount service together. \<open>service\<close> is a mount service behind a link, with an
  environment and a schedule of its own; \<open>manager_after\<close> replays on its manager the calls a history
  of the driver made, and \<open>with_service\<close> is the driver's environment in which that manager answers
  them. The properties follow a volume from the driver's handlers into the manager's table.
\<close>

section \<open>The composed system\<close>

record service =
  sv_codec :: codec
  sv_net :: "event list \<Rightarrow> link"
  sv_env :: env
  sv_procenv :: procenv
  sv_bin :: string
  sv_start :: manager

definition service_Mount :: "service \<Rightarrow> MountRequest \<Rightarrow> (manager, err + string) state" where
  "service_Mount S = client_Mount (sv_codec S) (sv_net S) (sv_env S) (sv_procenv S) (sv_bin S)"

definition service_Unmount :: "service \<Rightarrow> string \<Rightarrow> (manager, err option) state" where
  "service_Unmount S = client_Unmount (sv_codec S) (sv_net S) (sv_env S) (sv_procenv S) (sv_bin S)"

definition service_List :: "service \<Rightarrow> (manager, err + MountInfo list) state" where
  "service_List S = client_List (sv_codec S) (sv_net S) (sv_env S) (sv_procenv S) (sv_bin S)"

fun manager_after :: "service \<Rightarrow> event list \<Rightarrow> manager" where
  "manager_after S [] = sv_start S"
| "manager_after S (ESvcMount req r # h) = snd (run_state (service_Mount S req) (manager_after S h))"
| "manager_after S (ESvcUnmount v r # h) = snd (run_state (service_Unmount S v) (manager_after S h))"
| "manager_after S (ESvcList r # h) = snd (run_state (service_List S) (manager_after S h))"
| "manager_after S (e # h) = manager_after S h"

definition with_service :: "service \<Rightarrow> env \<Rightarrow> env" where
  "with_service S E = E\<lparr>
     svc_Mount := \<lambda>h req. (case fst (run_state (service_Mount S req) (manager_after S h)) of
       Inl err \<Rightarrow> Some err | Inr _ \<Rightarrow> None),
     svc_Unmount := \<lambda>h v. fst (run_state (service_Unmount S v) (manager_after S h)),
     svc_List := \<lambda>h. fst (run_state (service_List S) (manager_after S h))\<rparr>"

definition service_ok :: "service \<Rightarrow> bool" where
  "service_ok S \<longleftrightarrow> codec_ok (sv_codec S) \<and> mgr_inv (sv_start S)"

section \<open>The manager through a run of the driver\<close>

lemma List_keeps: "keeps mgr_inv (List E)"
  unfolding List_def
  by (intro keeps_rules keepsI) (auto dest: evolves(1) [OF evolved_refl] evolvedD(1))

lemma served_list: "keeps mgr_inv (serve_http C E P bin ''GET'' ''/list'' '''')"
  unfolding serve_http_def by (auto intro!: keeps_bind keeps_return List_keeps)

lemma client_List_keeps: "keeps mgr_inv (client_List C net E P bin)"
  unfolding client_List_def exchange_def
  by (intro keeps_bind keeps_gets keeps_return, split link.splits)
     (intro conjI allI impI keeps_bind keeps_return served_list)

lemma manager_after_inv: "service_ok S \<Longrightarrow> mgr_inv (manager_after S h)"
proof (induction S h rule: manager_after.induct)
  case (2 S req r h)
  then show ?case
    using keeps_run [OF client_keeps(1)] by (force simp: service_ok_def service_Mount_def)
next
  case (3 S v r h)
  then show ?case
    using keeps_run [OF client_keeps(2)] by (force simp: service_ok_def service_Unmount_def)
next
  case (4 S r h)
  then show ?case
    using keeps_run [OF client_List_keeps] by (force simp: service_List_def)
qed (auto simp: service_ok_def)

lemma manager_after_idle: "\<not> is_svc e \<Longrightarrow> manager_after S (e # h) = manager_after S h"
  by (cases e) (auto simp: is_svc_def)

interpretation idle: os_world "\<lambda>w. manager_after S (hist w) = M" "\<lambda>e. \<not> is_svc e" for S M
proof unfold_locales
  show "\<not> is_svc e" if "is_probe e" for e using that by (cases e) (auto simp: is_svc_def is_probe_def)
  show "\<not> is_svc e" if "is_os_call e" for e using that by (cases e) (auto simp: is_svc_def is_os_call_def)
qed (auto simp: manager_after_idle)

lemma idle_stale: "keeps (\<lambda>w. manager_after S (hist w) = M) (cleanupStaleStagingPath E path)"
  unfolding cleanupStaleStagingPath_def cleanupCorruptedStagingPath_def
  by (intro keeps_rules idle.keeps_ext idle.keeps_reset) (auto simp: is_svc_def)

lemma idle_resources: "keeps (\<lambda>w. manager_after S (hist w) = M) (CleanupVolumeResources L E driver v)"
  unfolding CleanupVolumeResources_def Let_def
  by (intro keeps_rules idle.keeps_ext) (auto simp: is_svc_def)

lemma idle_stage_cleanup: "keeps (\<lambda>w. manager_after S (hist w) = M) (stage_cleanup E path)"
  unfolding stage_cleanup_def
  by (intro keeps_rules idle.keeps_ext idle_stale) (auto simp: is_svc_def)

lemmas idle_runs = idle.keeps_checkMount [THEN keepsD, OF refl]
  idle.keeps_Quota [THEN keepsD, OF refl] idle.keeps_loadPersisted [THEN keepsD, OF refl]
  idle.keeps_capacity [THEN keepsD, OF refl] idle.keeps_healthy [THEN keepsD, OF refl]
  idle_stage_cleanup [THEN keepsD, OF refl]

section \<open>Staging and unstaging reach the manager\<close>

text \<open>
  The manager's table has the volume at a target, by a process started since \<open>M\<close> if \<open>M\<close> did not have
  the volume.
\<close>

definition held :: "service \<Rightarrow> manager \<Rightarrow> event list \<Rightarrow> string \<Rightarrow> string \<Rightarrow> bool" where
  "held S M h v target \<longleftrightarrow> (\<exists>en. map_of (mounts (manager_after S h)) v = Some en \<and> me_targetPath en = target
     \<and> (map_of (mounts M) v = None \<longrightarrow> next_pid M \<le> me_process en))"

lemma held_idle:
  "manager_after S h' = manager_after S h \<Longrightarrow> held S M h' v target \<longleftrightarrow> held S M h v target"
  by (simp add: held_def)

lemma mounter_Mount_reaches:
  assumes "service_ok S" and "run_state (mounter_Mount L ord (with_service S E) driver m target) w = (None, w')"
  shows "held S (manager_after S (hist w)) (hist w') (mo_volumeID m) target"
proof -
  let ?m = "manager_after S (hist w)"
  obtain req where req: "mr_VolumeID req = mo_volumeID m" "mr_TargetPath req = target"
    and call: "svc_Mount (with_service S E) (hist w) req = None" and w': "hist w' = ESvcMount req None # hist w"
    using assms(2) by (fastforce simp: mounter_Mount_def Let_def split: if_splits sum.splits)
  obtain sock m1 where s: "run_state (service_Mount S req) ?m = (Inr sock, m1)"
  proof (cases "run_state (service_Mount S req) ?m")
    case (Pair r m1)
    with call that show thesis by (cases r) (simp_all add: with_service_def)
  qed
  have "codec_ok (sv_codec S)" using assms(1) by (simp add: service_ok_def)
  note run = client_Mount_success [OF this s [unfolded service_Mount_def]]
  note inv = manager_after_inv [OF assms(1), of "hist w"]
  obtain en where "map_of (mounts m1) (mr_VolumeID req) = Some en" "me_targetPath en = mr_TargetPath req"
    using Mount_entry [OF inv run] by blast
  moreover from this Mount_fresh [OF inv run]
  have "map_of (mounts ?m) (mr_VolumeID req) = None \<longrightarrow> next_pid ?m \<le> me_process en" by fastforce
  ultimately show ?thesis using req s by (simp add: held_def w')
qed

lemma Stage_reaches:
  assumes "service_ok S" and "run_state (Stage L ord (with_service S E) driver m vol path) w = (Inr vol', w')"
  shows "held S (manager_after S (hist w)) (hist w') (mo_volumeID m) path"
proof -
  obtain isMnt w1 where c: "run_state (checkMount (with_service S E) path) w = (Inr isMnt, w1)"
    using assms(2) by (auto simp: Stage_def split: sum.splits prod.splits)
  then have m1: "manager_after S (hist w1) = manager_after S (hist w)" by (rule idle_runs(1))
  obtain w2 where w2: "manager_after S (hist w2) = manager_after S (hist w1)"
    and mount: "run_state (mounter_Mount L ord (with_service S E) driver m path) w2 = (None, w')"
  proof (cases isMnt)
    case False
    with that [of w1] c assms(2) show thesis by (auto simp: Stage_def split: option.splits prod.splits)
  next
    case True
    let ?u = "mu_Unmount (with_service S E) (hist w1) path"
    let ?w2 = "if ?u = None then snd (run_state (resetStatfsProbe path) (w1\<lparr>hist := EUnmount path ?u # hist w1\<rparr>))
      else w1\<lparr>hist := EUnmount path ?u # hist w1\<rparr>"
    have "manager_after S (hist ?w2) = manager_after S (hist w1)" by (simp add: resetStatfsProbe_def)
    moreover have "run_state (mounter_Mount L ord (with_service S E) driver m path) ?w2 = (None, w')"
      using True c assms(2) by (cases ?u) (auto simp: Stage_def resetStatfsProbe_def split: option.splits prod.splits)
    ultimately show thesis by (rule that)
  qed
  show ?thesis using mounter_Mount_reaches [OF assms(1) mount] by (simp add: m1 w2)
qed

lemma stage_mounted_reaches:
  assumes "service_ok S"
    and "run_state (stage_mounted L ord (with_service S E) driver v path c ro cap) w = (Inr vol, w')"
  shows "held S (manager_after S (hist w)) (hist w') v path"
  using assms(2)
  by (auto simp: stage_mounted_def newMounter_def held_idle [OF idle_runs(2)]
      split: sum.splits option.splits prod.splits dest!: Stage_reaches [OF assms(1)])

lemma stageNewVolume_reaches:
  assumes "service_ok S"
    and "run_state (stageNewVolume L ord (with_service S E) driver v path ctx ro) w = (Inr vol, w')"
  shows "held S (manager_after S (hist w)) (hist w') v path"
proof -
  let ?E = "with_service S E"
  obtain p w1 where p: "run_state (loadPersistedVolumeAttributes L ?E driver v) w = (Inr p, w1)"
    using assms(2) by (auto simp: stageNewVolume_def split: sum.splits prod.splits)
  let ?ctx = "mergePersistedVolumeAttributes (cloneVolumeContext ctx) p"
  obtain cap w2 where c: "run_state (resolveVolumeCapacity L ?E driver v ?ctx) w1 = (Inr cap, w2)"
    and m: "run_state (stage_mounted L ord ?E driver v path
      (case cap of None \<Rightarrow> ?ctx | Some n \<Rightarrow> goset volumeCapacityKey (format_int n) ?ctx) ro cap) w2 = (Inr vol, w')"
    using assms(2) p by (auto simp: stageNewVolume_def Let_def split: sum.splits option.splits prod.splits)
  show ?thesis
    using stage_mounted_reaches [OF assms(1) m] by (simp add: idle_runs(3) [OF p] idle_runs(4) [OF c])
qed

lemma stage_reaches:
  assumes "service_ok S" and "run_state (NodeStageVolume L ord (with_service S E) driver req) w = (None, w')"
    and "map_of (volumes w) (st_VolumeId req) = None"
    and "map_of (volumes w') (st_VolumeId req) = Some vol" and "vol_unmounter vol \<noteq> None"
  shows "\<exists>M. held S M (hist w') (st_VolumeId req) (st_StagingTargetPath req)"
proof -
  have staged: "(\<forall>vol. r = Inr vol \<longrightarrow> (\<exists>M. held S M (hist w2) v path)) \<and> volumes w2 = volumes w1"
    if "run_state (stageNewVolume L ord (with_service S E) driver v path ctx ro) w1 = (r, w2)"
    for r v path ctx ro and w1 w2 :: "'a node_scheme"
  proof
    show "\<forall>vol. r = Inr vol \<longrightarrow> (\<exists>M. held S M (hist w2) v path)"
      using stageNewVolume_reaches [OF assms(1)] that by metis
    show "volumes w2 = volumes w1" using staged_frame [OF that] by simp
  qed
  show ?thesis
    using assms(2-)
    by (auto simp: NodeStageVolume_def Let_def node_steps rebuildVolumeFromStaging_def update_conv'
        split: option.splits if_splits prod.splits sum.splits dest!: staged simp del: not_None_eq)
qed

lemma Unstage_reaches:
  assumes "service_ok S" and "run_state (Unstage L (with_service S E) driver vol path) w = (None, w')"
    and "vol_unmounter vol = Some u"
  shows "map_of (mounts (manager_after S (hist w'))) u = None"
proof -
  let ?gone = "\<lambda>h. map_of (mounts (manager_after S h)) u = None"
  have called: "?gone (ESvcUnmount u None # h)" if ok: "svc_Unmount (with_service S E) h u = None" for h
  proof -
    obtain m1 where "run_state (service_Unmount S u) (manager_after S h) = (None, m1)"
      using ok by (cases "run_state (service_Unmount S u) (manager_after S h)") (simp add: with_service_def)
    moreover from this have "run_state (Unmount (sv_env S) (sv_procenv S) (Some u)) (manager_after S h) = (None, m1)"
      using assms(1) client_Unmount_success by (auto simp: service_Unmount_def service_ok_def)
    ultimately show ?thesis
      using Unmount_outcome(2) [OF manager_after_inv [OF assms(1)]] by simp
  qed
  have resources: "?gone (hist w2)"
    if "run_state (CleanupVolumeResources L (with_service S E) driver v) w1 = (x, w2)" "?gone (hist w1)"
    for v x w1 w2
    using keepsD [OF idle_resources refl that(1)] that(2) by simp
  show ?thesis
    using assms(2,3)
    by (auto simp: Unstage_def unmounter_Unmount_def resetStatfsProbe_def called [simplified]
        split: option.splits if_splits prod.splits elim!: resources)
qed

lemma unstage_reaches:
  assumes "service_ok S" and "run_state (NodeUnstageVolume L (with_service S E) driver v path) w = (None, w')"
    and "v \<noteq> ''''" and "path \<noteq> ''''" and "map_of (volumes w) v = Some vol" and "vol_unmounter vol = Some u"
  shows "map_of (mounts (manager_after S (hist w'))) u = None"
proof -
  let ?w0 = "snd (run_state (getVolumeMutex v) w)"
  obtain q w1 where q: "run_state (Unstage L (with_service S E) driver vol path) ?w0 = (q, w1)"
    by (metis surj_pair)
  have "volumes ?w0 = volumes w" by (simp add: getVolumeMutex_def)
  then have last: "q = None" "w' = snd (run_state (do { delete_volume v; removeVolumeMutex v; delete_backoff v;
      emit (EForgetMetrics v) }) w1)"
    using assms(2-5) q unfolding NodeUnstageVolume_def
    by (cases q; simp add: load_volume_def split: prod.splits)+
  from Unstage_reaches [OF assms(1) q [unfolded last(1)] assms(6)] show ?thesis
    by (simp add: last(2) delete_volume_def removeVolumeMutex_def delete_backoff_def)
qed

section \<open>A new plugin process\<close>

lemma mount_stays_live_service [simp]:
  "mount_stays_live (with_service S E) path \<longleftrightarrow> mount_stays_live E path"
  by (simp add: mount_stays_live_def with_service_def)

lemma adoptable_service [simp]: "adoptable (with_service S E) info \<longleftrightarrow> adoptable E info"
  by (simp add: adoptable_def)

lemma clean_start:
  assumes "run_state (removeDirContent E p) w = (r, w')"
  shows "manager_after S (hist w') = manager_after S (hist w) \<and> volumes w' = volumes w"
proof
  show "manager_after S (hist w') = manager_after S (hist w)"
  proof (rule keepsD [OF _ refl assms])
    show "keeps (\<lambda>w. manager_after S (hist w) = M) (removeDirContent E p)" for M
      unfolding removeDirContent_def
      by (intro keeps_rules keeps_remove_each idle.keeps_ext) (auto simp: is_svc_def)
  qed
  show "volumes w' = volumes w"
  proof (rule keepsD [OF _ refl assms])
    show "keeps (\<lambda>w. volumes w = V) (removeDirContent E p)" for V
      unfolding removeDirContent_def by (intro keeps_rules keeps_remove_each) (simp_all add: keeps_def)
  qed
qed

text \<open>The new process empties the cache directory and then lists the manager the old one left.\<close>

lemma new_node_restores:
  assumes "newUnmounter n = None"
    and "run_state (service_List S) (manager_after S h) = (Inr infos, m1)"
  shows "\<exists>w1 k. volumes w1 = [] \<and> run_state (restore_all L (with_service S E) n infos) w1
    = (k, NewNodeServer L (with_service S E) n h)"
proof -
  let ?clean = "if CacheDir n \<noteq> '''' \<and> path_clean (CacheDir n) \<noteq> path_clean (os_TempDir L) then do {
      removeDirContent (with_service S E) (path_clean (CacheDir n)); ret () } else ret ()"
  obtain u w0 where c: "run_state ?clean (empty_node h []) = (u, w0)" by (metis surj_pair)
  then have w0: "manager_after S (hist w0) = manager_after S h" "volumes w0 = []"
    using clean_start by (fastforce simp: empty_node_def split: if_splits prod.splits)+
  let ?w1 = "w0\<lparr>hist := ESvcList (Inr infos) # hist w0\<rparr>"
  have "svc_List (with_service S E) (hist w0) = Inr infos"
    using assms(2) by (simp add: with_service_def w0(1))
  then have "run_state (restoreVolumes L (with_service S E) n) w0
      = run_state (restore_all L (with_service S E) n infos) ?w1"
    using assms(1) by (simp add: restoreVolumes_def newUnmounter_def)
  then have "NewNodeServer L (with_service S E) n h
      = snd (run_state (restore_all L (with_service S E) n infos) ?w1)"
    by (simp add: NewNodeServer_def c)
  moreover have "volumes ?w1 = []" by (simp add: w0(2))
  ultimately show ?thesis by (metis prod.collapse)
qed

lemma held_volume_is_restored:
  assumes ok: "service_ok S" and client: "newUnmounter n = None"
    and link: "sv_net S (hist (manager_after S h)) = Delivered"
    and entry: "map_of (mounts (manager_after S h)) v = Some en"
    and running: "\<not> exited (me_process en) (snd (run_state (service_List S) (manager_after S h)))"
    and live: "adoptable E (mount_info en)"
  shows "\<exists>vol. map_of (volumes (NewNodeServer L (with_service S E) n h)) v = Some vol
    \<and> vol_StagedPath vol = me_targetPath en \<and> vol_unmounter vol = Some v
    \<and> vol_volContext vol = Some (me_volumeContext en) \<and> vol_readOnly vol = me_readOnly en"
proof -
  let ?m = "manager_after S h" and ?w' = "NewNodeServer L (with_service S E) n h"
  have inv: "mgr_inv ?m" by (rule manager_after_inv [OF ok])
  obtain infos m1 where l: "run_state (List (sv_env S)) ?m = (infos, m1)" by (metis surj_pair)
  then have sl: "run_state (service_List S) ?m = (Inr infos, m1)"
    using ok link by (simp add: service_List_def client_List_def exchange_def serve_http_def list_result_def
        service_ok_def codec_ok_def)
  note infos = List_reports_live_mounts [OF inv l, THEN conjunct1]
    and dist = List_reports_live_mounts [OF inv l, THEN conjunct2]
  have listed: "mount_info en \<in> set infos"
    unfolding infos using entry running by (auto simp: sl)
  have id: "mi_VolumeID (mount_info en) = v"
  proof -
    have "entry_ok ?m (v, en)" using map_of_SomeD [OF entry] inv unfolding mgr_inv_def by blast
    then show ?thesis by (simp add: entry_ok_def mount_info_def)
  qed
  obtain w1 k where r: "volumes w1 = []" "run_state (restore_all L (with_service S E) n infos) w1 = (k, ?w')"
    using new_node_restores [OF client sl] by blast
  from restore_all_adds [OF r(2) listed _ client] live id
  obtain vol where vol: "map_of (volumes ?w') v = Some vol" by auto
  with restore_all_from [OF r(2) vol] r(1) obtain info ps where
    i: "info \<in> set infos" "mi_VolumeID info = v" "vol = adopted_volume L n info ps" by auto
  have "info = mount_info en"
    using i(1,2) listed id dist by (metis distinct_map inj_onD)
  with vol i(3) id show ?thesis by (simp add: adopted_volume_fields mount_info_def)
qed

section \<open>A concrete system\<close>

definition demo_service :: service where
  "demo_service = \<lparr>sv_codec = demo_codec, sv_net = demo_net, sv_env = calm_env, sv_procenv = calm_proc,
     sv_bin = ''weed'', sv_start = new_manager []\<rparr>"

text \<open>A node on which the staging path does not exist yet.\<close>

definition first_env :: env where
  "first_env = calm_env\<lparr>os_Stat := \<lambda>h p. Inl ((errorf ''no such file'')\<lparr>is_not_exist := True\<rparr>),
     mu_IsMountPoint := \<lambda>h p. (False, None)\<rparr>"

definition demo_stage :: NodeStageVolumeRequest where
  "demo_stage = \<lparr>st_VolumeId = ''/buckets/v'', st_StagingTargetPath = ''/s'',
     st_VolumeCapability = Some (Some SINGLE_NODE_WRITER), st_VolumeContext = None\<rparr>"

definition demo_staged :: "err option \<times> node" where
  "demo_staged = run_state (NodeStageVolume demo_libs id (with_service demo_service first_env) demo_driver demo_stage)
     (empty_node [] [])"

definition demo_held :: manager where
  "demo_held = manager_after demo_service (hist (snd demo_staged))"

lemma demo_service_ok: "service_ok demo_service"
  by (simp add: service_ok_def demo_service_def demo_codec_ok mgr_inv_new)

lemma demo_facts:
  "let d = demo_staged; m = manager_after demo_service (hist (snd d)) in
     fst d = None
     \<and> map_option vol_unmounter (map_of (volumes (snd d)) ''/buckets/v'') = Some (Some ''/buckets/v'')
     \<and> map_option me_process (map_of (mounts m) ''/buckets/v'') = Some 0
     \<and> \<not> exited 0 (snd (run_state (service_List demo_service) m))"
  by code_simp

lemma demo_staged_run:
  "run_state (NodeStageVolume demo_libs id (with_service demo_service first_env) demo_driver demo_stage)
     (empty_node [] []) = (None, snd demo_staged)"
  using demo_facts unfolding Let_def demo_staged_def by (metis prod.collapse)

lemma demo_staged_volume:
  "\<exists>vol. map_of (volumes (snd demo_staged)) ''/buckets/v'' = Some vol \<and> vol_unmounter vol \<noteq> None"
  using demo_facts unfolding Let_def by fastforce

lemma demo_held_running:
  assumes "map_of (mounts demo_held) ''/buckets/v'' = Some en"
  shows "\<not> exited (me_process en) (snd (run_state (service_List demo_service) demo_held))"
  using demo_facts assms unfolding Let_def demo_held_def by simp

section \<open>Properties\<close>

text \<open>
  C7: A staged volume survives a restart of the plugin: after a \<open>NodeStageVolume\<close> that mounted the
  volume, a new plugin process, whatever its own environment, finds it at the manager and adopts it
  with the same staging path and an unmounter, provided the list reaches it, the \<open>weed mount\<close>
  process still runs and the path is a live mount; so the volume can be published, monitored and
  unstaged as before.
\<close>

theorem staged_volume_survives_restart:
  assumes "service_ok S" and "newUnmounter n = None"
    and "run_state (NodeStageVolume L ord (with_service S E) driver req) w = (None, w')"
    and "map_of (volumes w) (st_VolumeId req) = None"
    and "map_of (volumes w') (st_VolumeId req) = Some vol" and "vol_unmounter vol \<noteq> None"
    and "sv_net S (hist (manager_after S (hist w'))) = Delivered"
    and "\<And>en. map_of (mounts (manager_after S (hist w'))) (st_VolumeId req) = Some en \<Longrightarrow>
      \<not> exited (me_process en) (snd (run_state (service_List S) (manager_after S (hist w'))))"
    and "mount_stays_live E' (st_StagingTargetPath req)"
  shows "\<exists>vol'. map_of (volumes (NewNodeServer L (with_service S E') n (hist w'))) (st_VolumeId req) = Some vol'
    \<and> vol_StagedPath vol' = st_StagingTargetPath req \<and> vol_unmounter vol' = Some (st_VolumeId req)"
proof -
  obtain en where en: "map_of (mounts (manager_after S (hist w'))) (st_VolumeId req) = Some en"
    "me_targetPath en = st_StagingTargetPath req"
    using stage_reaches [OF assms(1,3-6)] by (auto simp: held_def)
  have "mi_VolumeID (mount_info en) = st_VolumeId req"
  proof -
    have "entry_ok (manager_after S (hist w')) (st_VolumeId req, en)"
      using map_of_SomeD [OF en(1)] manager_after_inv [OF assms(1)] unfolding mgr_inv_def by blast
    then show ?thesis by (simp add: entry_ok_def mount_info_def)
  qed
  moreover have "st_VolumeId req \<noteq> ''''" "st_StagingTargetPath req \<noteq> ''''"
    using assms(3,4,5) by (auto simp: NodeStageVolume_def Let_def split: option.splits if_splits)
  ultimately have "adoptable E' (mount_info en)"
    using assms(9) en(2) by (simp add: adoptable_def mount_info_def)
  from held_volume_is_restored [OF assms(1,2,7) en(1) assms(8) [OF en(1)] this] en(2)
  show ?thesis by metis
qed

theorem staged_volume_survives_restart_witness:
  "\<exists>vol'. map_of (volumes (NewNodeServer demo_libs (with_service demo_service calm_env) demo_driver
     (hist (snd demo_staged)))) ''/buckets/v'' = Some vol' \<and> vol_StagedPath vol' = ''/s''"
proof -
  have id: "st_VolumeId demo_stage = ''/buckets/v''" "st_StagingTargetPath demo_stage = ''/s''"
    by (simp_all add: demo_stage_def)
  obtain vol where vol: "map_of (volumes (snd demo_staged)) ''/buckets/v'' = Some vol" "vol_unmounter vol \<noteq> None"
    using demo_staged_volume by blast
  have client: "newUnmounter demo_driver = None" by code_simp
  have live: "mount_stays_live calm_env ''/s''" by (simp add: mount_stays_live_def calm_env_def)
  have fresh: "map_of (volumes (empty_node [] [])) (st_VolumeId demo_stage) = None" by (simp add: empty_node_def)
  have link: "sv_net demo_service h = Delivered" for h by (simp add: demo_service_def demo_net_def)
  show ?thesis
    using staged_volume_survives_restart [OF demo_service_ok client demo_staged_run fresh, unfolded id,
        OF vol link _ live, folded demo_held_def, OF demo_held_running] by blast
qed

text \<open>
  C8: Unstaging reaches the mount service: after a successful \<open>NodeUnstageVolume\<close> of a volume with an
  unmounter, for any link, schedule and environment of the service, its manager has no entry for the
  volume, so nothing of it is listed to a later plugin or reused by a later mount.
\<close>

theorem unstaged_volume_is_released:
  assumes "service_ok S" and "node_inv w"
    and "run_state (NodeUnstageVolume L (with_service S E) driver v path) w = (None, w')"
    and "v \<noteq> ''''" and "path \<noteq> ''''" and "map_of (volumes w) v = Some vol" and "vol_unmounter vol \<noteq> None"
  shows "map_of (mounts (manager_after S (hist w'))) v = None \<and> map_of (volumes w') v = None"
proof -
  obtain u where u: "vol_unmounter vol = Some u" using assms(7) by blast
  have "vol_ok v vol" using map_of_SomeD [OF assms(6)] assms(2) by (auto simp: node_inv_def)
  then have "u = v" using u by (simp add: vol_ok_def)
  then show ?thesis
    using unstage_reaches [OF assms(1,3-6) u] unstage_effect [OF assms(3-5)] by simp
qed

definition demo_owner :: node where
  "demo_owner = (empty_node [] [])\<lparr>volumes := [(''v'', demo_volume\<lparr>vol_VolumeId := ''v'', vol_unmounter := Some ''v''\<rparr>)]\<rparr>"

definition demo_owning :: service where
  "demo_owning = demo_service\<lparr>sv_start := demo_manager False\<rparr>"

theorem unstaged_volume_is_released_witness:
  "map_of (mounts (manager_after demo_owning [])) ''v'' \<noteq> None
   \<and> map_of (mounts (manager_after demo_owning (hist (snd (run_state (NodeUnstageVolume demo_libs
     (with_service demo_owning calm_env) demo_driver ''v'' ''/s'') demo_owner))))) ''v'' = None"
proof
  let ?run = "run_state (NodeUnstageVolume demo_libs (with_service demo_owning calm_env) demo_driver
    ''v'' ''/s'') demo_owner"
  have ok: "service_ok demo_owning" using demo_service_ok by (simp add: service_ok_def demo_owning_def demo_inv)
  have inv: "node_inv demo_owner"
    by (simp add: node_inv_def vol_ok_def demo_owner_def demo_volume_def empty_node_def)
  have "fst ?run = None" by code_simp
  then have run: "?run = (None, snd ?run)" by (metis prod.collapse)
  have ne: "''v'' \<noteq> ''''" "''/s'' \<noteq> ''''" by simp_all
  have vol: "map_of (volumes demo_owner) ''v'' = Some (demo_volume\<lparr>vol_VolumeId := ''v'', vol_unmounter := Some ''v''\<rparr>)"
    "vol_unmounter (demo_volume\<lparr>vol_VolumeId := ''v'', vol_unmounter := Some ''v''\<rparr>) \<noteq> None"
    by (simp_all add: demo_owner_def)
  show "map_of (mounts (manager_after demo_owning (hist (snd ?run)))) ''v'' = None"
    by (rule unstaged_volume_is_released [OF ok inv run ne vol, THEN conjunct1])
  show "map_of (mounts (manager_after demo_owning [])) ''v'' \<noteq> None"
    by (simp add: demo_owning_def demo_manager_def)
qed

end
