(* ===== verification/RecoverySystem.thy ===== *)
theory RecoverySystem
  imports EndToEnd
begin

text \<open>
  The recovery of a volume down to the mount service: a recovery that reports success stopped the
  old mount at the manager and had a new process started for the same staging path.
\<close>

section \<open>Before and after\<close>

text \<open>\<open>leads P m Q\<close>: from \<open>P\<close>, the program ends in \<open>Q\<close> of its result.\<close>

definition leads :: "('s \<Rightarrow> bool) \<Rightarrow> ('s, 'a) state \<Rightarrow> ('a \<Rightarrow> 's \<Rightarrow> bool) \<Rightarrow> bool" where
  "leads P m Q \<longleftrightarrow> (\<forall>s. P s \<longrightarrow> (case run_state m s of (x, s') \<Rightarrow> Q x s'))"

lemma leadsD: "leads P m Q \<Longrightarrow> P s \<Longrightarrow> run_state m s = (x, s') \<Longrightarrow> Q x s'"
  by (force simp: leads_def)

lemma leads_bind: "leads P m Q \<Longrightarrow> (\<And>x. leads (Q x) (f x) R) \<Longrightarrow> leads P (State_Monad.bind m f) R"
  by (fastforce simp: leads_def split: prod.splits)

lemma leads_keeps: "keeps P m \<Longrightarrow> leads P m (\<lambda>_. P)"
  by (auto simp: leads_def keeps_def split: prod.splits)

lemma leads_step: "keeps P m \<Longrightarrow> (\<And>x. leads P (f x) R) \<Longrightarrow> leads P (State_Monad.bind m f) R"
  by (rule leads_bind [OF leads_keeps])

lemma leads_end: "keeps P m \<Longrightarrow> (\<And>x s. P s \<Longrightarrow> Q x s) \<Longrightarrow> leads P m Q"
  by (auto simp: leads_def keeps_def split: prod.splits)

lemma leads_if: "leads P m Q \<Longrightarrow> leads P m' Q \<Longrightarrow> leads P (if b then m else m') Q"
  by simp

lemma leads_option: "leads P m Q \<Longrightarrow> (\<And>x. leads P (f x) Q) \<Longrightarrow> leads P (case a of None \<Rightarrow> m | Some x \<Rightarrow> f x) Q"
  by (cases a) simp_all

lemma leads_sum: "(\<And>x. leads P (f x) Q) \<Longrightarrow> (\<And>x. leads P (g x) Q) \<Longrightarrow>
    leads P (case a of Inl x \<Rightarrow> f x | Inr x \<Rightarrow> g x) Q"
  by (cases a) simp_all

section \<open>What a recovery reports\<close>

definition successes :: "string \<Rightarrow> event list \<Rightarrow> nat" where
  "successes v h = count_list h (ERecovery v ''success'')"

lemma successes_Cons [simp]:
  "successes v (e # h) = (if e = ERecovery v ''success'' then Suc (successes v h) else successes v h)"
  by (simp add: successes_def)

lemma marks_neutral:
  "is_probe e \<Longrightarrow> e \<noteq> ERecovery v r" "is_os_call e \<Longrightarrow> e \<noteq> ERecovery v r" "is_svc e \<Longrightarrow> e \<noteq> ERecovery v r"
  by (auto simp: is_probe_def is_os_call_def is_svc_def)

interpretation unmarked: call_world "\<lambda>w. successes v (hist w) = n" "\<lambda>e. e \<noteq> ERecovery v ''success''" for v n
  by unfold_locales (auto dest: marks_neutral)

interpretation restage: stage_world "\<lambda>w. successes v (hist w) = n" "\<lambda>e. e \<noteq> ERecovery v ''success''" L driver
  for v n L driver
proof unfold_locales
  show "keeps (\<lambda>w. successes v (hist w) = n) (cleanupStaleStagingPath E path)" for E path
    unfolding cleanupStaleStagingPath_def cleanupCorruptedStagingPath_def
    by (intro keeps_rules unmarked.keeps_ext unmarked.keeps_reset) auto
  show "keeps (\<lambda>w. successes v (hist w) = n) (CleanupVolumeResources L E driver u)" for E u
    unfolding CleanupVolumeResources_def Let_def by (intro keeps_rules unmarked.keeps_ext) auto
qed

text \<open>The recovery has reported nothing yet and the manager is at \<open>M\<close>.\<close>

definition pending :: "service \<Rightarrow> string \<Rightarrow> nat \<Rightarrow> manager \<Rightarrow> Volume \<Rightarrow> 'n node_scheme \<Rightarrow> bool" where
  "pending S v n M vol w \<longleftrightarrow> map_of (volumes w) v = Some vol \<and> successes v (hist w) = n
     \<and> manager_after S (hist w) = M"

interpretation pending: os_world "pending S v n M vol" "\<lambda>e. \<not> is_svc e \<and> e \<noteq> ERecovery v ''success''"
  for S v n M vol
proof unfold_locales
  show "\<not> is_svc e \<and> e \<noteq> ERecovery v ''success''" if "is_probe e" for e
    using that by (auto simp: is_svc_def is_probe_def split: event.splits)
  show "\<not> is_svc e \<and> e \<noteq> ERecovery v ''success''" if "is_os_call e" for e
    using that by (auto simp: is_svc_def is_os_call_def split: event.splits)
qed (auto simp: pending_def manager_after_idle)

text \<open>The manager has a process for the volume that was started since \<open>M\<close>.\<close>

definition renewed :: "service \<Rightarrow> manager \<Rightarrow> string \<Rightarrow> string \<Rightarrow> 'n node_scheme \<Rightarrow> bool" where
  "renewed S M v path w \<longleftrightarrow> (\<exists>en. map_of (mounts (manager_after S (hist w))) v = Some en
     \<and> me_targetPath en = path \<and> next_pid M \<le> me_process en)"

definition recovered_or_silent ::
    "service \<Rightarrow> string \<Rightarrow> nat \<Rightarrow> manager \<Rightarrow> string \<Rightarrow> 'n node_scheme \<Rightarrow> bool" where
  "recovered_or_silent S v n M path w \<longleftrightarrow> successes v (hist w) = n \<or> renewed S M v path w"

lemma pending_silent: "pending S v n M vol w \<Longrightarrow> recovered_or_silent S v n M0 path w"
  by (simp add: pending_def recovered_or_silent_def)

interpretation renewed: os_world "renewed S M v path" "\<lambda>e. \<not> is_svc e" for S M v path
proof unfold_locales
  show "\<not> is_svc e" if "is_probe e" for e using that by (auto simp: is_svc_def is_probe_def split: event.splits)
  show "\<not> is_svc e" if "is_os_call e" for e using that by (auto simp: is_svc_def is_os_call_def split: event.splits)
qed (auto simp: renewed_def manager_after_idle)

section \<open>The steps of the recovery\<close>

lemma unmount_leads:
  assumes "service_ok S" and "vol_unmounter vol = Some v"
  shows "leads (pending S v n M vol) (recover_unmount (with_service S E) v vol)
    (\<lambda>go w. if go then \<exists>M'. pending S v n M' vol w \<and> next_pid M \<le> next_pid M' \<and> map_of (mounts M') v = None
       else successes v (hist w) = n)"
  unfolding leads_def
proof (intro allI impI)
  fix w :: "'n node_scheme"
  assume "pending S v n M vol w"
  then have p: "map_of (volumes w) v = Some vol" "successes v (hist w) = n" "manager_after S (hist w) = M"
    by (simp_all add: pending_def)
  obtain r M' where call: "run_state (service_Unmount S v) M = (r, M')" by (metis surj_pair)
  then have svc: "svc_Unmount (with_service S E) (hist w) v = r" by (simp add: with_service_def p(3))
  show "case run_state (recover_unmount (with_service S E) v vol) w of (go, w') \<Rightarrow>
      if go then \<exists>M'. pending S v n M' vol w' \<and> next_pid M \<le> next_pid M' \<and> map_of (mounts M') v = None
      else successes v (hist w') = n"
  proof (cases r)
    case None
    have "codec_ok (sv_codec S)" using assms(1) by (simp add: service_ok_def)
    from client_Unmount_success [OF this call [unfolded None service_Unmount_def]]
    have "run_state (Unmount (sv_env S) (sv_procenv S) (Some v)) M = (None, M')" .
    moreover have "mgr_inv M" using manager_after_inv [OF assms(1)] p(3) by blast
    ultimately have "map_of (mounts M') v = None" "next_pid M \<le> next_pid M'"
      using Unmount_outcome(2) evolvedD(4) [OF Unmount_outcome(1)] by blast+
    then show ?thesis
      using None p call svc
      by (simp add: recover_unmount_def unmounter_Unmount_def assms(2) resetStatfsProbe_def pending_def)
  next
    case (Some err)
    then show ?thesis
      using p svc by (simp add: recover_unmount_def unmounter_Unmount_def assms(2))
  qed
qed

lemma pending_stale: "keeps (pending S v n M vol) (cleanupStaleStagingPath E path)"
  unfolding cleanupStaleStagingPath_def cleanupCorruptedStagingPath_def
  by (intro keeps_rules pending.keeps_ext pending.keeps_reset) (auto simp: is_svc_def)

lemma pending_detach: "keeps (pending S v n M vol) (recover_detach E v path)"
  unfolding recover_detach_def isDeadMount_def
  by (intro keeps_rules pending.keeps_ext pending.keeps_emit pending.keeps_reset pending.keeps_statfs)
     (auto simp: is_svc_def)

lemma stage_leads:
  assumes "service_ok S" and "map_of (mounts M') v = None" and "next_pid M \<le> next_pid M'"
  shows "leads (pending S v n M' vol) (stageNewVolume L ord (with_service S E) driver v path ctx ro)
    (\<lambda>s w. case s of Inl _ \<Rightarrow> successes v (hist w) = n | Inr _ \<Rightarrow> renewed S M v path w)"
  unfolding leads_def
proof (intro allI impI)
  fix w :: "'n node_scheme"
  assume p: "pending S v n M' vol w"
  obtain s w' where run: "run_state (stageNewVolume L ord (with_service S E) driver v path ctx ro) w = (s, w')"
    by (metis surj_pair)
  have "successes v (hist w') = n"
    by (rule keepsD [OF restage.keeps_stageNewVolume _ run]) (use p in \<open>simp add: pending_def\<close>)
  moreover have "renewed S M v path w'" if "s = Inr new" for new
    using stageNewVolume_reaches [OF assms(1) run [unfolded that]] p assms(2,3)
    by (auto simp: held_def renewed_def pending_def)
  ultimately show "case run_state (stageNewVolume L ord (with_service S E) driver v path ctx ro) w of (s, w') \<Rightarrow>
      (case s of Inl _ \<Rightarrow> successes v (hist w') = n | Inr _ \<Rightarrow> renewed S M v path w')"
    by (simp add: run split: sum.split)
qed

lemma renewed_publishes: "keeps (renewed S M v path) (recover_publishes E v staging dev ps new)"
  unfolding recover_publishes_def store_volume_def
  by (intro keeps_rules renewed.keeps_tear_down_all renewed.keeps_rebind_all renewed.keeps_emit
      renewed.keeps_remountInContainers) (auto simp: keeps_def renewed_def is_svc_def)

lemma failed_mark:
  "leads (\<lambda>w. successes v (hist w) = n) (emit (ERecovery v ''failed'')) (\<lambda>_. recovered_or_silent S v n M path)"
  by (rule leads_end [OF unmarked.keeps_emit]) (simp_all add: recovered_or_silent_def)

lemma recover_staging_leads:
  assumes "service_ok S" and "vol_unmounter vol = Some v"
  shows "leads (pending S v n M vol) (recover_staging L ord (with_service S E) driver v vol dev)
    (\<lambda>_. recovered_or_silent S v n M (vol_StagedPath vol))"
  unfolding recover_staging_def Let_def
proof (rule leads_bind [OF unmount_leads [OF assms]])
  fix go
  let ?Q = "\<lambda>_. recovered_or_silent S v n M (vol_StagedPath vol)"
  let ?rest = "do {
      go2 \<leftarrow> recover_detach (with_service S E) v (vol_StagedPath vol);
      if \<not> go2 then ret ()
      else do {
        c \<leftarrow> cleanupStaleStagingPath (with_service S E) (vol_StagedPath vol);
        (case c of
           Some _ \<Rightarrow> emit (ERecovery v ''failed'')
         | None \<Rightarrow> do {
             s \<leftarrow> stageNewVolume L ord (with_service S E) driver v (vol_StagedPath vol) (vol_volContext vol)
               (vol_readOnly vol);
             (case s of
                Inl _ \<Rightarrow> emit (ERecovery v ''failed'')
              | Inr newVol \<Rightarrow> recover_publishes (with_service S E) v (vol_StagedPath vol) dev
                  (vol_publishPaths vol) newVol)
           })
      } } :: ('n, unit) nio"
  have rest: "leads (pending S v n M' vol) ?rest ?Q"
    if M': "next_pid M \<le> next_pid M'" "map_of (mounts M') v = None" for M'
  proof -
    have quiet: "keeps (pending S v n M' vol) (ret ())" "keeps (pending S v n M' vol) (emit (ERecovery v ''failed''))"
      by (auto intro!: keeps_return pending.keeps_emit simp: is_svc_def)
    have staged: "leads (\<lambda>w. case s of Inl _ \<Rightarrow> successes v (hist w) = n | Inr _ \<Rightarrow> renewed S M v (vol_StagedPath vol) w)
        (case s of Inl _ \<Rightarrow> emit (ERecovery v ''failed'')
         | Inr newVol \<Rightarrow> recover_publishes (with_service S E) v (vol_StagedPath vol) dev (vol_publishPaths vol) newVol) ?Q"
      for s :: "err + Volume"
      by (cases s) (auto intro: failed_mark leads_end [OF renewed_publishes] simp: recovered_or_silent_def)
    show ?thesis
      by (intro leads_step [OF pending_detach] leads_step [OF pending_stale] leads_if leads_option
          leads_end [OF quiet(1)] leads_end [OF quiet(2)] leads_bind [OF stage_leads [OF assms(1) M'(2,1)]] staged)
         (auto intro: pending_silent)
  qed
  show "leads (\<lambda>w. if go then \<exists>M'. pending S v n M' vol w \<and> next_pid M \<le> next_pid M' \<and> map_of (mounts M') v = None
      else successes v (hist w) = n) (if \<not> go then ret () else ?rest) ?Q"
  proof (cases go)
    case True
    have "leads (\<lambda>w. \<exists>M'. pending S v n M' vol w \<and> next_pid M \<le> next_pid M' \<and> map_of (mounts M') v = None) ?rest ?Q"
      using rest by (fastforce simp: leads_def)
    with True show ?thesis by simp
  next
    case False
    then show ?thesis by (auto simp: leads_def recovered_or_silent_def)
  qed
qed

lemma pending_state:
  "keeps (pending S v n M vol) (getVolumeMutex u)" "keeps (pending S v n M vol) (resetRecoveryBackoff u)"
  "keeps (pending S v n M vol) (modify (\<lambda>w. w\<lparr>recoveryBackoff := f w\<rparr>))"
  by (simp_all add: keeps_def getVolumeMutex_def resetRecoveryBackoff_def delete_backoff_def pending_def)

lemma pending_quiet:
  "keeps (pending S v n M vol) (recoveryThrottled E u)" "keeps (pending S v n M vol) (noteRecoveryAttempt E u)"
  unfolding recoveryThrottled_def noteRecoveryAttempt_def Let_def
  by (intro keeps_rules pending.keeps_ext pending_state; simp add: is_svc_def)+

lemma pending_emit: "r \<noteq> ''success'' \<Longrightarrow> keeps (pending S v n M vol) (emit (ERecovery v r))"
  by (rule pending.keeps_emit) (simp add: is_svc_def)

lemma recoverVolume_leads:
  assumes "service_ok S" and "vol_unmounter vol = Some v"
  shows "leads (pending S v n M vol) (recoverVolume L ord (with_service S E) driver v)
    (\<lambda>_. recovered_or_silent S v n M (vol_StagedPath vol))"
proof -
  let ?P = "pending S v n M vol" and ?Q = "\<lambda>_. recovered_or_silent S v n M (vol_StagedPath vol)"
  have silent: "leads ?P m ?Q" if "keeps ?P m" for m :: "('n, unit) nio"
    using leads_end [OF that] pending_silent by metis
  have load: "leads ?P (load_volume v) (\<lambda>x w. x = Some vol \<and> ?P w)"
    by (simp add: leads_def load_volume_def pending_def)
  have loaded: "leads (\<lambda>w. x = Some vol \<and> ?P w) m ?Q" if "x = Some vol \<Longrightarrow> leads ?P m ?Q" for x and m :: "('n, unit) nio"
    using that by (cases "x = Some vol") (simp_all add: leads_def)
  show ?thesis
    unfolding recoverVolume_def
    by (intro leads_step [OF pending_quiet(1)] leads_step [OF pending_state(1)] leads_if
        leads_bind [OF load] loaded silent [OF pending_emit])
       (auto intro!: leads_step [OF pending.keeps_checkHealth] leads_step [OF pending.keeps_capture_device]
          leads_step [OF pending_quiet(2)] leads_step [OF pending.keeps_monitor_live]
          leads_if silent [OF pending_emit] silent [OF pending_state(2)] silent [OF keeps_return]
          recover_staging_leads [OF assms])
qed

section \<open>Property\<close>

text \<open>
  C5: A recovery that reports success has replaced the mount: whatever the outside does, if
  \<open>recoverVolume\<close> records a success for a volume of the mount service, the manager's entry of the
  volume points to its staging path and belongs to a \<open>weed mount\<close> process that was started during
  this recovery; the dead one is never taken for it.
\<close>

theorem recovered_volume_has_new_process:
  assumes "service_ok S" and "node_inv w"
    and "map_of (volumes w) v = Some vol" and "vol_unmounter vol \<noteq> None"
    and "run_state (recoverVolume L ord (with_service S E) driver v) w = (u, w')"
    and "successes v (hist w) < successes v (hist w')"
  shows "\<exists>en. map_of (mounts (manager_after S (hist w'))) v = Some en \<and> me_targetPath en = vol_StagedPath vol
    \<and> next_pid (manager_after S (hist w)) \<le> me_process en"
proof -
  have "vol_ok v vol" using map_of_SomeD [OF assms(3)] assms(2) by (auto simp: node_inv_def)
  then have "vol_unmounter vol = Some v" using assms(4) by (auto simp: vol_ok_def)
  moreover have "pending S v (successes v (hist w)) (manager_after S (hist w)) vol w"
    by (simp add: pending_def assms(3))
  ultimately have "recovered_or_silent S v (successes v (hist w)) (manager_after S (hist w)) (vol_StagedPath vol) w'"
    using leadsD [OF recoverVolume_leads [OF assms(1)] _ assms(5)] by blast
  with assms(6) show ?thesis by (auto simp: recovered_or_silent_def renewed_def)
qed

text \<open>A volume whose mount is gone, at a manager that has had one process and lost its entry.\<close>

definition demo_lost :: Volume where
  "demo_lost = demo_volume\<lparr>vol_VolumeId := ''v'', vol_unmounter := Some ''v'', vol_publishPaths := []\<rparr>"

definition demo_loser :: node where
  "demo_loser = (empty_node [] [])\<lparr>volumes := [(''v'', demo_lost)]\<rparr>"

definition demo_aged :: service where
  "demo_aged = demo_service\<lparr>sv_start := (new_manager [])\<lparr>next_pid := 1\<rparr>\<rparr>"

definition gone_env :: env where
  "gone_env = first_env\<lparr>mu_IsLikelyNotMountPoint := \<lambda>h p. Inr True\<rparr>"

definition demo_system :: env where
  "demo_system = with_service demo_aged gone_env"

definition demo_recovered :: "unit \<times> node" where
  "demo_recovered = run_state (recoverVolume demo_libs id demo_system demo_driver ''v'') demo_loser"

lemma demo_released: "fst (run_state (service_Unmount demo_aged ''v'') (sv_start demo_aged)) = None"
  by code_simp

lemma demo_system_calls:
  "os_Stat demo_system h p = Inl ((errorf ''no such file'')\<lparr>is_not_exist := True\<rparr>)"
  "mu_IsLikelyNotMountPoint demo_system h p = Inr True" "call_fate demo_system h l = Completes"
  "svc_Unmount demo_system h v = fst (run_state (service_Unmount demo_aged v) (manager_after demo_aged h))"
  "mu_IsMountPoint demo_system h p = (False, None)" "time_Now demo_system h = 0" "os_Lstat demo_system h p = None"
  "os_RemoveAll demo_system h p = None" "proc_MountInfo demo_system h pid = Inr []" "mu_Unmount demo_system h p = None"
  "os_Remove demo_system h p = None" "unix_Detach demo_system h p = None"
  by (simp_all add: demo_system_def with_service_def gone_env_def first_env_def calm_env_def)

lemma demo_lost_fields:
  "vol_StagedPath demo_lost = ''/s''" "vol_unmounter demo_lost = Some ''v''" "vol_volContext demo_lost = Some []"
  "vol_publishPaths demo_lost = []" "vol_readOnly demo_lost = False"
  by (simp_all add: demo_lost_def demo_volume_def)

lemma demo_loser_fields:
  "map_of (volumes demo_loser) ''v'' = Some demo_lost" "recoveryBackoff demo_loser = []" "hist demo_loser = []"
  "probes demo_loser = []"
  by (simp_all add: demo_loser_def empty_node_def)

lemma demo_no_mounts: "parseMountInfoReader '''' = ([], None)"
  by code_simp

lemma demo_device:
  "run_state (capture_device demo_system ''/s'' []) w = ('''', w\<lparr>hist := EMountInfo None (Inr '''') # hist w\<rparr>)"
  by (simp add: capture_device_def getMountDevice_def parseMountInfo_def demo_system_calls demo_no_mounts)

text \<open>What happened before the volume is staged again.\<close>

definition demo_before :: "event list" where
  "demo_before = [ERemoveAll ''/s'' None, EIsMountPoint ''/s'' (False, None), ELstat ''/s'' None,
     EUnmount ''/s'' None, EIsLikelyNotMountPoint ''/s'' (Inr True), ESvcUnmount ''v'' None, ENow 0,
     EMountInfo None (Inr ''''), EStat ''/s'' (Inl ((errorf ''no such file'')\<lparr>is_not_exist := True\<rparr>)),
     EFate ''health monitor: health check for /s'' Completes]"

lemma demo_restaged:
  "isl (fst (run_state (stageNewVolume demo_libs id demo_system demo_driver ''v'' ''/s'' (Some []) False)
     (demo_loser\<lparr>volumeMutexes := m, recoveryBackoff := b, hist := demo_before, probes := []\<rparr>))) = False"
  by code_simp

lemma demo_success: "0 < successes ''v'' (hist (snd demo_recovered))"
proof -
  let ?w = "demo_loser\<lparr>volumeMutexes := snd (GetMutex ''v'' (volumeMutexes demo_loser)),
    recoveryBackoff := [(''v'', \<lparr>attempts = 1, notBefore = backoff_wait 1\<rparr>)], hist := demo_before, probes := []\<rparr>"
  obtain new w4 where "run_state (stageNewVolume demo_libs id demo_system demo_driver ''v'' ''/s'' (Some []) False) ?w
      = (Inr new, w4)"
    using demo_restaged by (metis prod.collapse sum.collapse(2))
  then show ?thesis
    by (simp add: demo_recovered_def recoverVolume_def recoveryThrottled_def noteRecoveryAttempt_def getVolumeMutex_def
        load_volume_def checkHealth_def checkHealthDetailed_def runWithTimeout_def isStagingPathHealthy_def demo_device
        recover_staging_def recover_unmount_def unmounter_Unmount_def recover_detach_def resetStatfsProbe_def
        cleanupStaleStagingPath_def cleanupCorruptedStagingPath_def recover_publishes_def store_volume_def Let_def
        demo_released demo_system_calls demo_lost_fields demo_loser_fields demo_before_def)
qed

theorem recovered_volume_has_new_process_witness:
  "\<exists>en. map_of (mounts (manager_after demo_aged (hist (snd demo_recovered)))) ''v'' = Some en
     \<and> me_targetPath en = ''/s'' \<and> 1 \<le> me_process en"
proof -
  have ok: "service_ok demo_aged"
    using demo_service_ok by (simp add: service_ok_def demo_aged_def mgr_inv_def new_manager_def)
  have inv: "node_inv demo_loser"
    by (simp add: node_inv_def vol_ok_def demo_loser_def demo_lost_def demo_volume_def empty_node_def)
  have run: "run_state (recoverVolume demo_libs id (with_service demo_aged gone_env) demo_driver ''v'') demo_loser
      = (fst demo_recovered, snd demo_recovered)" unfolding demo_recovered_def demo_system_def by (rule prod.collapse [symmetric])
  have vol: "map_of (volumes demo_loser) ''v'' = Some demo_lost"
    "vol_unmounter demo_lost \<noteq> None"
    by (simp_all add: demo_loser_def demo_lost_def)
  have start: "hist demo_loser = []" by (simp add: demo_loser_def empty_node_def)
  have more: "successes ''v'' (hist demo_loser) < successes ''v'' (hist (snd demo_recovered))"
    using demo_success by (simp add: start successes_def)
  from recovered_volume_has_new_process [OF ok inv vol run more]
  show ?thesis by (simp add: start demo_aged_def new_manager_def demo_lost_def demo_volume_def)
qed

end
