(* ===== verification/RecoveryProgress.thy ===== *)
theory RecoveryProgress
  imports RecoverySystem
begin

text \<open>
  Progress of the recovery: what the safety properties of the health monitor leave open is
  whether it ever repairs anything. Here the outside is one that does what it is asked, and the
  next check of a volume whose mount is dead is shown to replace the mount and to bind every
  published path to it again.
\<close>

section \<open>An outside that does what it is asked\<close>

text \<open>
  What happened since a moment, as the recovery makes it happen: the mount was released, then the
  directory it left was removed.
\<close>

definition released_by :: "event list \<Rightarrow> string \<Rightarrow> string \<Rightarrow> bool" where
  "released_by evs v path \<longleftrightarrow> ESvcUnmount v None \<in> set evs
     \<and> (\<forall>e \<in> set evs. is_quiet e \<or> e = ESvcUnmount v None \<or> (\<exists>r. e = EUnmount path r))"

definition removed_by :: "event list \<Rightarrow> string \<Rightarrow> string \<Rightarrow> bool" where
  "removed_by evs v path \<longleftrightarrow> ESvcUnmount v None \<in> set evs \<and> ERemoveAll path None \<in> set evs
     \<and> (\<forall>e \<in> set evs. is_quiet e \<or> e = ESvcUnmount v None \<or> e = ERemoveAll path None
          \<or> (\<exists>r. e = EUnmount path r))"

text \<open>Whether something may be mounted at a publish path: a stale bind may be there to begin with.\<close>

primrec maybe_bound :: "string \<Rightarrow> event list \<Rightarrow> bool" where
  "maybe_bound path [] \<longleftrightarrow> True"
| "maybe_bound path (e # h) \<longleftrightarrow> e \<noteq> EUnmount path None
     \<and> ((\<exists>s ro r. e = EBindMount s path ro r) \<or> maybe_bound path h)"

text \<open>
  The mount at a staging path is dead: as long as only probes happen its health check fails, and if
  it is published, its liveness check does too (the recovery leaves a published mount alone as long
  as that succeeds). \<open>dead_causes\<close> below lists what makes a mount dead in this sense.
\<close>

definition stays_dead :: "env \<Rightarrow> 'n node_scheme \<Rightarrow> string \<Rightarrow> bool \<Rightarrow> bool" where
  "stays_dead E w0 path published \<longleftrightarrow>
     (\<forall>w :: 'n node_scheme. (\<exists>evs. hist w = evs @ hist w0 \<and> list_all is_quiet evs) \<longrightarrow>
        \<not> fst (run_state (checkHealth E path) w) \<and> (published \<longrightarrow> \<not> fst (run_state (live E path) w)))"

text \<open>
  The mount service answers; once it has released the mount, the staging path is a plain
  directory, and once that is removed it is gone and can be made again.
\<close>

definition staging_works :: "env \<Rightarrow> event list \<Rightarrow> string \<Rightarrow> string \<Rightarrow> bool" where
  "staging_works E h0 v path \<longleftrightarrow> (\<forall>evs. let h = evs @ h0 in
     svc_Unmount E h v = None
     \<and> (\<forall>req. mr_VolumeID req = v \<and> mr_TargetPath req = path \<longrightarrow> svc_Mount E h req = None)
     \<and> (\<forall>socket n. mount_Configure E h socket n = None)
     \<and> (released_by evs v path \<longrightarrow> mu_IsLikelyNotMountPoint E h path = Inr True
          \<and> os_Lstat E h path = None \<and> mu_IsMountPoint E h path = (False, None)
          \<and> os_RemoveAll E h path = None)
     \<and> (removed_by evs v path \<longrightarrow> (\<exists>e. mu_IsMountPoint E h path = (False, Some e) \<and> is_not_exist e)
          \<and> os_MkdirAll E h path = None))"

text \<open>The publish paths can be unmounted, are no mount points then, and can be bound.\<close>

definition publishing_works :: "env \<Rightarrow> event list \<Rightarrow> string \<Rightarrow> (string \<times> bool) list \<Rightarrow> bool" where
  "publishing_works E h0 staging ps \<longleftrightarrow> (\<forall>evs. let h = evs @ h0 in \<forall>(path, ro) \<in> set ps.
     mu_Unmount E h path = None \<and> mu_BindMount E h staging path ro = None
     \<and> (\<not> maybe_bound path evs \<longrightarrow> mu_IsMountPoint E h path = (False, None)))"

text \<open>
  The volume's parameters can be used: they pass the checks of staging, the capacity is not
  malformed, the locality is one the driver knows and the operator's mount arguments are allowed.
\<close>

definition parameters_usable :: "SeaweedFsDriver \<Rightarrow> gomap \<Rightarrow> bool" where
  "parameters_usable driver ctx \<longleftrightarrow>
     validateConstrainedParameterValues ctx = None \<and> validateWritebackDlmCombo ctx = None
     \<and> (let c = goget ctx volumeCapacityKey in c = '''' \<or> (\<exists>n. parse_int64 c = Some n \<and> 0 \<le> n))
     \<and> \<not> isl (locality_of driver ctx) \<and> ValidateMountArgs (MountExtraArgs driver) = None
     \<and> NewClient (mountEndpoint driver) = None"

lemma usable_args:
  assumes "parameters_usable driver ctx"
    and "mo_volContext m = ctx \<or> (\<exists>n. mo_volContext m = goset volumeCapacityKey n ctx)"
  shows "\<exists>args. buildMountArgs ord driver m path cacheDir sock fs = Inr args"
proof -
  have "locality_of driver (mo_volContext m) = locality_of driver ctx"
    using assms(2) by (auto simp: locality_of_def goget_def update_conv' volumeCapacityKey_def)
  then show ?thesis
    using assms(1)
    by (cases "locality_of driver ctx") (auto simp: buildMountArgs_def parameters_usable_def Let_def)
qed

section \<open>Phases\<close>

text \<open>Where the recovery is, from the history and the map it found.\<close>

datatype phase = Untouched | Released | Removed

primrec in_phase :: "phase \<Rightarrow> event list \<Rightarrow> string \<Rightarrow> string \<Rightarrow> bool" where
  "in_phase Untouched evs v path \<longleftrightarrow> list_all is_quiet evs"
| "in_phase Released evs v path \<longleftrightarrow> released_by evs v path"
| "in_phase Removed evs v path \<longleftrightarrow> removed_by evs v path"

definition at_phase :: "phase \<Rightarrow> 'n node_scheme \<Rightarrow> string \<Rightarrow> string \<Rightarrow> 'n node_scheme \<Rightarrow> bool" where
  "at_phase ph w0 v path w \<longleftrightarrow> (\<exists>evs. hist w = evs @ hist w0 \<and> in_phase ph evs v path) \<and> volumes w = volumes w0"

lemma in_phase_quiet: "in_phase ph evs v path \<Longrightarrow> is_quiet e \<Longrightarrow> in_phase ph (e # evs) v path"
  by (cases ph) (auto simp: released_by_def removed_by_def)

interpretation phase: note_world "at_phase ph w0 v path" is_quiet for ph w0 v path
proof unfold_locales
  fix w :: "'a node_scheme" and e
  assume "at_phase ph w0 v path w" and "is_quiet e"
  then obtain evs where "hist w = evs @ hist w0" "in_phase ph (e # evs) v path" "volumes w = volumes w0"
    using in_phase_quiet by (auto simp: at_phase_def)
  then have "e # hist w = (e # evs) @ hist w0" by simp
  then show "at_phase ph w0 v path (w\<lparr>hist := e # hist w\<rparr>)"
    unfolding at_phase_def using \<open>in_phase ph (e # evs) v path\<close> \<open>volumes w = volumes w0\<close>
    by auto
qed (simp_all add: at_phase_def is_quiet_def)

lemma phase_state:
  "keeps (at_phase ph w0 v path) (getVolumeMutex u)" "keeps (at_phase ph w0 v path) (noteRecoveryAttempt E u)"
  "keeps (at_phase ph w0 v path) (resetStatfsProbe p)"
proof -
  have "keeps (at_phase ph w0 v path) (modify (\<lambda>w. w\<lparr>recoveryBackoff := f w\<rparr>))" for f
    by (simp add: keeps_def at_phase_def)
  then show "keeps (at_phase ph w0 v path) (noteRecoveryAttempt E u)"
    unfolding noteRecoveryAttempt_def Let_def
    by (intro keeps_rules phase.keeps_probe) (simp add: is_probe_def)
qed (simp_all add: keeps_def at_phase_def getVolumeMutex_def resetStatfsProbe_def)

section \<open>A dead mount fails its checks\<close>

text \<open>
  A mount is dead whose path cannot be stat-ed, is no mount point or whose checks never complete;
  and, if it is not published, one whose statfs hangs or finds the connection broken.
\<close>

lemma timed_check:
  "fst (run_state (checkHealth E path) w) \<Longrightarrow>
    \<exists>l. call_fate E (hist w) l = Completes \<and> fst (run_state (isStagingPathHealthy E path) (w\<lparr>hist := EFate l Completes # hist w\<rparr>))"
  "fst (run_state (live E path) w) \<Longrightarrow>
    \<exists>l. call_fate E (hist w) l = Completes \<and> fst (run_state (isStagingPathLive E path) (w\<lparr>hist := EFate l Completes # hist w\<rparr>))"
  by (auto simp: checkHealth_def checkHealthDetailed_def live_def runWithTimeout_def split_def split: fate.splits)

lemma stays_deadI:
  fixes w0 :: "'n node_scheme"
  assumes "\<And>(w :: 'n node_scheme) l evs. hist w = EFate l Completes # evs @ hist w0 \<Longrightarrow> list_all is_quiet evs \<Longrightarrow>
      call_fate E (evs @ hist w0) l = Completes \<Longrightarrow>
      \<not> fst (run_state (isStagingPathHealthy E path) w) \<and> (published \<longrightarrow> \<not> fst (run_state (isStagingPathLive E path) w))"
  shows "stays_dead E w0 path published"
  unfolding stays_dead_def
proof (intro allI impI, elim exE conjE)
  fix w :: "'n node_scheme" and evs
  assume w: "hist w = evs @ hist w0" "list_all is_quiet evs"
  have "\<not> fst (run_state (isStagingPathHealthy E path) (w\<lparr>hist := EFate l Completes # hist w\<rparr>))
      \<and> (published \<longrightarrow> \<not> fst (run_state (isStagingPathLive E path) (w\<lparr>hist := EFate l Completes # hist w\<rparr>)))"
    if "call_fate E (hist w) l = Completes" for l
    using assms [of "w\<lparr>hist := EFate l Completes # hist w\<rparr>" l evs] w that by simp
  then show "\<not> fst (run_state (checkHealth E path) w) \<and> (published \<longrightarrow> \<not> fst (run_state (live E path) w))"
    using timed_check by blast
qed

lemma mounted_there:
  "fst (run_state (isStagingPathHealthy E path) w) \<Longrightarrow> \<exists>r m a. os_Stat E (hist w) path = Inr r
    \<and> fst (mu_IsMountPoint E (EStat path (Inr r) # hist w) path)
    \<and> sys_Statfs E (EIsMountPoint path m # EStat path (Inr r) # hist w) path = Some a \<and> \<not> is_corrupted a"
  "fst (run_state (isStagingPathLive E path) w) \<Longrightarrow> \<exists>r. os_Stat E (hist w) path = Inr r
    \<and> fst (mu_IsMountPoint E (EStat path (Inr r) # hist w) path)"
  by (auto simp: isStagingPathHealthy_def isStagingPathLive_def probeStatfs_def split: sum.splits prod.splits if_splits option.splits)

lemma dead_causes:
  shows "(\<And>evs. list_all is_quiet evs \<Longrightarrow> isl (os_Stat E (evs @ hist w0) path)) \<Longrightarrow> stays_dead E w0 path published"
    and "(\<And>evs. list_all is_quiet evs \<Longrightarrow> \<not> fst (mu_IsMountPoint E (evs @ hist w0) path)) \<Longrightarrow>
      stays_dead E w0 path published"
    and "(\<And>evs l. list_all is_quiet evs \<Longrightarrow> call_fate E (evs @ hist w0) l \<noteq> Completes) \<Longrightarrow> stays_dead E w0 path published"
    and "(\<And>evs a. list_all is_quiet evs \<Longrightarrow> sys_Statfs E (evs @ hist w0) path = Some a \<Longrightarrow> is_corrupted a) \<Longrightarrow>
      stays_dead E w0 path False"
proof -
  have later: "list_all is_quiet (EFate l f # evs)" "list_all is_quiet (EStat path r # EFate l f # evs)"
    "list_all is_quiet (EIsMountPoint path m # EStat path r # EFate l f # evs)" if "list_all is_quiet evs" for l f r m evs
    using that by (simp_all add: is_quiet_def is_probe_def)
  show "stays_dead E w0 path published" if d: "\<And>evs. list_all is_quiet evs \<Longrightarrow> isl (os_Stat E (evs @ hist w0) path)"
    by (rule stays_deadI) (use d [OF later(1)] in \<open>auto dest!: mounted_there\<close>, (metis sum.disc(2))+)
  show "stays_dead E w0 path published"
    if d: "\<And>evs. list_all is_quiet evs \<Longrightarrow> \<not> fst (mu_IsMountPoint E (evs @ hist w0) path)"
    by (rule stays_deadI) (use d [OF later(2)] in \<open>auto dest!: mounted_there\<close>)
  show "stays_dead E w0 path published"
    if d: "\<And>evs l. list_all is_quiet evs \<Longrightarrow> call_fate E (evs @ hist w0) l \<noteq> Completes"
    by (rule stays_deadI) (use d in blast)
  show "stays_dead E w0 path False"
    if d: "\<And>evs a. list_all is_quiet evs \<Longrightarrow> sys_Statfs E (evs @ hist w0) path = Some a \<Longrightarrow> is_corrupted a"
    by (rule stays_deadI) (use d [OF later(3)] in \<open>auto dest!: mounted_there\<close>)
qed

lemma dead_fails:
  assumes "stays_dead E w0 path published" and "at_phase Untouched w0 v path w"
  shows "\<not> fst (fst (run_state (checkHealthDetailed E path) w))"
    and "\<not> fst (run_state (checkHealth E path) w)" and "published \<Longrightarrow> \<not> fst (run_state (live E path) w)"
  using assms by (auto simp: stays_dead_def at_phase_def checkHealth_def split_def)

lemma dead_steps:
  assumes "stays_dead E w0 path published"
  shows "ensures (at_phase Untouched w0 v path) (checkHealth E path) (\<lambda>ok. \<not> ok)"
    and "ensures (at_phase Untouched w0 v path) (checkHealthDetailed E path) (\<lambda>p. \<not> fst p)"
    and "published \<Longrightarrow> ensures (at_phase Untouched w0 v path) (live E path) (\<lambda>ok. \<not> ok)"
  unfolding ensures_def
  by (intro conjI allI impI phase.keeps_checkHealth phase.keeps_checkHealthDetailed phase.keeps_monitor_live
      dead_fails [OF assms]; assumption)+

lemma dead_probe:
  assumes "stays_dead E w0 path published"
  shows "ensures (at_phase Untouched w0 v path) (probeStaging E u path) (\<lambda>ok. \<not> ok)"
proof -
  have mark: "keeps (at_phase Untouched w0 v path) (emit (EHealthProbe u r))"
    "keeps (at_phase Untouched w0 v path) (emit (ESessionUp u b))" for r b
    by (rule phase.keeps_note, simp add: is_metric_def)+
  show ?thesis
    unfolding probeStaging_def
    by (rule ensures_bind [OF dead_steps(2) [OF assms]])
       (auto intro!: ensures_bind_any phase.keeps_monitor_live mark ensures_return)
qed

section \<open>From phase to phase\<close>

lemma leads_ensures: "ensures P m R \<Longrightarrow> leads P m (\<lambda>x w. R x \<and> P w)"
  by (simp add: leads_def ensures_def keeps_def split_def)

lemma leads_then:
  "leads P m (\<lambda>x w. S x \<and> Q w) \<Longrightarrow> (\<And>x. S x \<Longrightarrow> leads Q (f x) R) \<Longrightarrow> leads P (State_Monad.bind m f) R"
  by (fastforce simp: leads_def split: prod.splits)

lemma staging_worksD:
  assumes "staging_works E h0 v path"
  shows "svc_Unmount E (evs @ h0) v = None"
    and "mr_VolumeID req = v \<Longrightarrow> mr_TargetPath req = path \<Longrightarrow> svc_Mount E (evs @ h0) req = None"
    and "mount_Configure E (evs @ h0) socket n = None"
    and "released_by evs v path \<Longrightarrow> mu_IsLikelyNotMountPoint E (evs @ h0) path = Inr True"
    and "released_by evs v path \<Longrightarrow> os_Lstat E (evs @ h0) path = None"
    and "released_by evs v path \<Longrightarrow> mu_IsMountPoint E (evs @ h0) path = (False, None)"
    and "released_by evs v path \<Longrightarrow> os_RemoveAll E (evs @ h0) path = None"
    and "removed_by evs v path \<Longrightarrow> \<exists>e. mu_IsMountPoint E (evs @ h0) path = (False, Some e) \<and> is_not_exist e"
    and "removed_by evs v path \<Longrightarrow> os_MkdirAll E (evs @ h0) path = None"
  using assms unfolding staging_works_def Let_def by blast+

lemma unmount_step:
  assumes "staging_works E (hist w0) v path" and "vol_unmounter vol = Some v"
  shows "leads (at_phase Untouched w0 v path) (recover_unmount E v vol) (\<lambda>go w. go \<and> at_phase Released w0 v path w)"
  using staging_worksD(1) [OF assms(1)]
  by (auto simp: leads_def at_phase_def recover_unmount_def assms(2) unmounter_Unmount_def resetStatfsProbe_def
      released_by_def list_all_iff intro!: exI [of _ "_ # _"])

lemma released_event:
  "released_by evs v path \<Longrightarrow> is_quiet e \<Longrightarrow> released_by (e # evs) v path"
  "released_by evs v path \<Longrightarrow> released_by (EUnmount path r # evs) v path"
  "released_by evs v path \<Longrightarrow> removed_by (ERemoveAll path None # evs) v path"
  by (auto simp: released_by_def removed_by_def)

lemma released_not_removed: "released_by evs v path \<Longrightarrow> ERemoveAll path None \<notin> set evs"
  by (auto simp: released_by_def is_quiet_def is_probe_def is_metric_def)

lemma detach_step:
  assumes "staging_works E (hist w0) v path"
  shows "leads (at_phase Released w0 v path) (recover_detach E v path) (\<lambda>go w. go \<and> at_phase Released w0 v path w)"
  unfolding leads_def
proof (intro allI impI)
  fix w :: "'a node_scheme" assume "at_phase Released w0 v path w"
  then obtain evs where evs: "hist w = evs @ hist w0" "released_by evs v path" "volumes w = volumes w0"
    by (auto simp: at_phase_def)
  have "released_by (EIsLikelyNotMountPoint path (Inr True) # evs) v path"
    by (rule released_event(1) [OF evs(2)]) (simp add: is_quiet_def is_probe_def)
  moreover have "run_state (recover_detach E v path) w
      = (True, w\<lparr>hist := (EIsLikelyNotMountPoint path (Inr True) # evs) @ hist w0\<rparr>)"
    using staging_worksD(4) [OF assms evs(2)] by (simp add: recover_detach_def evs(1))
  ultimately show "case run_state (recover_detach E v path) w of (go, w') \<Rightarrow> go \<and> at_phase Released w0 v path w'"
    using evs(3) by (auto simp: at_phase_def)
qed

lemma stale_step:
  assumes "staging_works E (hist w0) v path"
  shows "leads (at_phase Released w0 v path) (cleanupStaleStagingPath E path)
    (\<lambda>c w. c = None \<and> at_phase Removed w0 v path w)"
  unfolding leads_def
proof (intro allI impI)
  fix w :: "'a node_scheme" assume "at_phase Released w0 v path w"
  then obtain evs where evs: "hist w = evs @ hist w0" "released_by evs v path" "volumes w = volumes w0"
    by (auto simp: at_phase_def)
  let ?h1 = "EUnmount path (mu_Unmount E (hist w) path) # evs"
  let ?h3 = "EIsMountPoint path (False, None) # ELstat path None # ?h1"
  have r1: "released_by ?h1 v path" by (rule released_event(2) [OF evs(2)])
  have r2: "released_by (ELstat path None # ?h1) v path"
    by (rule released_event(1) [OF r1]) (simp add: is_quiet_def is_probe_def)
  have r3: "released_by ?h3 v path"
    by (rule released_event(1) [OF r2]) (simp add: is_quiet_def is_probe_def)
  note works = staging_worksD(5) [OF assms r1] staging_worksD(6) [OF assms r2] staging_worksD(7) [OF assms r3]
  have "run_state (cleanupStaleStagingPath E path) w = (None, w\<lparr>hist := (ERemoveAll path None # ?h3) @ hist w0,
      probes := removeAll path (probes w)\<rparr>)"
    using works by (simp add: cleanupStaleStagingPath_def resetStatfsProbe_def evs(1))
  moreover have "removed_by (ERemoveAll path None # ?h3) v path" by (rule released_event(3) [OF r3])
  ultimately show "case run_state (cleanupStaleStagingPath E path) w of (c, w') \<Rightarrow>
      c = None \<and> at_phase Removed w0 v path w'"
    using evs(3) by (auto simp: at_phase_def)
qed

section \<open>The new mount\<close>

text \<open>The mount service has released the volume since, and mounted it again.\<close>

definition replaced :: "'n node_scheme \<Rightarrow> string \<Rightarrow> string \<Rightarrow> 'n node_scheme \<Rightarrow> bool" where
  "replaced w0 v path w \<longleftrightarrow> volumes w = volumes w0
     \<and> (\<exists>after req before. hist w = after @ ESvcMount req None # before @ hist w0
          \<and> mr_VolumeID req = v \<and> mr_TargetPath req = path \<and> ESvcUnmount v None \<in> set before)"

lemma replaced_event: "replaced w0 v path w \<Longrightarrow> replaced w0 v path (w\<lparr>hist := e # hist w\<rparr>)"
proof -
  assume r: "replaced w0 v path w"
  then obtain after req before where h: "hist w = after @ ESvcMount req None # before @ hist w0"
    "mr_VolumeID req = v" "mr_TargetPath req = path" "ESvcUnmount v None \<in> set before"
    by (auto simp: replaced_def)
  have "e # hist w = (e # after) @ ESvcMount req None # before @ hist w0" by (simp add: h(1))
  with r h(2-4) show ?thesis
    unfolding replaced_def by (intro conjI exI [of _ "e # after"] exI [of _ req] exI [of _ before]) simp_all
qed

lemma Stage_step:
  assumes works: "staging_works E (hist w0) v path" and "at_phase Removed w0 v path w"
    and "path \<noteq> ''''" and "mo_volumeID m = v"
    and "buildMountArgs ord driver m path (GetCacheDir (sha256_hex L) (os_TempDir L) (CacheDir driver) v)
      (GetLocalSocket (sha256_hex L) (volumeSocketDir driver) v) (mount_filers driver m) = Inr args"
  shows "\<exists>new w'. run_state (Stage L ord E driver m vol path) w = (Inr new, w') \<and> replaced w0 v path w'"
proof -
  obtain evs where evs: "hist w = evs @ hist w0" "removed_by evs v path" "volumes w = volumes w0"
    using assms(2) by (auto simp: at_phase_def)
  obtain e where e: "mu_IsMountPoint E (evs @ hist w0) path = (False, Some e)" "is_not_exist e"
    using staging_worksD(8) [OF works evs(2)] by blast
  let ?evs = "EIsMountPoint path (False, Some e) # evs"
  have "is_quiet (EIsMountPoint path (False, Some e))" by (simp add: is_quiet_def is_probe_def)
  with evs(2) have "removed_by ?evs v path" by (auto simp: removed_by_def)
  from staging_worksD(9) [OF works this]
  have mk: "os_MkdirAll E (EIsMountPoint path (False, Some e) # evs @ hist w0) path = None" by simp
  let ?req = "\<lparr>mr_VolumeID = v, mr_TargetPath = path,
    mr_CacheDir = GetCacheDir (sha256_hex L) (os_TempDir L) (CacheDir driver) v, mr_MountArgs = args,
    mr_LocalSocket = GetLocalSocket (sha256_hex L) (volumeSocketDir driver) v,
    mr_VolumeContext = mo_volContext m, mr_ReadOnly = mo_readOnly m\<rparr>"
  have "svc_Mount E ((EMkdirAll path None # ?evs) @ hist w0) ?req = None"
    by (rule staging_worksD(2) [OF works]) simp_all
  then have "run_state (Stage L ord E driver m vol path) w =
      (Inr (vol\<lparr>vol_StagedPath := path, vol_unmounter := Some v\<rparr>),
       w\<lparr>hist := [] @ ESvcMount ?req None # (EMkdirAll path None # ?evs) @ hist w0\<rparr>)"
    using e mk assms(3-5)
    by (simp add: Stage_def checkMount_def mounter_Mount_def evs(1) Let_def)
  moreover have "replaced w0 v path (w\<lparr>hist := [] @ ESvcMount ?req None # (EMkdirAll path None # ?evs) @ hist w0\<rparr>)"
    unfolding replaced_def using evs(2,3)
    by (intro conjI exI [of _ "[]"] exI [of _ ?req] exI [of _ "EMkdirAll path None # ?evs"]) (simp_all add: removed_by_def)
  ultimately show ?thesis by blast
qed

lemma stage_mounted_step:
  assumes works: "staging_works E (hist w0) v path" and "at_phase Removed w0 v path w" and "path \<noteq> ''''"
    and usable: "parameters_usable driver ctx"
    and c: "c = ctx \<or> (\<exists>n. c = goset volumeCapacityKey (format_int n) ctx)"
  shows "\<exists>new w'. run_state (stage_mounted L ord E driver v path c ro cap) w = (Inr new, w') \<and> replaced w0 v path w'"
proof -
  let ?m = "\<lparr>mo_volumeID = v, mo_readOnly = ro, mo_volContext = c\<rparr>"
  have new: "newMounter v ro driver c = Inr ?m"
    using usable by (simp add: newMounter_def parameters_usable_def)
  obtain args where "buildMountArgs ord driver ?m path (GetCacheDir (sha256_hex L) (os_TempDir L) (CacheDir driver) v)
      (GetLocalSocket (sha256_hex L) (volumeSocketDir driver) v) (mount_filers driver ?m) = Inr args"
    using usable_args [OF usable, of ?m] c by (metis mountServiceMounter.select_convs(3))
  from Stage_step [OF works assms(2,3) _ this, where vol = "(NewVolume L v ?m driver)
      \<lparr>vol_volContext := Some c, vol_readOnly := ro\<rparr>"]
  obtain new1 w1 where stage: "run_state (Stage L ord E driver ?m ((NewVolume L v ?m driver)
        \<lparr>vol_volContext := Some c, vol_readOnly := ro\<rparr>) path) w = (Inr new1, w1)" "replaced w0 v path w1"
    by auto
  show ?thesis
  proof (cases cap)
    case None
    with stage new show ?thesis by (simp add: stage_mounted_def)
  next
    case (Some n)
    let ?size = "if n = 1 then 0 else n"
    obtain after req before where h: "hist w1 = after @ ESvcMount req None # before @ hist w0"
        "mr_VolumeID req = v" "mr_TargetPath req = path"
      using stage(2) by (auto simp: replaced_def)
    have ok: "mount_Configure E (hist w1) socket k = None" for socket k
      using staging_worksD(3) [OF works, of "after @ ESvcMount req None # before"] by (simp add: h(1))
    have "run_state (stage_mounted L ord E driver v path c ro cap) w
        = (Inr new1, w1\<lparr>hist := EConfigure (vol_localSocket new1) ?size None # hist w1\<rparr>)"
      using stage(1) new ok by (simp add: stage_mounted_def Some Quota_def Let_def)
    with replaced_event [OF stage(2)] show ?thesis by blast
  qed
qed

lemma stage_step:
  assumes works: "staging_works E (hist w0) v path" and "path \<noteq> ''''"
    and usable: "\<And>w1 :: 'n node_scheme. \<exists>p. fst (run_state (loadPersistedVolumeAttributes L E driver v) w1) = Inr p
      \<and> parameters_usable driver (mergePersistedVolumeAttributes (cloneVolumeContext ctx) p)"
  shows "leads (at_phase Removed w0 v path) (stageNewVolume L ord E driver v path ctx ro)
    (\<lambda>s w :: 'n node_scheme. (\<exists>new. s = Inr new \<and> staged_volume v path ro new) \<and> replaced w0 v path w)"
  unfolding leads_def
proof (intro allI impI)
  fix w :: "'n node_scheme" assume at: "at_phase Removed w0 v path w"
  obtain p w1 where p: "run_state (loadPersistedVolumeAttributes L E driver v) w = (Inr p, w1)"
      "parameters_usable driver (mergePersistedVolumeAttributes (cloneVolumeContext ctx) p)"
    using usable [of w] by (metis prod.collapse)
  let ?ctx = "mergePersistedVolumeAttributes (cloneVolumeContext ctx) p"
  have at1: "at_phase Removed w0 v path w1" by (rule keepsD [OF phase.keeps_loadPersisted at p(1)])
  obtain c w2 where c: "run_state (resolveVolumeCapacity L E driver v ?ctx) w1 = (c, w2)" by (metis surj_pair)
  have at2: "at_phase Removed w0 v path w2" by (rule keepsD [OF phase.keeps_capacity at1 c])
  obtain cap where cap: "c = Inr cap"
    using c p(2) by (auto simp: resolveVolumeCapacity_def parameters_usable_def Let_def split: sum.splits prod.splits if_splits)
  let ?c = "case cap of None \<Rightarrow> ?ctx | Some n \<Rightarrow> goset volumeCapacityKey (format_int n) ?ctx"
  have "?c = ?ctx \<or> (\<exists>n. ?c = goset volumeCapacityKey (format_int n) ?ctx)" by (cases cap) auto
  from stage_mounted_step [OF works at2 assms(2) p(2) this]
  obtain new w3 where m: "run_state (stage_mounted L ord E driver v path ?c ro cap) w2 = (Inr new, w3)"
    "replaced w0 v path w3" by blast
  have "run_state (stageNewVolume L ord E driver v path ctx ro) w = (Inr new, w3)"
    using p c cap m(1) by (simp add: stageNewVolume_def parameters_usable_def Let_def)
  moreover from stageNewVolume_result [OF this] have "staged_volume v path ro new" .
  ultimately show "case run_state (stageNewVolume L ord E driver v path ctx ro) w of (s, w') \<Rightarrow>
      (\<exists>new. s = Inr new \<and> staged_volume v path ro new) \<and> replaced w0 v path w'"
    using m(2) by simp
qed

section \<open>The publish paths\<close>

lemma publishing_worksD:
  assumes "publishing_works E h0 staging ps" and "(path, ro) \<in> set ps"
  shows "mu_Unmount E (evs @ h0) path = None" and "mu_BindMount E (evs @ h0) staging path ro = None"
    and "\<not> maybe_bound path evs \<Longrightarrow> mu_IsMountPoint E (evs @ h0) path = (False, None)"
  using assms unfolding publishing_works_def Let_def by blast+

lemma tear_down_works:
  assumes works: "publishing_works E h0 staging ps0"
  shows "set ps \<subseteq> set ps0 \<Longrightarrow> hist w = evs @ h0 \<Longrightarrow>
    \<exists>evs' w'. run_state (tear_down_all E ps) w = (map (\<lambda>p. (p, True)) ps, w') \<and> hist w' = evs' @ hist w
      \<and> volumes w' = volumes w \<and> (\<forall>e \<in> set evs'. \<exists>p. e = EUnmount p None)
      \<and> (\<forall>p \<in> set ps. EUnmount (fst p) None \<in> set evs')"
proof (induction ps arbitrary: w evs)
  case (Cons p ps)
  have "p \<in> set ps0" using Cons.prems(1) by simp
  then have "(fst p, snd p) \<in> set ps0" by simp
  from publishing_worksD(1) [OF works this]
  have u: "mu_Unmount E (hist w) (fst p) = None" by (simp add: Cons.prems(2))
  let ?w1 = "w\<lparr>hist := EUnmount (fst p) None # hist w, probes := removeAll (fst p) (probes w)\<rparr>"
  have one: "run_state (tearDownStalePublishBind E (fst p)) w = (True, ?w1)"
    using u by (simp add: tearDownStalePublishBind_def resetStatfsProbe_def)
  have "set ps \<subseteq> set ps0" "hist ?w1 = (EUnmount (fst p) None # evs) @ h0" using Cons.prems by simp_all
  from Cons.IH [OF this] obtain evs' w' where rest:
    "run_state (tear_down_all E ps) ?w1 = (map (\<lambda>p. (p, True)) ps, w')" "hist w' = evs' @ hist ?w1"
    "volumes w' = volumes ?w1" "\<forall>e \<in> set evs'. \<exists>p. e = EUnmount p None"
    "\<forall>p \<in> set ps. EUnmount (fst p) None \<in> set evs'" by blast
  have "run_state (tear_down_all E (p # ps)) w = (map (\<lambda>p. (p, True)) (p # ps), w')"
    using one rest(1) by simp
  moreover have "hist w' = (evs' @ [EUnmount (fst p) None]) @ hist w" using rest(2) by simp
  ultimately show ?case using rest(3-5) by (intro exI [of _ "evs' @ [EUnmount (fst p) None]"] exI [of _ w']) auto
qed simp

lemma unmounted_unbound:
  "\<forall>e \<in> set evs'. \<exists>q. e = EUnmount q None \<Longrightarrow> EUnmount p None \<in> set evs' \<Longrightarrow> \<not> maybe_bound p (evs' @ evs)"
  by (induction evs') auto

lemma rebind_works:
  assumes works: "publishing_works E h0 staging ps0"
  shows "set ps \<subseteq> set ps0 \<Longrightarrow> hist w = evs @ h0 \<Longrightarrow> distinct (map fst ps) \<Longrightarrow>
    (\<forall>p \<in> set ps. \<not> maybe_bound (fst p) evs) \<Longrightarrow>
    \<exists>evs' w' vol. run_state (rebind_all E staging new (map (\<lambda>p. (p, True)) ps)) w = ((vol, [], ps), w')
      \<and> hist w' = evs' @ hist w \<and> volumes w' = volumes w
      \<and> (\<forall>(p, ro) \<in> set ps. EBindMount staging p ro None \<in> set evs')"
proof (induction ps arbitrary: w evs new)
  case (Cons p ps)
  obtain path ro where p: "p = (path, ro)" by (metis surj_pair)
  have p_in: "(path, ro) \<in> set ps0" using Cons.prems(1) by (simp add: p)
  let ?evs = "EBindMount staging path ro None # EIsMountPoint path (False, None) # evs"
  let ?w1 = "w\<lparr>hist := ?evs @ h0\<rparr>"
  have "\<not> maybe_bound path evs" using Cons.prems(4) by (simp add: p)
  from publishing_worksD(3) [OF works p_in this] publishing_worksD(2) [OF works p_in, of "EIsMountPoint path (False, None) # evs"]
  have one: "run_state (Publish E staging path ro) w = (None, ?w1)"
    by (simp add: Publish_def checkMount_def defaultBindMount_def Cons.prems(2))
  have "\<forall>q \<in> set ps. \<not> maybe_bound (fst q) ?evs"
    using Cons.prems(3,4) by (auto simp: p)
  moreover have "set ps \<subseteq> set ps0" "hist ?w1 = ?evs @ h0" "distinct (map fst ps)" using Cons.prems(1,3) by simp_all
  ultimately obtain evs' w' vol where rest:
    "run_state (rebind_all E staging (AddPublishPath path ro new) (map (\<lambda>p. (p, True)) ps)) ?w1 = ((vol, [], ps), w')"
    "hist w' = evs' @ hist ?w1" "volumes w' = volumes ?w1"
    "\<forall>(p, ro) \<in> set ps. EBindMount staging p ro None \<in> set evs'" using Cons.IH by meson
  have "run_state (rebind_all E staging new (map (\<lambda>p. (p, True)) (p # ps))) w = ((vol, [], p # ps), w')"
    using one rest(1) by (simp add: p)
  moreover have "hist w' = (evs' @ [EBindMount staging path ro None, EIsMountPoint path (False, None)]) @ hist w"
    using rest(2) by (simp add: Cons.prems(2))
  ultimately show ?case using rest(3,4)
    by (intro exI [of _ "evs' @ [EBindMount staging path ro None, EIsMountPoint path (False, None)]"] exI [of _ w'] exI [of _ vol])
       (auto simp: p)
qed simp

section \<open>The end of the recovery\<close>

text \<open>
  Since then the mount service has released the volume, then mounted it at its staging path, and
  after that the staging path was bound to every publish path, with its access mode.
\<close>

definition bound_again :: "event list \<Rightarrow> string \<Rightarrow> string \<Rightarrow> (string \<times> bool) list \<Rightarrow> event list \<Rightarrow> event list \<Rightarrow> bool" where
  "bound_again h0 v path ps marks h \<longleftrightarrow> (\<exists>after req before. h = after @ ESvcMount req None # before @ h0
     \<and> ESvcUnmount v None \<in> set before \<and> mr_VolumeID req = v \<and> mr_TargetPath req = path \<and> set marks \<subseteq> set after
     \<and> (\<forall>(p, ro) \<in> set ps. EBindMount path p ro None \<in> set after))"

lemma bound_event:
  "bound_again h0 v path ps marks h \<Longrightarrow> bound_again h0 v path ps marks (e # h)"
  "bound_again h0 v path ps marks h \<Longrightarrow> bound_again h0 v path ps (e # marks) (e # h)"
proof -
  assume "bound_again h0 v path ps marks h"
  then obtain after req before where h: "h = after @ ESvcMount req None # before @ h0" "ESvcUnmount v None \<in> set before" "mr_VolumeID req = v"
      "mr_TargetPath req = path" "set marks \<subseteq> set after" "\<forall>(p, ro) \<in> set ps. EBindMount path p ro None \<in> set after"
    unfolding bound_again_def by blast
  then show "bound_again h0 v path ps marks (e # h)" "bound_again h0 v path ps (e # marks) (e # h)"
    unfolding bound_again_def
    by (intro exI [of _ "e # after"] exI [of _ req] exI [of _ before]; auto)+
qed

interpretation bound: os_world "\<lambda>w. bound_again h0 v path ps marks (hist w)" "\<lambda>e. True" for h0 v path ps marks
  by unfold_locales (simp_all add: bound_event(1))

lemma publishes_step:
  assumes works: "publishing_works E (hist w0) path ps" and "distinct (map fst ps)" and "replaced w0 v path w"
  shows "bound_again (hist w0) v path ps [ERecovery v ''success'']
    (hist (snd (run_state (recover_publishes E v path dev ps new) w)))"
proof -
  obtain after req before where h: "hist w = (after @ ESvcMount req None # before) @ hist w0"
      "mr_VolumeID req = v" "mr_TargetPath req = path" "ESvcUnmount v None \<in> set before"
    using assms(3) by (auto simp: replaced_def)
  from tear_down_works [OF works order_refl h(1)] obtain e1 w1 where torn:
    "run_state (tear_down_all E ps) w = (map (\<lambda>p. (p, True)) ps, w1)" "hist w1 = e1 @ hist w"
    "\<forall>e \<in> set e1. \<exists>p. e = EUnmount p None" "\<forall>p \<in> set ps. EUnmount (fst p) None \<in> set e1" by blast
  have h1: "hist w1 = (e1 @ after @ ESvcMount req None # before) @ hist w0" by (simp add: torn(2) h(1))
  have "\<forall>p \<in> set ps. \<not> maybe_bound (fst p) (e1 @ after @ ESvcMount req None # before)"
    using unmounted_unbound [OF torn(3)] torn(4) by blast
  from rebind_works [OF works order_refl h1 assms(2) this, of new] obtain e2 w2 vol where bound:
    "run_state (rebind_all E path new (map (\<lambda>p. (p, True)) ps)) w1 = ((vol, [], ps), w2)" "hist w2 = e2 @ hist w1"
    "\<forall>(p, ro) \<in> set ps. EBindMount path p ro None \<in> set e2" by blast
  let ?I = "\<lambda>w. bound_again (hist w0) v path ps [] (hist w)"
  have "?I w2"
    unfolding bound_again_def using h(2-4) bound(3)
    by (intro exI [of _ "e2 @ e1 @ after"] exI [of _ req] exI [of _ before]) (auto simp: bound(2) h1)
  moreover have "keeps ?I (do { store_volume v vol; (if dev = '''' then ret ()
      else for_each ps (\<lambda>p. remountInContainers E (fst p) path dev (snd p))) })"
    unfolding store_volume_def by (intro keeps_rules bound.keeps_remountInContainers) (simp add: keeps_def)
  ultimately have "?I (snd (run_state (do { store_volume v vol; (if dev = '''' then ret ()
      else for_each ps (\<lambda>p. remountInContainers E (fst p) path dev (snd p))) }) w2))"
    by (rule keeps_run [rotated])
  then show ?thesis
    using torn(1) bound(1) by (auto simp: recover_publishes_def split_def intro!: bound_event)
qed

interpretation backoff: note_world "\<lambda>w. recoveryBackoff w = b" "\<lambda>e. True" for b
  by unfold_locales simp_all

text \<open>A volume whose mount is dead, on a node whose outside works.\<close>

definition repairable :: "libs \<Rightarrow> env \<Rightarrow> SeaweedFsDriver \<Rightarrow> string \<Rightarrow> Volume \<Rightarrow> 'n node_scheme \<Rightarrow> bool" where
  "repairable L E driver v vol w \<longleftrightarrow> vol_StagedPath vol \<noteq> '''' \<and> vol_volContext vol \<noteq> None
     \<and> vol_unmounter vol = Some v
     \<and> (\<forall>st evs. map_of (recoveryBackoff w) v = Some st \<longrightarrow> notBefore st \<le> time_Now E (evs @ hist w))
     \<and> stays_dead E w (vol_StagedPath vol) (vol_publishPaths vol \<noteq> []) \<and> staging_works E (hist w) v (vol_StagedPath vol)
     \<and> publishing_works E (hist w) (vol_StagedPath vol) (vol_publishPaths vol)
     \<and> (\<forall>w1 :: 'n node_scheme. \<exists>p. fst (run_state (loadPersistedVolumeAttributes L E driver v) w1) = Inr p
          \<and> parameters_usable driver (mergePersistedVolumeAttributes (cloneVolumeContext (vol_volContext vol)) p))"

lemma staging_progress:
  assumes r: "repairable L E driver v vol w0" and "distinct (map fst (vol_publishPaths vol))"
  shows "leads (at_phase Untouched w0 v (vol_StagedPath vol)) (recover_staging L ord E driver v vol dev)
    (\<lambda>_ w. bound_again (hist w0) v (vol_StagedPath vol) (vol_publishPaths vol) [ERecovery v ''success''] (hist w))"
proof -
  have works: "staging_works E (hist w0) v (vol_StagedPath vol)"
    and publish: "publishing_works E (hist w0) (vol_StagedPath vol) (vol_publishPaths vol)"
    and u: "vol_unmounter vol = Some v" and path: "vol_StagedPath vol \<noteq> ''''"
    using r by (simp_all add: repairable_def)
  have stage: "leads (at_phase Removed w0 v (vol_StagedPath vol))
      (stageNewVolume L ord E driver v (vol_StagedPath vol) (vol_volContext vol) (vol_readOnly vol))
      (\<lambda>s w. (\<exists>new. s = Inr new \<and> staged_volume v (vol_StagedPath vol) (vol_readOnly vol) new)
        \<and> replaced w0 v (vol_StagedPath vol) w)"
    by (rule stage_step [OF works path]) (use r in \<open>simp add: repairable_def\<close>)
  have publishes: "leads (replaced w0 v (vol_StagedPath vol))
      (recover_publishes E v (vol_StagedPath vol) dev (vol_publishPaths vol) new)
      (\<lambda>_ w. bound_again (hist w0) v (vol_StagedPath vol) (vol_publishPaths vol) [ERecovery v ''success''] (hist w))" for new
    using publishes_step [OF publish assms(2)] by (simp add: leads_def split_def)
  show ?thesis
    unfolding recover_staging_def Let_def
    by (rule leads_then [OF unmount_step [OF works u]], simp,
        rule leads_then [OF detach_step [OF works]], simp,
        rule leads_then [OF stale_step [OF works]], simp,
        rule leads_then [OF stage])
       (use publishes in auto)
qed

lemma throttle_over:
  assumes "repairable L E driver v vol w0"
  shows "ensures (\<lambda>w. at_phase Untouched w0 v path w \<and> recoveryBackoff w = recoveryBackoff w0)
    (recoveryThrottled E v) (\<lambda>t. \<not> t)"
proof -
  have "\<not> time_Now E (hist w) < notBefore st"
    if "at_phase Untouched w0 v path w" "map_of (recoveryBackoff w0) v = Some st" for w st
  proof -
    obtain evs where "hist w = evs @ hist w0" using \<open>at_phase Untouched w0 v path w\<close> by (auto simp: at_phase_def)
    moreover have "notBefore st \<le> time_Now E (evs @ hist w0)"
      using assms that(2) unfolding repairable_def by blast
    ultimately show ?thesis by simp
  qed
  moreover have "at_phase Untouched w0 v path (w\<lparr>hist := ENow n # hist w\<rparr>)" if "at_phase Untouched w0 v path w" for w n
    using that by (rule phase.I_event) (simp add: is_quiet_def is_probe_def)
  ultimately show ?thesis
    by (auto simp: ensures_def keeps_def recoveryThrottled_def split: option.split)
qed

lemma recovery_progress:
  assumes r: "repairable L E driver v vol w0" and "map_of (volumes w0) v = Some vol"
    and "distinct (map fst (vol_publishPaths vol))"
  shows "leads (\<lambda>w. at_phase Untouched w0 v (vol_StagedPath vol) w \<and> recoveryBackoff w = recoveryBackoff w0)
    (recoverVolume L ord E driver v)
    (\<lambda>_ w. bound_again (hist w0) v (vol_StagedPath vol) (vol_publishPaths vol) [ERecovery v ''success''] (hist w))"
proof -
  let ?P = "at_phase Untouched w0 v (vol_StagedPath vol)"
  let ?Q = "\<lambda>_ w. bound_again (hist w0) v (vol_StagedPath vol) (vol_publishPaths vol) [ERecovery v ''success''] (hist w)"
  have dead: "stays_dead E w0 (vol_StagedPath vol) (vol_publishPaths vol \<noteq> [])" and ctx: "vol_volContext vol \<noteq> None"
    using r by (simp_all add: repairable_def)
  have throttle: "leads (\<lambda>w. ?P w \<and> recoveryBackoff w = recoveryBackoff w0) (recoveryThrottled E v) (\<lambda>t w. \<not> t \<and> ?P w)"
    using leads_ensures [OF throttle_over [OF r]] by (fastforce simp: leads_def)
  have load: "leads ?P (load_volume v) (\<lambda>x w. x = Some vol \<and> ?P w)"
    using assms(2) by (simp add: leads_def load_volume_def at_phase_def)
  have alive: "leads ?P (if vol_publishPaths vol \<noteq> [] then live E (vol_StagedPath vol) else ret False)
      (\<lambda>a w. \<not> a \<and> ?P w)"
    using leads_ensures [OF dead_steps(3) [OF dead]] by (cases "vol_publishPaths vol = []") (simp_all add: leads_def)
  have staging: "leads ?P (recover_staging L ord E driver v vol dev) ?Q" for dev
    by (rule staging_progress [OF r assms(3)])
  show ?thesis
    unfolding recoverVolume_def
    by (rule leads_then [OF throttle], simp only: if_False simp_thms, rule leads_step [OF phase_state(1)],
        rule leads_then [OF load], simp only: option.case,
        rule leads_then [OF leads_ensures [OF dead_steps(1) [OF dead]]], simp only: if_False ctx simp_thms,
        rule leads_step [OF phase.keeps_capture_device], rule leads_then [OF alive],
        rule leads_step [OF phase_state(2)], simp add: staging)
qed

section \<open>Property\<close>

lemma check_progress:
  assumes r: "repairable L E driver v vol w" and wf: "node_inv w" and vol: "map_of (volumes w) v = Some vol"
    and run: "run_state (performVolumeHealthCheck L ord E driver v) w = (u, w')"
  shows "bound_again (hist w) v (vol_StagedPath vol) (vol_publishPaths vol) [ERecovery v ''success''] (hist w')"
    and "carried_over w v vol w'"
proof -
  let ?P = "at_phase Untouched w v (vol_StagedPath vol)"
  have "distinct (map fst (vol_publishPaths vol))"
    using map_of_SomeD [OF vol] wf by (auto simp: node_inv_def vol_ok_def)
  note recovery = recovery_progress [OF r vol this]
  obtain ok w1 where probe: "run_state (probeStaging E v (vol_StagedPath vol)) w = (ok, w1)" by (metis surj_pair)
  have at: "?P w" by (auto simp: at_phase_def)
  have dead: "ensures ?P (probeStaging E v (vol_StagedPath vol)) (\<lambda>ok. \<not> ok)"
    by (rule dead_probe [where published = "vol_publishPaths vol \<noteq> []"]) (use r in \<open>simp add: repairable_def\<close>)
  have "\<not> ok" and at1: "?P w1"
    using dead at probe by (auto simp: ensures_def keeps_def dest!: spec [of _ w])
  have frame: "recoveryBackoff w1 = recoveryBackoff w"
    using keepsD [OF backoff.keeps_probeStaging refl probe] by simp
  have rec: "run_state (recoverVolume L ord E driver v) w1 = (u, w')"
    using run r vol probe \<open>\<not> ok\<close> by (simp add: performVolumeHealthCheck_def load_volume_def repairable_def)
  show "bound_again (hist w) v (vol_StagedPath vol) (vol_publishPaths vol) [ERecovery v ''success''] (hist w')"
    using leadsD [OF recovery _ rec] at1 frame by blast
  have same: "volumes w1 = volumes w" using at1 by (simp add: at_phase_def)
  then have "node_inv w1" "map_of (volumes w1) v = Some vol" using wf vol by (simp_all add: node_inv_def)
  from recoverVolume_carries [OF this, of L ord E driver] rec same show "carried_over w v vol w'"
    by (simp add: carried_over_def)
qed

text \<open>
  C6: The monitor repairs a dead volume at its next check: take a node whose mount service and kernel
  do what they are asked, and a volume that was mounted through the mount service (it has an
  unmounter), whose volume context is known (not nil), whose parameters are usable and which is not
  within its backoff window. If its mount is dead, that is, its health check fails as long as only
  probes happen and, if it is published, its liveness check too, then the check has the mount
  service release the old mount and after that mount the volume at its staging path, binds the new
  mount to every publish path with its access mode, and reports success; the volume keeps its
  staging path and all its publish paths.
\<close>

theorem next_check_repairs_dead_volume:
  assumes "repairable L E driver v vol w" and "node_inv w" and "map_of (volumes w) v = Some vol"
    and "run_state (performVolumeHealthCheck L ord E driver v) w = (u, w')"
  shows "bound_again (hist w) v (vol_StagedPath vol) (vol_publishPaths vol) [ERecovery v ''success''] (hist w')
    \<and> carried_over w v vol w'"
  using check_progress [OF assms] by blast

text \<open>A node with a published volume whose FUSE mount died; the filers do not answer over HTTP.\<close>

definition dead_volume :: Volume where
  "dead_volume = demo_volume\<lparr>vol_VolumeId := ''v'', vol_unmounter := Some ''v''\<rparr>"

definition dead_node :: node where
  "dead_node = (empty_node [] [])\<lparr>volumes := [(''v'', dead_volume)]\<rparr>"

definition no_entry :: err where
  "no_entry = (errorf ''no such file or directory'')\<lparr>is_not_exist := True\<rparr>"

definition repair_env :: env where
  "repair_env = calm_env\<lparr>
     os_Stat := \<lambda>h p. if p = ''/s'' \<and> \<not> list_ex is_svc h
       then Inl ((errorf ''transport endpoint is not connected'')\<lparr>is_corrupted_mnt := True\<rparr>) else Inr True,
     mu_IsMountPoint := \<lambda>h p. if p = ''/s'' \<and> ERemoveAll p None \<in> set h then (False, Some no_entry) else (False, None),
     mu_IsLikelyNotMountPoint := \<lambda>h p. Inr True, http_Do := \<lambda>h r. Inl (errorf ''connection refused'')\<rparr>"

lemma unreachable_filers:
  "isl (fst (run_state (roundTrip_over L repair_env s m v body codes fs err) w))"
  by (induction fs arbitrary: err w) (auto simp: Let_def repair_env_def split: prod.split)

lemma no_attributes: "fst (run_state (loadPersistedVolumeAttributes L repair_env driver v) w) = Inr []"
proof -
  have tls: "vac_cfg repair_env = vac_cfg calm_env" by (simp add: repair_env_def)
  obtain s where "newFilerVacStore (vac_cfg repair_env) fs = Inr (s fs)" for fs
    unfolding tls by (simp add: newFilerVacStore_def vacStoreTLSConfig_def calm_env_def)
  let ?s = "s (vacFilersForVolume L driver v)"
  obtain err w1 where "run_state (roundTrip_over L repair_env ?s ''GET'' v '''' [200, 404] (vs_filers ?s) None) w = (Inl err, w1)"
    using unreachable_filers by (metis isl_def prod.collapse)
  then show ?thesis
    using \<open>\<And>fs. newFilerVacStore (vac_cfg repair_env) fs = Inr (s fs)\<close>
    by (simp add: loadPersistedVolumeAttributes_def vac_Read_def roundTrip_def)
qed

lemma dead_repairable: "repairable demo_libs repair_env demo_driver ''v'' dead_volume dead_node"
proof -
  have usable: "parameters_usable demo_driver []"
  proof -
    have "validateConstrainedParameterValues [] = None" "validateWritebackDlmCombo [] = None"
      "goget [] volumeCapacityKey = ''''" "\<not> isl (locality_of demo_driver [])"
      "ValidateMountArgs (MountExtraArgs demo_driver) = None" "NewClient (mountEndpoint demo_driver) = None"
      by code_simp+
    then show ?thesis by (simp add: parameters_usable_def)
  qed
  have quiet: "isl (os_Stat repair_env evs ''/s'')" if "list_all is_quiet evs" for evs
  proof -
    have "\<not> list_ex is_svc evs"
      using that by (induction evs) (auto simp: is_quiet_def is_probe_def is_metric_def is_svc_def split: event.splits)
    then show ?thesis by (simp add: repair_env_def)
  qed
  have "stays_dead repair_env dead_node ''/s'' True"
    by (rule dead_causes(1)) (simp add: quiet dead_node_def empty_node_def)
  moreover have "staging_works repair_env (hist dead_node) ''v'' ''/s''"
    unfolding staging_works_def
    by (simp add: repair_env_def calm_env_def Let_def no_entry_def released_not_removed removed_by_def dead_node_def
        empty_node_def)
  moreover have "publishing_works repair_env (hist dead_node) ''/s'' [(''/p'', False)]"
    by (simp add: publishing_works_def repair_env_def calm_env_def)
  moreover have "\<exists>p. fst (run_state (loadPersistedVolumeAttributes demo_libs repair_env demo_driver ''v'') w1) = Inr p
      \<and> parameters_usable demo_driver (mergePersistedVolumeAttributes [] p)" for w1 :: node
  proof -
    have "mergePersistedVolumeAttributes [] [] = []" by code_simp
    then show ?thesis using no_attributes usable by metis
  qed
  ultimately show ?thesis
    unfolding repairable_def
    by (simp add: dead_volume_def demo_volume_def dead_node_def empty_node_def cloneVolumeContext_def)
qed

theorem next_check_repairs_dead_volume_witness:
  "\<exists>after req before. hist (snd (run_state (performVolumeHealthCheck demo_libs id repair_env demo_driver ''v'') dead_node))
       = after @ ESvcMount req None # before \<and> mr_TargetPath req = ''/s'' \<and> ESvcUnmount ''v'' None \<in> set before
     \<and> EBindMount ''/s'' ''/p'' False None \<in> set after \<and> ERecovery ''v'' ''success'' \<in> set after"
proof -
  have inv: "node_inv dead_node"
    by (simp add: node_inv_def vol_ok_def dead_node_def dead_volume_def demo_volume_def empty_node_def)
  have vol: "map_of (volumes dead_node) ''v'' = Some dead_volume" by (simp add: dead_node_def)
  have fields: "vol_StagedPath dead_volume = ''/s''" "vol_publishPaths dead_volume = [(''/p'', False)]" "hist dead_node = []"
    by (simp_all add: dead_volume_def demo_volume_def dead_node_def empty_node_def)
  from next_check_repairs_dead_volume [OF dead_repairable inv vol prod.collapse [symmetric]]
  show ?thesis unfolding bound_again_def fields by fastforce
qed

end
