(* ===== verification/Controller.thy ===== *)
theory Controller
  imports VacStore K8s MountArgs
begin

text \<open>
  The CSI controller service (pkg/driver/controllerserver.go). Calls on a filer go through the
  filers of the driver or of the clone the volume ID or the StorageClass names; the rotation over
  them is \<open>Driver\<close>'s. Volume names are ASCII text. The paging of a directory's children has no
  bound of its own, so \<open>DeleteVolume\<close> is a partial function: \<open>None\<close> is a listing that never ends.
\<close>

section \<open>Requests and responses\<close>

record CreateVolumeRequest =
  cr_Name :: string
  cr_Parameters :: gomap
  cr_MutableParameters :: gomap
  cr_VolumeCapabilities :: "VolumeCapability list option"
  cr_RequiredBytes :: int
  cr_Requisite :: "gomap list"
  cr_Preferred :: "gomap list"

record CreatedVolume =
  cv_VolumeId :: string
  cv_CapacityBytes :: int
  cv_VolumeContext :: gomap
  cv_AccessibleTopology :: "gomap list"

definition accessibleTopology :: "gomap list \<Rightarrow> gomap list \<Rightarrow> gomap list" where
  "accessibleTopology requisite preferred = (if requisite \<noteq> [] then requisite else preferred)"

section \<open>Names\<close>

definition defaultBucketDir :: string where "defaultBucketDir = ''/buckets''"

definition safe_volume_char :: "char \<Rightarrow> bool" where
  "safe_volume_char c \<longleftrightarrow> c = CHR ''-'' \<or> c = CHR ''.'' \<or> is_alnum_char c"

definition hashed_name :: "libs \<Rightarrow> string \<Rightarrow> string" where
  "hashed_name L v = take 21 (map (\<lambda>c. if safe_volume_char c then c else CHR ''-'') (to_lower v))
     @ ''.'' @ sha1_hex L v"

definition sanitizeVolumeIdS3 :: "libs \<Rightarrow> string \<Rightarrow> string" where
  "sanitizeVolumeIdS3 L volumeId =
     (let low = to_lower volumeId;
          v = (if length low > 63 then sha1_hex L low else low)
      in if \<not> VerifyS3BucketName L v then hashed_name L v else v)"

text \<open>The parent directory, the name and the path of a volume to create.\<close>

definition volume_names :: "libs \<Rightarrow> gomap \<Rightarrow> string \<Rightarrow> string \<times> string \<times> string" where
  "volume_names L params requestedVolumeId =
     (let volumePath = goget params ''path''
      in if volumePath = '''' then
           (let given = goget params ''parentDir'';
                parentDir = (if given = '''' then ''/buckets'' else given);
                volumeName = (if parentDir = ''/buckets'' then sanitizeVolumeIdS3 L requestedVolumeId
                  else requestedVolumeId)
            in (parentDir, volumeName, path_join [parentDir, volumeName]))
         else (path_dir (path_clean volumePath), path_base (path_clean volumePath), path_clean volumePath))"

section \<open>CreateVolume\<close>

definition client_for :: "libs \<Rightarrow> SeaweedFsDriver \<Rightarrow> string \<Rightarrow> SeaweedFsDriver" where
  "client_for L driver filerAddress =
     (if filerAddress \<noteq> '''' then CloneWithFiler L driver filerAddress else driver)"

text \<open>The volume context: names resolved, mutable parameters over them, then the capacity.\<close>

definition create_context :: "libs \<Rightarrow> CreateVolumeRequest \<Rightarrow> gomap" where
  "create_context L req =
     (case volume_names L (cr_Parameters req) (cr_Name req) of
        (parentDir, volumeName, _) \<Rightarrow>
          (let params = overlay (\<lambda>_. True)
             (goset ''volumeName'' volumeName (goset ''parentDir'' parentDir (cr_Parameters req)))
             (cr_MutableParameters req)
           in if cr_RequiredBytes req > 0
              then goset volumeCapacityKey (format_int (cr_RequiredBytes req)) params else params))"

definition CreateVolume ::
  "libs \<Rightarrow> env \<Rightarrow> SeaweedFsDriver \<Rightarrow> CreateVolumeRequest \<Rightarrow> ('w, err + CreatedVolume) io" where
  "CreateVolume L E driver req =
     (if cr_Name req = '''' then ret (Inl (status_error InvalidArgument ''Name missing in request''))
      else
        (case (if cr_MutableParameters req \<noteq> [] then validateMutableParameters (cr_MutableParameters req)
               else None) of
           Some err \<Rightarrow> ret (Inl (status_error InvalidArgument (err_text err)))
         | None \<Rightarrow>
             (case ValidateControllerServiceRequest driver CREATE_DELETE_VOLUME of
                Some err \<Rightarrow> ret (Inl err)
              | None \<Rightarrow>
                  if cr_VolumeCapabilities req = None then
                    ret (Inl (status_error InvalidArgument ''Volume Capabilities missing in request''))
                  else
                    (case volume_names L (cr_Parameters req) (cr_Name req) of
                       (parentDir, volumeName, volumePath) \<Rightarrow>
                         (let params = create_context L req;
                              filerAddress = goget params ''filer'';
                              fs = filers (client_for L driver filerAddress)
                          in do {
                            m \<leftarrow> ext (\<lambda>h. filer_Mkdir E h fs parentDir volumeName)
                              (EFilerMkdir fs parentDir volumeName);
                            (case m of
                               Some err \<Rightarrow> ret (Inl (errorf (''error creating volume: '' @ err_text err)))
                             | None \<Rightarrow> ret (Inr
                                 \<lparr>cv_VolumeId = EncodeVolumeID filerAddress volumePath,
                                  cv_CapacityBytes = cr_RequiredBytes req, cv_VolumeContext = params,
                                  cv_AccessibleTopology = accessibleTopology (cr_Requisite req)
                                    (cr_Preferred req)\<rparr>))
                          })))))"

section \<open>Volumes by their ID\<close>

definition resolveVolume ::
  "libs \<Rightarrow> SeaweedFsDriver \<Rightarrow> string \<Rightarrow> err + SeaweedFsDriver \<times> string" where
  "resolveVolume L driver volumeID =
     (case DecodeVolumeID volumeID of (filerAddress, parsedPath) \<Rightarrow>
        let clean = path_clean parsedPath
        in if clean = ''.'' \<or> clean = ''/'' \<or> clean = ''/buckets'' then
             Inl (status_error InvalidArgument (''invalid volume ID '' @ quoted volumeID))
           else Inr (client_for L driver filerAddress, parsedPath))"

text \<open>The entry of a volume; a relative path is a legacy ID, a name in /buckets.\<close>

definition volume_entry :: "string \<Rightarrow> string \<times> string" where
  "volume_entry volumeId =
     (if path_is_abs volumeId then (path_dir volumeId, path_base volumeId) else (''/buckets'', volumeId))"

section \<open>Emptying a bucket\<close>

definition bucketChildrenPageSize :: nat where "bucketChildrenPageSize = 1000"

definition isNotFoundError :: "libs \<Rightarrow> err \<Rightarrow> bool" where
  "isNotFoundError L err \<longleftrightarrow> is_entry_not_found err \<or> str_contains (err_text err) (ErrNotFound_text L)"

definition filerBucketDir :: "env \<Rightarrow> string list \<Rightarrow> ('w, err + string) io" where
  "filerBucketDir E fs = do {
     c \<leftarrow> ext (\<lambda>h. filer_Configuration E h fs) (EFilerConfiguration fs);
     ret (case c of
        Inl err \<Rightarrow> Inl (wrap_err ''get filer bucket directory: '' err)
      | Inr dir \<Rightarrow> Inr (if dir = '''' then defaultBucketDir else dir))
   }"

definition last_name :: "string list \<Rightarrow> string" where
  "last_name page = (if page = [] then '''' else last page)"

text \<open>A page: the names, the last of them, and whether there may be more.\<close>

definition listFilerChildrenPage ::
  "env \<Rightarrow> string list \<Rightarrow> string \<Rightarrow> string \<Rightarrow> nat \<Rightarrow> ('w, err + string list \<times> string \<times> bool) io" where
  "listFilerChildrenPage E fs dirPath after limit = do {
     l \<leftarrow> ext (\<lambda>h. filer_List E h fs dirPath after limit)
       (\<lambda>l. EFilerList fs dirPath after limit (snd l));
     (case l of
        (entries, Some err) \<Rightarrow> ret (Inl err)
      | (entries, None) \<Rightarrow>
          (let page = filter (\<lambda>name. name \<noteq> '''') (map fst entries)
           in ret (Inr (page, last_name page, page \<noteq> [] \<and> \<not> list_ex snd entries))))
   }"

definition deleteEntry ::
  "env \<Rightarrow> string list \<Rightarrow> string \<Rightarrow> string \<Rightarrow> bool \<Rightarrow> ('w, err option) io" where
  "deleteEntry E fs parentPath name ignoreRecursiveError =
     ext (\<lambda>h. filer_Remove E h fs parentPath name ignoreRecursiveError)
       (EFilerRemove fs parentPath name ignoreRecursiveError)"

fun delete_children :: "env \<Rightarrow> string list \<Rightarrow> string \<Rightarrow> string list \<Rightarrow> ('w, err option) io" where
  "delete_children E fs bucketPath [] = ret None"
| "delete_children E fs bucketPath (child # children) = do {
     r \<leftarrow> deleteEntry E fs bucketPath child False;
     (case r of
        Some err \<Rightarrow> ret (Some (wrap_err (''delete child '' @ child @ '' of volume ''
          @ bucketPath @ '': '') err))
      | None \<Rightarrow> delete_children E fs bucketPath children)
   }"

text \<open>One turn of the paging loop: \<open>Inl\<close> the result, \<open>Inr\<close> the name the next page starts after.\<close>

definition empty_page ::
  "libs \<Rightarrow> env \<Rightarrow> string list \<Rightarrow> string \<Rightarrow> string \<Rightarrow> ('w, err option + string) io" where
  "empty_page L E fs bucketPath after = do {
     l \<leftarrow> listFilerChildrenPage E fs bucketPath after bucketChildrenPageSize;
     (case l of
        Inl err \<Rightarrow> ret (Inl (if isNotFoundError L err then None else Some err))
      | Inr (page, lst, hasMore) \<Rightarrow> do {
          d \<leftarrow> delete_children E fs bucketPath page;
          ret (case d of
             Some err \<Rightarrow> Inl (Some err)
           | None \<Rightarrow> if \<not> hasMore \<or> lst = '''' then Inl None else Inr lst)
        })
   }"

partial_function (option) empty_pages ::
  "libs \<Rightarrow> env \<Rightarrow> string list \<Rightarrow> string \<Rightarrow> string \<Rightarrow> 'w world_scheme \<Rightarrow>
   (err option \<times> 'w world_scheme) option" where
  "empty_pages L E fs bucketPath after w =
     (case run_state (empty_page L E fs bucketPath after) w of
        (Inl r, w1) \<Rightarrow> Some (r, w1)
      | (Inr next, w1) \<Rightarrow> empty_pages L E fs bucketPath next w1)"

declare empty_pages.simps [code]

definition emptyBucketChildren ::
  "libs \<Rightarrow> env \<Rightarrow> string list \<Rightarrow> string \<Rightarrow> 'w world_scheme \<Rightarrow> (err option \<times> 'w world_scheme) option" where
  "emptyBucketChildren L E fs bucketPath w =
     (case run_state (filerBucketDir E fs) w of
        (Inl err, w1) \<Rightarrow> Some (Some err, w1)
      | (Inr bucketDir, w1) \<Rightarrow>
          if path_dir bucketPath \<noteq> bucketDir then Some (None, w1)
          else empty_pages L E fs bucketPath '''' w1)"

section \<open>DeleteVolume\<close>

text \<open>
  After the entry is gone the persisted attributes are removed on a best-effort basis, under the
  ID of the request; a failure there is only logged.
\<close>

definition delete_attributes :: "libs \<Rightarrow> env \<Rightarrow> SeaweedFsDriver \<Rightarrow> string \<Rightarrow> ('w, unit) io" where
  "delete_attributes L E driver volumeId =
     (case newFilerVacStore (vac_cfg E) (vacFilersForVolume L driver volumeId) of
        Inl err \<Rightarrow> ret ()
      | Inr store \<Rightarrow> do { _ \<leftarrow> vac_Delete L E store volumeId; ret () })"

definition delete_volume_entry ::
  "libs \<Rightarrow> env \<Rightarrow> SeaweedFsDriver \<Rightarrow> string \<Rightarrow> string list \<Rightarrow> string \<Rightarrow> ('w, err option) io" where
  "delete_volume_entry L E driver requested fs volumeId =
     (case volume_entry volumeId of
        (parentDir, volumeName) \<Rightarrow> do {
          d \<leftarrow> deleteEntry E fs parentDir volumeName True;
          (case d of
             Some err \<Rightarrow> ret (Some (errorf (''error deleting volume '' @ volumeId @ '': '' @ err_text err)))
           | None \<Rightarrow> do { delete_attributes L E driver requested; ret None })
        })"

definition DeleteVolume ::
  "libs \<Rightarrow> env \<Rightarrow> SeaweedFsDriver \<Rightarrow> string \<Rightarrow> 'w world_scheme \<Rightarrow>
   (err option \<times> 'w world_scheme) option" where
  "DeleteVolume L E driver requested w =
     (if requested = '''' then
        Some (Some (status_error InvalidArgument ''Volume ID missing in request''), w)
      else
        (case ValidateControllerServiceRequest driver CREATE_DELETE_VOLUME of
           Some err \<Rightarrow> Some (Some err, w)
         | None \<Rightarrow>
             (case resolveVolume L driver requested of
                Inl err \<Rightarrow> Some (Some err, w)
              | Inr (clientDriver, volumeId) \<Rightarrow>
                  (case volume_entry volumeId of
                     (parentDir, volumeName) \<Rightarrow>
                       (case emptyBucketChildren L E (filers clientDriver)
                               (path_join [parentDir, volumeName]) w of
                          None \<Rightarrow> None
                        | Some (Some err, w1) \<Rightarrow>
                            Some (Some (errorf (''error emptying volume '' @ volumeId @ '': ''
                              @ err_text err)), w1)
                        | Some (None, w1) \<Rightarrow>
                            Some (run_state (delete_volume_entry L E driver requested
                              (filers clientDriver) volumeId) w1))))))"

section \<open>The remaining operations\<close>

definition ControllerPublishVolume :: "string \<Rightarrow> string \<Rightarrow> err option" where
  "ControllerPublishVolume volumeId nodeId =
     (if volumeId = '''' then Some (status_error InvalidArgument ''Volume ID missing in request'')
      else if nodeId = '''' then Some (status_error InvalidArgument ''Node ID missing in request'')
      else None)"

definition ControllerUnpublishVolume :: "string \<Rightarrow> err option" where
  "ControllerUnpublishVolume volumeId =
     (if volumeId = '''' then Some (status_error InvalidArgument ''Volume ID missing in request'')
      else None)"

text \<open>An answer to a validation: the capabilities confirmed, or none with a message.\<close>

record CapabilityValidation =
  Confirmed :: "VolumeCapability list option"
  Message :: string

definition check_capabilities ::
  "SeaweedFsDriver \<Rightarrow> VolumeCapability list \<Rightarrow> err + CapabilityValidation" where
  "check_capabilities driver caps =
     (if list_ex (\<lambda>cap. GetMode cap \<noteq> SINGLE_NODE_WRITER) caps then
        Inr \<lparr>Confirmed = None, Message = ''Only single node writer is supported''\<rparr>
      else if caps = [] then
        Inl (status_error InvalidArgument ''Volume capabilities not provided'')
      else Inr \<lparr>Confirmed = (if isValidVolumeCapabilities (vcap driver) caps then Some caps else None),
        Message = ''''\<rparr>)"

text \<open>\<open>None\<close> for the capabilities is a nil list of the request.\<close>

definition ValidateVolumeCapabilities ::
  "libs \<Rightarrow> env \<Rightarrow> SeaweedFsDriver \<Rightarrow> string \<Rightarrow> VolumeCapability list option \<Rightarrow>
   ('w, err + CapabilityValidation) io" where
  "ValidateVolumeCapabilities L E driver requested capabilities =
     (if requested = '''' then
        ret (Inl (status_error InvalidArgument ''Volume ID missing in request''))
      else
        (case capabilities of
           None \<Rightarrow> ret (Inl (status_error InvalidArgument ''Volume capabilities missing in request''))
         | Some caps \<Rightarrow>
             (case resolveVolume L driver requested of
                Inl err \<Rightarrow> ret (Inl err)
              | Inr (clientDriver, volumeId) \<Rightarrow>
                  (case volume_entry volumeId of
                     (parentDir, volumeName) \<Rightarrow> do {
                       x \<leftarrow> ext (\<lambda>h. filer_Exists E h (filers clientDriver) parentDir volumeName)
                         (EFilerExists (filers clientDriver) parentDir volumeName);
                       ret (case x of
                          Inl err \<Rightarrow> Inl (errorf (''error checking bucket '' @ requested @ '' exists: ''
                            @ err_text err))
                        | Inr found \<Rightarrow>
                            if \<not> found then Inl (status_error NotFound
                              (''Volume with id '' @ requested @ '' does not exist''))
                            else check_capabilities driver caps)
                     }))))"

definition ControllerGetCapabilities :: "SeaweedFsDriver \<Rightarrow> ControllerCap list" where
  "ControllerGetCapabilities driver = cscap driver"

text \<open>The capacity answered, and that the node has to expand as well.\<close>

definition ControllerExpandVolume :: "int \<Rightarrow> int \<times> bool" where
  "ControllerExpandVolume requiredBytes = (requiredBytes, True)"

section \<open>ControllerModifyVolume\<close>

definition persist_parameters ::
  "libs \<Rightarrow> env \<Rightarrow> SeaweedFsDriver \<Rightarrow> string \<Rightarrow> gomap \<Rightarrow> ('w, err option) io" where
  "persist_parameters L E driver volumeID params =
     (case newFilerVacStore (vac_cfg E) (vacFilersForVolume L driver volumeID) of
        Inl err \<Rightarrow> ret (Some err)
      | Inr store \<Rightarrow> vac_Write L E store volumeID params)"

definition ControllerModifyVolume ::
  "libs \<Rightarrow> env \<Rightarrow> SeaweedFsDriver \<Rightarrow> string \<Rightarrow> gomap \<Rightarrow> ('w, err option) io" where
  "ControllerModifyVolume L E driver volumeID params =
     (if volumeID = '''' then
        ret (Some (status_error InvalidArgument ''volume id missing in request''))
      else if params = [] then
        ret (Some (status_error InvalidArgument ''mutable parameters missing in request''))
      else
        (case validateMutableParameters params of
           Some err \<Rightarrow> ret (Some (status_error InvalidArgument (err_text err)))
         | None \<Rightarrow> do {
             a \<leftarrow> GetVolumeAttributes L E (dr_name driver) volumeID;
             (case a of
                Inl err \<Rightarrow> ret (Some (status_error Internal
                  (''reading PV attributes for '' @ volumeID @ '': '' @ err_text err)))
              | Inr attrs \<Rightarrow>
                  (let effective = effective_parameters attrs params
                   in case validateConstrainedParameterValues effective of
                        Some err \<Rightarrow> ret (Some (status_error InvalidArgument (err_text err)))
                      | None \<Rightarrow>
                          (case validateWritebackDlmCombo effective of
                             Some err \<Rightarrow> ret (Some (status_error InvalidArgument (err_text err)))
                           | None \<Rightarrow> do {
                               p \<leftarrow> persist_parameters L E driver volumeID params;
                               ret (map_option (\<lambda>err. status_error Internal
                                 (''persisting modified parameters for '' @ volumeID @ '': ''
                                   @ err_text err)) p)
                             })))
           }))"

end
