(* ===== verification/ControllerProps.thy ===== *)
theory ControllerProps
  imports Controller NodeServer
begin

text \<open>
  What the controller service guarantees: which filer entries a run touches, that emptying a
  bucket ends and reaches every child, that a volume's ID leads \<open>DeleteVolume\<close> back to the entry
  \<open>CreateVolume\<close> made, and that what \<open>ControllerModifyVolume\<close> accepts can be staged.
\<close>

section \<open>The events of a run\<close>

text \<open>Since the history \<open>h\<close> only events in \<open>P\<close> have been recorded.\<close>

definition since :: "(event \<Rightarrow> bool) \<Rightarrow> event list \<Rightarrow> 'w world_scheme \<Rightarrow> bool" where
  "since P h w \<longleftrightarrow> (\<exists>evs. hist w = evs @ h \<and> list_all P evs)"

lemma since_refl [simp, intro]: "since P (hist w) w"
  by (simp add: since_def)

lemma since_trans [trans]: "since P h w \<Longrightarrow> since P (hist w) w' \<Longrightarrow> since P h w'"
  by (auto simp: since_def)

lemma since_mono: "since P h w \<Longrightarrow> (\<And>e. P e \<Longrightarrow> Q e) \<Longrightarrow> since Q h w"
  by (auto simp: since_def list_all_iff)

lemma since_event [simp]: "P e \<Longrightarrow> since P (hist w) (w\<lparr>hist := e # hist w\<rparr>)"
  by (auto simp: since_def intro: exI [of _ "[e]"])

definition filer_removal :: "event \<Rightarrow> (string list \<times> string \<times> string \<times> bool \<times> err option) option" where
  "filer_removal e = (case e of EFilerRemove fs d n rec r \<Rightarrow> Some (fs, d, n, rec, r) | _ \<Rightarrow> None)"

lemma filer_removal_simps [simp]:
  "filer_removal (EFilerRemove fs d n rec r) = Some (fs, d, n, rec, r)"
  "filer_removal (EFilerConfiguration fs c) = None"
  "filer_removal (EFilerList fs d a l x) = None"
  "filer_removal (EHttp q y) = None"
  by (simp_all add: filer_removal_def)

text \<open>A removal of a direct child of \<open>dir\<close> on \<open>fs\<close>, and one that succeeded; no request over HTTP.\<close>

definition child_removal :: "string list \<Rightarrow> string \<Rightarrow> bool \<Rightarrow> event \<Rightarrow> bool" where
  "child_removal fs dir only_done e \<longleftrightarrow>
     (\<forall>fs' d n rec r. filer_removal e = Some (fs', d, n, rec, r) \<longrightarrow>
        fs' = fs \<and> d = dir \<and> \<not> rec \<and> (only_done \<longrightarrow> r = None))
     \<and> (\<forall>q a. e \<noteq> EHttp q a)"

lemma child_removal_simps [simp]:
  "child_removal fs dir b (EFilerRemove fs' d n rec r) \<longleftrightarrow>
     fs' = fs \<and> d = dir \<and> \<not> rec \<and> (b \<longrightarrow> r = None)"
  "child_removal fs dir b (EFilerConfiguration fs' c)"
  "child_removal fs dir b (EFilerList fs' d' a l x)"
  by (simp_all add: child_removal_def)

lemma child_removal_weaken: "child_removal fs dir True e \<Longrightarrow> child_removal fs dir b e"
  by (auto simp: child_removal_def)

lemma since_child_weaken: "since (child_removal fs dir True) h w \<Longrightarrow> since (child_removal fs dir b) h w"
  by (erule since_mono) (rule child_removal_weaken)

lemma delete_children_events:
  assumes "run_state (delete_children E fs dir children) w = (r, w')"
  shows "since (child_removal fs dir (r = None)) (hist w) w'"
  using assms
proof (induction children arbitrary: w)
  case (Cons child children)
  let ?x = "filer_Remove E (hist w) fs dir child False"
  let ?w1 = "w\<lparr>hist := EFilerRemove fs dir child False ?x # hist w\<rparr>"
  show ?case
  proof (cases ?x)
    case None
    then have "run_state (delete_children E fs dir children) ?w1 = (r, w')"
      using Cons.prems by (simp add: deleteEntry_def)
    from Cons.IH [OF this] show ?thesis
      by (rule since_trans [rotated]) (simp add: None)
  next
    case (Some err)
    then show ?thesis using Cons.prems by (auto simp: deleteEntry_def)
  qed
qed auto

lemma empty_page_events:
  assumes "run_state (empty_page L E fs dir after) w = (r, w')"
  shows "since (child_removal fs dir (\<forall>err. r \<noteq> Inl (Some err))) (hist w) w'"
proof -
  obtain entries e where l: "filer_List E (hist w) fs dir after bucketChildrenPageSize = (entries, e)"
    by fastforce
  let ?w1 = "w\<lparr>hist := EFilerList fs dir after bucketChildrenPageSize e # hist w\<rparr>"
  show ?thesis
  proof (cases e)
    case (Some err)
    then show ?thesis using assms l
      by (auto simp: empty_page_def listFilerChildrenPage_def)
  next
    case None
    let ?page = "filter (\<lambda>name. name \<noteq> '''') (map fst entries)"
    obtain d where d: "run_state (delete_children E fs dir ?page) ?w1 = (d, w')"
      and r: "d = None \<longleftrightarrow> (\<forall>err. r \<noteq> Inl (Some err))"
      using assms l None
      by (auto simp: empty_page_def listFilerChildrenPage_def Let_def
          split: prod.splits option.splits if_splits)
    have "since (child_removal fs dir (d = None)) (hist w) ?w1" by simp
    from since_trans [OF this delete_children_events [OF d]] show ?thesis by (simp add: r)
  qed
qed

lemma empty_pages_events:
  assumes "empty_pages L E fs dir after w = Some (r, w')"
  shows "since (child_removal fs dir (r = None)) (hist w) w'"
proof -
  let ?P = "\<lambda>L E fs dir after w y. since (child_removal fs dir (fst y = None)) (hist w) (snd y)"
  have "?P L E fs dir after w (r, w')"
  proof (rule empty_pages.raw_induct [where P = ?P, OF _ assms])
    fix self L E fs dir after w and y :: "err option \<times> 'a world_scheme"
    assume IH: "\<And>L E fs dir after w y. self L E fs dir after w = Some y \<Longrightarrow> ?P L E fs dir after w y"
      and body: "(case run_state (empty_page L E fs dir after) w of
        (Inl r, w1) \<Rightarrow> Some (r, w1) | (Inr nxt, w1) \<Rightarrow> self L E fs dir nxt w1) = Some y"
    obtain p w1 where p: "run_state (empty_page L E fs dir after) w = (p, w1)" by fastforce
    note page = empty_page_events [OF p]
    show "?P L E fs dir after w y"
    proof (cases p)
      case (Inl q)
      then show ?thesis using body p page by (cases q) auto
    next
      case (Inr nxt)
      then have "since (child_removal fs dir True) (hist w) w1" using page by simp
      moreover have "self L E fs dir nxt w1 = Some y" using body p Inr by simp
      ultimately show ?thesis by (blast intro: since_trans [OF since_child_weaken] IH)
    qed
  qed
  then show ?thesis by simp
qed

lemma emptyBucketChildren_events:
  assumes "emptyBucketChildren L E fs dir w = Some (r, w')"
  shows "since (child_removal fs dir (r = None)) (hist w) w'"
proof -
  let ?c = "filer_Configuration E (hist w) fs"
  let ?w1 = "w\<lparr>hist := EFilerConfiguration fs ?c # hist w\<rparr>"
  have first: "since (child_removal fs dir b) (hist w) ?w1" for b by simp
  show ?thesis
    using assms first since_trans [OF first empty_pages_events]
    by (auto simp: emptyBucketChildren_def filerBucketDir_def split: sum.splits if_splits)
qed

section \<open>What DeleteVolume removes\<close>

text \<open>The deletion of the attributes document of the volume \<open>v\<close>, from one of \<open>fs\<close>.\<close>

definition vac_deletion :: "libs \<Rightarrow> env \<Rightarrow> string list \<Rightarrow> string \<Rightarrow> event \<Rightarrow> bool" where
  "vac_deletion L E fs v e \<longleftrightarrow> (\<exists>q a f. e = EHttp q a \<and> hr_method q = ''DELETE'' \<and> hr_body q = '''' \<and> f \<in> set fs
     \<and> hr_url q = (if use_tls (vac_cfg E) then ''https'' else ''http'') @ ''://'' @ ToHttpAddress L f @ vacPath v)"

text \<open>
  A removal that belongs to deleting the volume \<open>v\<close>, which is \<open>name\<close> in \<open>dir\<close> on \<open>fs\<close>: of the entry, of
  a child, or of the attributes document; no other request is sent over HTTP.
\<close>

definition volume_removal :: "libs \<Rightarrow> env \<Rightarrow> string \<Rightarrow> string list \<Rightarrow> string \<Rightarrow> string \<Rightarrow> event \<Rightarrow> bool" where
  "volume_removal L E v fs dir name e \<longleftrightarrow>
     (\<forall>fs' d n rec r. filer_removal e = Some (fs', d, n, rec, r) \<longrightarrow>
        fs' = fs \<and> (if rec then d = dir \<and> n = name else d = path_join [dir, name]))
     \<and> (\<forall>q a. e = EHttp q a \<longrightarrow> vac_deletion L E fs v e)"

lemma volume_removal_child:
  "child_removal fs (path_join [dir, name]) b e \<Longrightarrow> volume_removal L E v fs dir name e"
  by (auto simp: child_removal_def volume_removal_def)

lemma vac_deletion_no_removal: "vac_deletion L E fs v e \<Longrightarrow> filer_removal e = None"
  by (auto simp: vac_deletion_def)

lemma volume_removal_vac: "vac_deletion L E fs v e \<Longrightarrow> volume_removal L E v fs dir name e"
  by (auto simp: volume_removal_def vac_deletion_no_removal)

text \<open>The filers of the attributes are those of the volume.\<close>

lemma vac_filers:
  "resolveVolume L driver v = Inr (c, p) \<Longrightarrow> vacFilersForVolume L driver v = filers c"
  by (auto simp: resolveVolume_def vacFilersForVolume_def client_for_def CloneWithFiler_def Let_def split: prod.splits if_splits)

lemma volume_removal_run:
  assumes "list_all (vac_deletion L E fs v) ds" and "list_all (child_removal fs (path_join [dir, name]) b) cs"
  shows "list_all (volume_removal L E v fs dir name) (ds @ EFilerRemove fs dir name True x # cs)"
  using assms by (auto simp: list_all_iff volume_removal_vac volume_removal_child)
    (simp add: volume_removal_def)

lemma delete_attributes_events:
  assumes "run_state (delete_attributes L E driver v) w = (r, w')" and "vacFilersForVolume L driver v = fs"
  shows "since (vac_deletion L E fs v) (hist w) w'"
proof (cases "newFilerVacStore (vac_cfg E) (vacFilersForVolume L driver v)")
  case (Inl err)
  then show ?thesis using assms by (simp add: delete_attributes_def)
next
  case (Inr store)
  then obtain x where "run_state (roundTrip L E store ''DELETE'' v '''' [200, 404, 204]) w = (x, w')"
    using assms by (auto simp: delete_attributes_def vac_Delete_def split: prod.splits sum.splits)
  from roundTrip_http [OF this] obtain evs where "hist w' = evs @ hist w"
    and evs: "list_all (store_request L E store ''DELETE'' v '''') evs" by blast
  moreover have "list_all (vac_deletion L E fs v) evs"
    using evs new_store_fields(1,2) [OF Inr] assms(2)
    by (fastforce simp: list_all_iff store_request_def vac_deletion_def)
  ultimately show ?thesis by (auto simp: since_def)
qed

lemma delete_volume_entry_events:
  assumes "run_state (delete_volume_entry L E driver v fs p) w = (r, w')"
    and "volume_entry p = (dir, name)" and "vacFilersForVolume L driver v = fs"
  shows "\<exists>evs x. hist w' = evs @ EFilerRemove fs dir name True x # hist w \<and> list_all (vac_deletion L E fs v) evs
    \<and> (r = None \<longleftrightarrow> x = None)"
proof (cases "filer_Remove E (hist w) fs dir name True")
  case (Some err)
  then show ?thesis using assms by (auto simp: delete_volume_entry_def deleteEntry_def)
next
  case None
  let ?w1 = "w\<lparr>hist := EFilerRemove fs dir name True None # hist w\<rparr>"
  obtain u where "run_state (delete_attributes L E driver v) ?w1 = (u, w')" and "r = None"
    using assms None
    by (auto simp: delete_volume_entry_def deleteEntry_def split: prod.splits)
  from delete_attributes_events [OF this(1) assms(3)] this(2) show ?thesis
    by (auto simp: since_def)
qed

text \<open>A run that got as far as the filer: emptying, then the entry if that succeeded.\<close>

lemma DeleteVolume_run:
  assumes "DeleteVolume L E driver v w = Some (r, w')"
    and "resolveVolume L driver v = Inr (c, p)" and "volume_entry p = (dir, name)"
  shows "r \<noteq> None \<and> since (child_removal (filers c) (path_join [dir, name]) False) (hist w) w'
    \<or> (\<exists>cs ds x. hist w' = ds @ EFilerRemove (filers c) dir name True x # cs @ hist w
        \<and> list_all (vac_deletion L E (filers c) v) ds \<and> list_all (child_removal (filers c) (path_join [dir, name]) True) cs
        \<and> (r = None \<longleftrightarrow> x = None))"
proof (cases "v = '''' \<or> ValidateControllerServiceRequest driver CREATE_DELETE_VOLUME \<noteq> None")
  case True
  then have "r \<noteq> None" "w' = w"
    using assms(1) by (cases "ValidateControllerServiceRequest driver CREATE_DELETE_VOLUME";
      auto simp: DeleteVolume_def split: if_splits)+
  then show ?thesis by simp
next
  case False
  then obtain q w1 where e: "emptyBucketChildren L E (filers c) (path_join [dir, name]) w = Some (q, w1)"
    and rest: "(case q of Some err \<Rightarrow> r \<noteq> None \<and> w' = w1
      | None \<Rightarrow> run_state (delete_volume_entry L E driver v (filers c) p) w1 = (r, w'))"
    using assms by (auto simp: DeleteVolume_def split: option.splits prod.splits)
  note child = emptyBucketChildren_events [OF e]
  show ?thesis
  proof (cases q)
    case (Some err)
    then show ?thesis using child rest by simp
  next
    case None
    from child None obtain cs where "hist w1 = cs @ hist w"
      "list_all (child_removal (filers c) (path_join [dir, name]) True) cs"
      by (auto simp: since_def)
    then show ?thesis
      using delete_volume_entry_events [of L E driver v "filers c" p w1 r w', OF _ assms(3) vac_filers [OF assms(2)]] rest None
      by auto
  qed
qed

text \<open>
  C14: Deleting a volume touches nothing but that volume: an ID that names no volume is refused before
  any call; for another every removal asked of a filer goes to the filers the ID names and is
  that of a child of the volume's directory or of the volume's own entry, which is only asked
  for when every child removal before it succeeded, and which a successful deletion has removed;
  and every request sent over HTTP is the DELETE of this volume's own attributes document, at one
  of the same filers.
\<close>

theorem DeleteVolume_removes_only_the_volume:
  assumes "DeleteVolume L E driver v w = Some (r, w')"
  shows "case resolveVolume L driver v of
      Inl err \<Rightarrow> r \<noteq> None \<and> w' = w
    | Inr (c, p) \<Rightarrow> (case volume_entry p of (dir, name) \<Rightarrow>
        \<exists>evs. hist w' = evs @ hist w \<and> list_all (volume_removal L E v (filers c) dir name) evs
        \<and> (\<forall>x. EFilerRemove (filers c) dir name True x \<in> set evs \<longrightarrow>
             (\<forall>n y. EFilerRemove (filers c) (path_join [dir, name]) n False y \<in> set evs \<longrightarrow> y = None))
        \<and> (r = None \<longrightarrow> EFilerRemove (filers c) dir name True None \<in> set evs))"
proof (cases "resolveVolume L driver v")
  case (Inl err)
  then show ?thesis
    using assms by (cases "ValidateControllerServiceRequest driver CREATE_DELETE_VOLUME"; cases r;
      auto simp: DeleteVolume_def split: if_splits)
next
  case (Inr cp)
  obtain c p dir name where cp: "cp = (c, p)" "volume_entry p = (dir, name)" by fastforce
  let ?P = "child_removal (filers c) (path_join [dir, name])"
  from DeleteVolume_run [OF assms Inr [unfolded cp(1)] cp(2)] show ?thesis
  proof (elim disjE exE conjE)
    assume "r \<noteq> None" "since (?P False) (hist w) w'"
    then obtain evs where "hist w' = evs @ hist w" "list_all (?P False) evs"
      by (auto simp: since_def)
    then show ?thesis
      using \<open>r \<noteq> None\<close> Inr cp by (fastforce simp: list_all_iff dest: volume_removal_child)
  next
    fix cs ds x
    let ?evs = "ds @ EFilerRemove (filers c) dir name True x # cs"
    assume evs: "hist w' = ds @ EFilerRemove (filers c) dir name True x # cs @ hist w"
      and ds: "list_all (vac_deletion L E (filers c) v) ds" and cs: "list_all (?P True) cs"
      and r: "r = None \<longleftrightarrow> x = None"
    have "list_all (volume_removal L E v (filers c) dir name) ?evs"
      using ds cs by (rule volume_removal_run)
    moreover have "y = None"
      if "EFilerRemove (filers c) (path_join [dir, name]) n False y \<in> set ?evs" for n y
      using that ds cs by (fastforce simp: list_all_iff dest: vac_deletion_no_removal)
    ultimately show ?thesis using evs r Inr cp by (auto intro!: exI [of _ ?evs])
  qed
qed

section \<open>From CreateVolume to DeleteVolume\<close>

text \<open>
  Where \<open>CreateVolume\<close> puts a volume, for parameters in the form the documentation shows: an
  absolute path, or a canonical absolute parent directory and a name that is one path element.
\<close>

definition canonical_location :: "libs \<Rightarrow> CreateVolumeRequest \<Rightarrow> bool" where
  "canonical_location L req \<longleftrightarrow>
     (case volume_names L (cr_Parameters req) (cr_Name req) of
        (parentDir, volumeName, volumePath) \<Rightarrow>
          path_is_abs parentDir \<and> path_clean parentDir = parentDir \<and> plain_elem volumeName
          \<and> volumePath = path_join [parentDir, volumeName] \<and> volumePath \<noteq> ''/buckets'')"

lemma explicit_path_is_canonical:
  assumes "path_is_abs (goget (cr_Parameters req) ''path'')"
    and "path_clean (goget (cr_Parameters req) ''path'') \<notin> {''/'', ''/buckets''}"
  shows "canonical_location L req"
proof -
  let ?p = "goget (cr_Parameters req) ''path''"
  from assms(1) obtain es where es: "list_all plain_elem es" "path_clean ?p = abs_path es"
    by (rule path_clean_rooted)
  with assms(2) obtain fs e where "es = fs @ [e]"
    by (cases es rule: rev_cases) (auto simp: abs_path_def)
  moreover have "?p \<noteq> ''''" using assms(1) by (auto simp: path_is_abs_iff)
  ultimately show ?thesis
    using es assms path_join_abs_path_elem [of fs e]
    by (simp add: canonical_location_def volume_names_def Let_def)
qed

lemma CreateVolume_run:
  assumes "run_state (CreateVolume L E driver req) w = (Inr v, w')"
    and "volume_names L (cr_Parameters req) (cr_Name req) = (dir, name, vpath)"
  shows "let f = goget (create_context L req) ''filer''
    in hist w' = EFilerMkdir (filers (client_for L driver f)) dir name None # hist w
      \<and> cv_VolumeId v = EncodeVolumeID f vpath \<and> cv_VolumeContext v = create_context L req
      \<and> cv_CapacityBytes v = cr_RequiredBytes req"
  using assms
  by (auto simp: CreateVolume_def Let_def split: if_splits option.splits prod.splits)

lemma resolve_created:
  assumes "f = '''' \<or> plain_filer_address f" and "path_is_abs dir" and "path_clean dir = dir"
    and "plain_elem name" and "path_join [dir, name] \<noteq> ''/buckets''"
  shows "resolveVolume L driver (EncodeVolumeID f (path_join [dir, name])) =
      Inr (client_for L driver f, path_join [dir, name])
    \<and> volume_entry (path_join [dir, name]) = (dir, name)"
proof -
  obtain es where es: "list_all plain_elem es" "dir = abs_path es"
    using path_clean_rooted [OF assms(2)] assms(3) by metis
  have j: "path_join [dir, name] = abs_path (es @ [name])"
    using es assms(4) path_join_abs_path_elem by simp
  have "abs_path (es @ [name]) \<noteq> abs_path []"
    using es(1) assms(4) by (subst abs_path_inj) auto
  then have "abs_path (es @ [name]) \<noteq> ''/''" by (simp add: abs_path_def)
  then show ?thesis
    using es assms(1,4,5) j path_base_abs_path_snoc [of es name] path_dir_abs_path_snoc [of es name]
    by (simp add: resolveVolume_def decode_encode volume_entry_def Let_def)
qed

text \<open>
  C13: A created volume is deleted where it was created: for parameters in canonical form and a filer
  address that is absent or plain, the ID \<open>CreateVolume\<close> returns leads every later successful
  \<open>DeleteVolume\<close>, in any state of the world, to remove exactly the entry that was made, on the
  same filers.
\<close>

theorem DeleteVolume_undoes_CreateVolume:
  assumes "run_state (CreateVolume L E driver req) w = (Inr v, w')"
    and "canonical_location L req"
    and "goget (create_context L req) ''filer'' = '''' \<or>
      plain_filer_address (goget (create_context L req) ''filer'')"
    and "DeleteVolume L E2 driver (cv_VolumeId v) u = Some (None, u')"
  shows "\<exists>fs dir name evs. hist w' = EFilerMkdir fs dir name None # hist w
    \<and> hist u' = evs @ hist u \<and> EFilerRemove fs dir name True None \<in> set evs
    \<and> list_all (volume_removal L E2 (cv_VolumeId v) fs dir name) evs"
proof -
  let ?f = "goget (create_context L req) ''filer''"
  obtain dir name vpath where n: "volume_names L (cr_Parameters req) (cr_Name req) = (dir, name, vpath)"
    using prod_cases3 by blast
  with assms(2) have c: "path_is_abs dir" "path_clean dir = dir" "plain_elem name"
    "vpath = path_join [dir, name]" "path_join [dir, name] \<noteq> ''/buckets''"
    by (auto simp: canonical_location_def)
  from CreateVolume_run [OF assms(1) n]
  have made: "hist w' = EFilerMkdir (filers (client_for L driver ?f)) dir name None # hist w"
    and v: "cv_VolumeId v = EncodeVolumeID ?f (path_join [dir, name])"
    by (simp_all add: Let_def c(4))
  note res = resolve_created [OF assms(3) c(1,2,3,5), of L driver]
  from DeleteVolume_run [OF assms(4) _ conjunct2 [OF res]] v res
  obtain cs ds where "hist u' = ds @ EFilerRemove (filers (client_for L driver ?f)) dir name True None
      # cs @ hist u"
    and "list_all (vac_deletion L E2 (filers (client_for L driver ?f)) (cv_VolumeId v)) ds"
    and "list_all (child_removal (filers (client_for L driver ?f)) (path_join [dir, name]) True) cs"
    by auto
  then show ?thesis
    using made volume_removal_run
    by (intro exI [of _ "filers (client_for L driver ?f)"] exI [of _ dir] exI [of _ name]
        exI [of _ "ds @ EFilerRemove (filers (client_for L driver ?f)) dir name True None # cs"])
       (simp del: list_all_append)
qed

definition demo_create :: CreateVolumeRequest where
  "demo_create = \<lparr>cr_Name = ''pvc-1'', cr_Parameters = [(''collection'', ''c'')], cr_MutableParameters = [],
     cr_VolumeCapabilities = Some [Some MULTI_NODE_MULTI_WRITER], cr_RequiredBytes = 1024,
     cr_Requisite = [], cr_Preferred = []\<rparr>"

text \<open>One child in the only page, the bucket directory by default.\<close>

definition bucket_env :: env where
  "bucket_env = calm_env\<lparr>filer_List := \<lambda>h f d a n. ([(''o1'', True)], None)\<rparr>"

lemma demo_create_run:
  "\<exists>v w'. run_state (CreateVolume demo_libs calm_env demo_driver demo_create) start_world = (Inr v, w')
     \<and> cv_VolumeId v = ''/buckets/pvc-1''"
proof -
  have "case fst (run_state (CreateVolume demo_libs calm_env demo_driver demo_create) start_world) of
      Inl _ \<Rightarrow> False | Inr v \<Rightarrow> cv_VolumeId v = ''/buckets/pvc-1''"
    by code_simp
  then show ?thesis
    by (cases "run_state (CreateVolume demo_libs calm_env demo_driver demo_create) start_world")
       (auto split: sum.splits)
qed

lemma demo_delete_run:
  "\<exists>u'. DeleteVolume demo_libs bucket_env demo_driver ''/buckets/pvc-1'' start_world = Some (None, u')"
proof -
  have "case DeleteVolume demo_libs bucket_env demo_driver ''/buckets/pvc-1'' start_world of
      Some (None, _) \<Rightarrow> True | _ \<Rightarrow> False"
    by code_simp
  then show ?thesis by (auto split: option.splits prod.splits)
qed

theorem DeleteVolume_removes_only_the_volume_witness:
  "\<exists>u'. DeleteVolume demo_libs bucket_env demo_driver ''/buckets/pvc-1'' start_world = Some (None, u')
     \<and> EFilerRemove [''a:8888'', ''b:8888''] ''/buckets'' ''pvc-1'' True None \<in> set (hist u')"
proof -
  obtain u' where u: "DeleteVolume demo_libs bucket_env demo_driver ''/buckets/pvc-1'' start_world
      = Some (None, u')"
    using demo_delete_run by blast
  have "resolveVolume demo_libs demo_driver ''/buckets/pvc-1'' = Inr (demo_driver, ''/buckets/pvc-1'')"
    "volume_entry ''/buckets/pvc-1'' = (''/buckets'', ''pvc-1'')"
    "filers demo_driver = [''a:8888'', ''b:8888'']"
    by code_simp+
  with DeleteVolume_removes_only_the_volume [OF u] u show ?thesis by (auto intro!: exI [of _ u'])
qed

theorem DeleteVolume_undoes_CreateVolume_witness:
  "\<exists>u' fs dir name. DeleteVolume demo_libs bucket_env demo_driver ''/buckets/pvc-1'' start_world
       = Some (None, u') \<and> EFilerRemove fs dir name True None \<in> set (hist u')"
proof -
  obtain v w' where v: "run_state (CreateVolume demo_libs calm_env demo_driver demo_create) start_world
      = (Inr v, w')" "cv_VolumeId v = ''/buckets/pvc-1''"
    using demo_create_run by blast
  obtain u' where u: "DeleteVolume demo_libs bucket_env demo_driver ''/buckets/pvc-1'' start_world
      = Some (None, u')"
    using demo_delete_run by blast
  have "canonical_location demo_libs demo_create"
    "goget (create_context demo_libs demo_create) ''filer'' = ''''"
    by code_simp+
  with DeleteVolume_undoes_CreateVolume [OF v(1), of bucket_env start_world u'] u v(2)
  show ?thesis by fastforce
qed

section \<open>Emptying a bucket ends\<close>

text \<open>
  A page of a directory listing as the filer's list call delivers it: at most \<open>limit\<close> names in
  the directory's order starting behind \<open>after\<close>, the last name marked when nothing follows it.
\<close>

definition after_name :: "string \<Rightarrow> string list \<Rightarrow> string list" where
  "after_name after names = (if after = '''' then names else tl (dropWhile (\<lambda>n. n \<noteq> after) names))"

definition list_page :: "nat \<Rightarrow> string list \<Rightarrow> (string \<times> bool) list" where
  "list_page limit names =
     (if length names > limit then map (\<lambda>n. (n, False)) (take limit names)
      else if names = [] then []
      else map (\<lambda>n. (n, False)) (butlast names) @ [(last names, True)])"

definition lists_directory :: "env \<Rightarrow> string list \<Rightarrow> string \<Rightarrow> string list \<Rightarrow> bool" where
  "lists_directory E fs dir names \<longleftrightarrow> distinct names \<and> '''' \<notin> set names
     \<and> (\<forall>h after limit. filer_List E h fs dir after limit = (list_page limit (after_name after names), None))"

lemma list_page_names: "limit > 0 \<Longrightarrow> map fst (list_page limit names) = take limit names"
  by (cases names rule: rev_cases) (auto simp: list_page_def comp_def)

lemma list_page_marked:
  "limit > 0 \<Longrightarrow> list_ex snd (list_page limit names) \<longleftrightarrow> names \<noteq> [] \<and> length names \<le> limit"
  by (cases names rule: rev_cases) (auto simp: list_page_def list_ex_iff)

lemma after_name_drop:
  assumes "distinct (pre @ rest)" and "'''' \<notin> set rest" and "0 < k" and "k \<le> length rest"
  shows "after_name (rest ! (k - 1)) (pre @ rest) = drop k rest"
proof -
  let ?x = "rest ! (k - 1)"
  have split: "rest = take (k - 1) rest @ ?x # drop k rest"
    using assms(3,4) by (metis Suc_pred' id_take_nth_drop less_eq_Suc_le)
  have "?x \<notin> set (pre @ take (k - 1) rest)"
    using assms(1) by (subst (asm) split) auto
  then have "dropWhile (\<lambda>n. n \<noteq> ?x) ((pre @ take (k - 1) rest) @ ?x # drop k rest) = ?x # drop k rest"
    by (subst dropWhile_append2) auto
  moreover have "?x \<noteq> ''''" using assms(2-4) by (metis Suc_pred' less_eq_Suc_le nth_mem)
  ultimately show ?thesis using split by (simp add: after_name_def)
qed

text \<open>The names of the children whose removal was asked for, oldest first.\<close>

fun removed_names :: "event list \<Rightarrow> string list" where
  "removed_names [] = []"
| "removed_names (EFilerRemove fs d n False r # h) = removed_names h @ [n]"
| "removed_names (e # h) = removed_names h"

lemma removed_names_append: "removed_names (evs @ h) = removed_names h @ removed_names evs"
  by (induction evs rule: removed_names.induct) auto

lemma delete_children_names:
  assumes "run_state (delete_children E fs dir children) w = (r, w')"
  shows "\<exists>evs. hist w' = evs @ hist w \<and> prefix (removed_names evs) children
    \<and> (r = None \<longrightarrow> removed_names evs = children)"
  using assms
proof (induction children arbitrary: w)
  case (Cons child children)
  let ?x = "filer_Remove E (hist w) fs dir child False"
  let ?e = "EFilerRemove fs dir child False ?x"
  show ?case
  proof (cases ?x)
    case None
    then have "run_state (delete_children E fs dir children) (w\<lparr>hist := ?e # hist w\<rparr>) = (r, w')"
      using Cons.prems by (simp add: deleteEntry_def)
    from Cons.IH [OF this] obtain evs where "hist w' = evs @ ?e # hist w"
      "prefix (removed_names evs) children" "r = None \<longrightarrow> removed_names evs = children" by auto
    then show ?thesis by (intro exI [of _ "evs @ [?e]"]) (simp add: removed_names_append)
  next
    case (Some err)
    then show ?thesis using Cons.prems by (auto simp: deleteEntry_def intro!: exI [of _ "[?e]"])
  qed
qed auto

lemma empty_page_listed:
  assumes "lists_directory E fs dir (pre @ rest)" and "after_name after (pre @ rest) = rest"
    and "run_state (empty_page L E fs dir after) w = (p, w')"
  shows "\<exists>evs. hist w' = evs @ hist w \<and> prefix (removed_names evs) (take bucketChildrenPageSize rest)
    \<and> ((\<exists>err. p = Inl (Some err))
       \<or> removed_names evs = take bucketChildrenPageSize rest
         \<and> p = (if length rest \<le> bucketChildrenPageSize then Inl None
                else Inr (rest ! (bucketChildrenPageSize - 1))))"
proof -
  let ?n = "bucketChildrenPageSize" and ?page = "take bucketChildrenPageSize rest"
  have n: "0 < ?n" by (simp add: bucketChildrenPageSize_def)
  have l: "filer_List E h fs dir after ?n = (list_page ?n rest, None)" for h
    using assms(1,2) by (simp add: lists_directory_def)
  let ?e = "EFilerList fs dir after ?n None"
  have "'''' \<notin> set ?page" using assms(1) by (auto simp: lists_directory_def dest: in_set_takeD)
  then have names: "filter (\<lambda>n. n \<noteq> '''') (map fst (list_page ?n rest)) = ?page"
    using n by (auto simp: list_page_names intro: filter_True)
  obtain d w2 where d: "run_state (delete_children E fs dir ?page) (w\<lparr>hist := ?e # hist w\<rparr>) = (d, w2)"
    by fastforce
  have "?page = [] \<longleftrightarrow> rest = []" using n by simp
  then have p: "p = (case d of Some err \<Rightarrow> Inl (Some err) | None \<Rightarrow>
      if length rest \<le> ?n \<or> last_name ?page = '''' then Inl None else Inr (last_name ?page))"
    and "w2 = w'"
    using assms(3) d by (cases d; auto simp: empty_page_def listFilerChildrenPage_def l Let_def names
      list_page_marked [OF n])+
  note d = d [unfolded \<open>w2 = w'\<close>]
  have "last_name ?page = rest ! (?n - 1) \<and> last_name ?page \<noteq> ''''" if "length rest > ?n"
  proof -
    have "?page \<noteq> []" "length ?page = ?n" using that n by auto
    then have "last_name ?page = rest ! (?n - 1)" "last_name ?page \<in> set ?page"
      using n last_in_set [of ?page] by (simp_all add: last_name_def last_conv_nth)
    then show ?thesis using \<open>'''' \<notin> set ?page\<close> by metis
  qed
  moreover obtain evs where "hist w' = evs @ ?e # hist w" "prefix (removed_names evs) ?page"
    "d = None \<longrightarrow> removed_names evs = ?page"
    using delete_children_names [OF d] by auto
  ultimately show ?thesis using p
    by (cases "length rest \<le> ?n"; intro exI [of _ "evs @ [?e]"])
      (auto simp: removed_names_append split: option.splits)
qed

lemma empty_pages_end:
  assumes "lists_directory E fs dir (pre @ rest)" and "after_name after (pre @ rest) = rest"
  shows "\<exists>r w' evs. empty_pages L E fs dir after w = Some (r, w') \<and> hist w' = evs @ hist w
    \<and> prefix (removed_names evs) rest \<and> (r = None \<longrightarrow> removed_names evs = rest)"
  using assms
proof (induction "length rest" arbitrary: pre rest after w rule: less_induct)
  case less
  let ?n = bucketChildrenPageSize
  obtain p w1 where p: "run_state (empty_page L E fs dir after) w = (p, w1)" by fastforce
  obtain evs where evs: "hist w1 = evs @ hist w" "prefix (removed_names evs) (take ?n rest)"
    "(\<exists>err. p = Inl (Some err)) \<or> removed_names evs = take ?n rest
     \<and> p = (if length rest \<le> ?n then Inl None else Inr (rest ! (?n - 1)))"
    using empty_page_listed [OF less.prems p] by blast
  show ?case
  proof (cases "\<exists>nxt. p = Inr nxt")
    case False
    then obtain q where "p = Inl q" by (cases p) auto
    then show ?thesis
      using evs p prefix_order.trans [OF evs(2) take_is_prefix]
      by (subst empty_pages.simps) (auto split: if_splits)
  next
    case True
    then have long: "length rest > ?n" and rem: "removed_names evs = take ?n rest"
      and nxt: "p = Inr (rest ! (?n - 1))" using evs(3) by (auto split: if_splits)
    let ?pre = "pre @ take ?n rest" and ?rest = "drop ?n rest"
    have n: "0 < ?n" by (simp add: bucketChildrenPageSize_def)
    have eq: "?pre @ ?rest = pre @ rest" by simp
    have "after_name (rest ! (?n - 1)) (pre @ rest) = ?rest"
      using less.prems(1) n long by (intro after_name_drop) (auto simp: lists_directory_def)
    then obtain r w' evs2 where "empty_pages L E fs dir (rest ! (?n - 1)) w1 = Some (r, w')"
      "hist w' = evs2 @ hist w1" "prefix (removed_names evs2) ?rest"
      "r = None \<longrightarrow> removed_names evs2 = ?rest"
      using less.hyps [of ?rest ?pre] less.prems(1) n long unfolding eq by (metis diff_less length_drop
          length_greater_0_conv less_nat_zero_code list.size(3) gr_implies_not0)
    moreover have "prefix (take ?n rest @ removed_names evs2) rest"
      using \<open>prefix (removed_names evs2) ?rest\<close> by (metis append_take_drop_id same_prefix_prefix)
    ultimately show ?thesis
      using evs(1) rem p nxt
      by (subst empty_pages.simps)
         (auto simp: removed_names_append intro!: exI [of _ "evs2 @ evs"])
  qed
qed

text \<open>
  C15: Emptying a bucket ends and reaches every child: if the filer lists the directory as it
  documents (the names behind a given one, page by page, the last one marked), the paging loop
  returns whatever the removals answer, asks for each child at most once in the directory's
  order, and reports success only after it has asked for every one of them, however many pages.
\<close>

theorem emptyBucketChildren_ends:
  assumes "lists_directory E fs dir children"
    and "filer_Configuration E (hist w) fs = Inr b"
    and "path_dir dir = (if b = '''' then defaultBucketDir else b)"
  shows "\<exists>r w' evs. emptyBucketChildren L E fs dir w = Some (r, w') \<and> hist w' = evs @ hist w
    \<and> prefix (removed_names evs) children \<and> (r = None \<longrightarrow> removed_names evs = children)"
proof -
  let ?e = "EFilerConfiguration fs (Inr b)"
  have "after_name '''' ([] @ children) = children" by (simp add: after_name_def)
  then obtain r w' evs where "empty_pages L E fs dir '''' (w\<lparr>hist := ?e # hist w\<rparr>) = Some (r, w')"
    "hist w' = evs @ ?e # hist w" "prefix (removed_names evs) children"
    "r = None \<longrightarrow> removed_names evs = children"
    using empty_pages_end [of E fs dir "[]" children "''''" L "w\<lparr>hist := ?e # hist w\<rparr>"] assms(1)
    by auto
  then show ?thesis
    using assms(2,3)
    by (auto simp: emptyBucketChildren_def filerBucketDir_def removed_names_append
        intro!: exI [of _ "evs @ [?e]"])
qed

definition paging_env :: env where
  "paging_env = calm_env\<lparr>filer_List := \<lambda>h f d a n. (list_page n (after_name a [''a'', ''b'']), None)\<rparr>"

theorem emptyBucketChildren_ends_witness:
  "\<exists>r w'. emptyBucketChildren demo_libs paging_env [''f''] ''/buckets/v'' start_world = Some (r, w')"
proof -
  have "lists_directory paging_env [''f''] ''/buckets/v'' [''a'', ''b'']"
    by (simp add: lists_directory_def paging_env_def)
  moreover have "filer_Configuration paging_env (hist start_world) [''f''] = Inr ''''"
    by (simp add: paging_env_def calm_env_def)
  moreover have "path_dir ''/buckets/v'' = (if '''' = '''' then defaultBucketDir else '''')"
    by code_simp
  ultimately show ?thesis using emptyBucketChildren_ends by blast
qed

section \<open>Names\<close>

text \<open>
  A bucket's name fits the filer's limits: what \<open>sanitizeVolumeIdS3\<close> returns is either a name the
  filer's verifier accepts, or, with SHA-1 giving 40 hexadecimal digits, at most 62 characters of
  lower-case letters, digits, dots and dashes that end in the digest of the requested name.
\<close>

theorem sanitizeVolumeIdS3_bounds:
  assumes "\<And>s. length (sha1_hex L s) = 40"
  shows "VerifyS3BucketName L (sanitizeVolumeIdS3 L v)
    \<or> length (sanitizeVolumeIdS3 L v) \<le> 62
      \<and> (\<exists>pre s. sanitizeVolumeIdS3 L v = pre @ ''.'' @ sha1_hex L s \<and> length pre \<le> 21
          \<and> s \<in> {to_lower v, sha1_hex L (to_lower v)}
          \<and> list_all (\<lambda>c. safe_volume_char c \<and> \<not> is_upper_char c) pre)"
proof -
  have safe: "list_all (\<lambda>c. safe_volume_char c \<and> \<not> is_upper_char c)
      (take 21 (map (\<lambda>c. if safe_volume_char c then c else CHR ''-'') (to_lower s)))" for s
  proof -
    have "\<not> is_upper_char (lower_char c)" for c
      by (auto simp: lower_char_def is_upper_char_def)
    moreover have "safe_volume_char CHR ''-''" "\<not> is_upper_char CHR ''-''"
      by (simp_all add: safe_volume_char_def is_upper_char_def)
    ultimately show ?thesis
      by (auto simp: list_all_iff to_lower_def dest!: in_set_takeD)
  qed
  show ?thesis
    using safe assms
    by (auto simp: sanitizeVolumeIdS3_def hashed_name_def Let_def)
qed

theorem sanitizeVolumeIdS3_bounds_witness:
  "length (sanitizeVolumeIdS3 (demo_libs\<lparr>sha1_hex := \<lambda>s. replicate 40 CHR ''a'',
     VerifyS3BucketName := \<lambda>s. False\<rparr>) ''My_Volume'') \<le> 62"
  using sanitizeVolumeIdS3_bounds [of "demo_libs\<lparr>sha1_hex := \<lambda>s. replicate 40 CHR ''a'',
     VerifyS3BucketName := \<lambda>s. False\<rparr>" "''My_Volume''"]
  by simp

section \<open>From ControllerModifyVolume to a stage\<close>

lemma roundTrip_over_accepted:
  assumes "run_state (roundTrip_over L E st method v body okCodes fs le) w = (Inr b, w')"
  shows "\<exists>q s f. hd (hist w') = EHttp q (Inr (s, b)) \<and> s \<in> set okCodes \<and> hr_method q = method
    \<and> hr_body q = body \<and> f \<in> set fs \<and> hr_url q = vs_scheme st @ ''://'' @ ToHttpAddress L f @ vacPath v"
  using assms
proof (induction fs arbitrary: le w)
  case (Cons f fs)
  show ?case
  proof (cases "url_parse (vs_scheme st @ ''://'' @ ToHttpAddress L f @ vacPath v) = None")
    case False
    let ?q = "\<lparr>hr_method = method, hr_url = vs_scheme st @ ''://'' @ ToHttpAddress L f @ vacPath v,
      hr_body = body, hr_token = request_token E st method (hist w)\<rparr>"
    show ?thesis
    proof (cases "http_Do E (hist w) ?q")
      case (Inl err)
      then obtain le w1 where "run_state (roundTrip_over L E st method v body okCodes fs le) w1 = (Inr b, w')"
        using Cons.prems False by (auto simp: Let_def)
      from Cons.IH [OF this] show ?thesis by auto
    next
      case (Inr sb)
      then show ?thesis
        using Cons.prems False by (auto simp: Let_def split: prod.splits if_splits)
    qed
  qed (use Cons.prems in simp)
qed simp

lemma vac_Write_accepted:
  assumes "run_state (persist_parameters L E driver v params) w = (None, w')" and "params \<noteq> []"
  shows "\<exists>q s b f scheme. hd (hist w') = EHttp q (Inr (s, b)) \<and> s \<in> {200, 201}
    \<and> hr_method q = ''PUT'' \<and> hr_body q = json_Marshal L params \<and> f \<in> set (vacFilersForVolume L driver v)
    \<and> hr_url q = scheme @ ''://'' @ ToHttpAddress L f @ vacPath v"
proof -
  obtain store where store: "newFilerVacStore (vac_cfg E) (vacFilersForVolume L driver v) = Inr store"
    and "run_state (vac_Write L E store v params) w = (None, w')"
    using assms by (auto simp: persist_parameters_def split: sum.splits)
  then obtain b where "run_state (roundTrip L E store ''PUT'' v (json_Marshal L params) [200, 201]) w = (Inr b, w')"
    using assms(2) by (auto simp: vac_Write_def split: prod.splits sum.splits)
  from roundTrip_over_accepted [OF this [unfolded roundTrip_def]]
  show ?thesis
    using store by (auto simp: newFilerVacStore_def split: sum.splits option.splits)
qed

lemma ControllerModifyVolume_run:
  assumes "run_state (ControllerModifyVolume L E driver v params) w = (None, w')"
  shows "params \<noteq> [] \<and> validateMutableParameters params = None
    \<and> (\<exists>attrs w1. run_state (GetVolumeAttributes L E (dr_name driver) v) w = (Inr attrs, w1)
        \<and> validateConstrainedParameterValues (effective_parameters attrs params) = None
        \<and> validateWritebackDlmCombo (effective_parameters attrs params) = None
        \<and> run_state (persist_parameters L E driver v params) w1 = (None, w'))"
  using assms
  by (auto simp: ControllerModifyVolume_def Let_def
      split: if_splits option.splits sum.splits prod.splits)

text \<open>
  C16: A modification reported done is stored and can be staged, but for one thing: the parameters
  passed the checks together with the attributes of the persistent volume, a filer of the volume
  accepted the document under the volume's key, and any later stage, in any environment, that gets
  those attributes as its volume context and reads the document back is not refused by the
  parameter checks: it goes on to the capacity and the mount. There, with extra arguments that are
  allowed, the command line is refused exactly if a data locality is asked for, by these parameters
  or else by the driver, and neither names a data centre; the modification does not check that.
\<close>

theorem modified_volume_can_stage:
  assumes "run_state (ControllerModifyVolume L E driver v params) w = (None, w')"
    and "fst (run_state (GetVolumeAttributes L E (dr_name driver) v) w) = Inr attrs"
    and "gomap_ok attrs" and "gomap_ok params"
    and "run_state (loadPersistedVolumeAttributes L E2 driver v) u = (Inr params, u1)"
    and "run_state (resolveVolumeCapacity L E2 driver v (mergePersistedVolumeAttributes attrs params)) u1
      = (Inr capacity, u2)"
    and ctx: "ctx = (case capacity of
        None \<Rightarrow> mergePersistedVolumeAttributes attrs params
      | Some n \<Rightarrow> goset volumeCapacityKey (format_int n) (mergePersistedVolumeAttributes attrs params))"
  shows "(\<exists>q s b f scheme. hd (hist w') = EHttp q (Inr (s, b)) \<and> s \<in> {200, 201}
      \<and> hr_method q = ''PUT'' \<and> hr_body q = json_Marshal L params \<and> f \<in> set (vacFilersForVolume L driver v)
      \<and> hr_url q = scheme @ ''://'' @ ToHttpAddress L f @ vacPath v)
    \<and> run_state (stageNewVolume L ord E2 driver v path (Some attrs) ro) u =
      run_state (stage_mounted L ord E2 driver v path ctx ro capacity) u2
    \<and> (ValidateMountArgs (MountExtraArgs driver) = None \<longrightarrow>
       (isl (buildMountArgs ord driver \<lparr>mo_volumeID = v, mo_readOnly = ro, mo_volContext = ctx\<rparr> path cacheDir sock fs)
        \<longleftrightarrow> lacks_data_centre driver (mergePersistedVolumeAttributes attrs params)))"
proof -
  from ControllerModifyVolume_run [OF assms(1)] obtain w1 where
    m: "params \<noteq> []" "validateMutableParameters params = None"
    "validateConstrainedParameterValues (effective_parameters attrs params) = None"
    "validateWritebackDlmCombo (effective_parameters attrs params) = None"
    "run_state (persist_parameters L E driver v params) w1 = (None, w')"
    using assms(2) by auto
  then have "\<forall>(k, x) \<in> set params. is_mutable k" unfolding validateMutable_iff by auto
  from agree_checks [OF staged_agrees_with_effective [OF assms(3,4) this]] m(3,4)
  have checks: "validateConstrainedParameterValues (mergePersistedVolumeAttributes attrs params) = None"
    "validateWritebackDlmCombo (mergePersistedVolumeAttributes attrs params) = None" by simp_all
  have "ctx = mergePersistedVolumeAttributes attrs params
      \<or> (\<exists>n. ctx = goset volumeCapacityKey n (mergePersistedVolumeAttributes attrs params))"
    by (cases capacity) (auto simp: ctx)
  then have "ValidateMountArgs (MountExtraArgs driver) = None \<longrightarrow>
      (isl (buildMountArgs ord driver \<lparr>mo_volumeID = v, mo_readOnly = ro, mo_volContext = ctx\<rparr> path cacheDir sock fs)
        \<longleftrightarrow> lacks_data_centre driver (mergePersistedVolumeAttributes attrs params))"
    by (intro impI checked_args [OF checks(1)]) simp_all
  then show ?thesis
    using vac_Write_accepted [OF m(5,1)] assms(5,6) checks
    by (simp add: stageNewVolume_def cloneVolumeContext_def Let_def ctx)
qed

definition modify_libs :: libs where
  "modify_libs = demo_libs\<lparr>json_Unmarshal := \<lambda>s. Inr [(''ttl'', ''5m'')]\<rparr>"

definition modify_env :: env where
  "modify_env = calm_env\<lparr>pv_Get := \<lambda>h n. Inr \<lparr>pv_name = n, pv_csi = Some \<lparr>pv_driver = ''csi'',
     pv_handle = ''/buckets/v'', pv_attributes = [(''dlm'', ''true'')]\<rparr>, pv_storage = Some 1024\<rparr>,
     http_Do := \<lambda>h r. Inr (200, ''{}'')\<rparr>"

theorem modified_volume_can_stage_witness:
  "\<exists>w' q s b. run_state (ControllerModifyVolume modify_libs modify_env demo_driver ''/buckets/v''
       [(''ttl'', ''5m'')]) start_world = (None, w')
     \<and> hd (hist w') = EHttp q (Inr (s, b)) \<and> hr_method q = ''PUT'' \<and> hr_body q = ''{}''"
proof -
  let ?L = modify_libs and ?E = modify_env and ?v = "''/buckets/v''" and ?p = "[(''ttl'', ''5m'')]"
    and ?a = "[(''dlm'', ''true'')]"
  have "fst (run_state (ControllerModifyVolume ?L ?E demo_driver ?v ?p) start_world) = None"
    by code_simp
  then obtain w' where m: "run_state (ControllerModifyVolume ?L ?E demo_driver ?v ?p) start_world = (None, w')"
    by (metis prod.collapse)
  have attrs: "fst (run_state (GetVolumeAttributes ?L ?E (dr_name demo_driver) ?v) start_world) = Inr ?a"
    by code_simp
  have "fst (run_state (loadPersistedVolumeAttributes ?L ?E demo_driver ?v) start_world) = Inr ?p"
    by code_simp
  then obtain u1 where u1: "run_state (loadPersistedVolumeAttributes ?L ?E demo_driver ?v) start_world = (Inr ?p, u1)"
    by (metis prod.collapse)
  have "\<exists>c. fst (run_state (resolveVolumeCapacity ?L ?E demo_driver ?v
      (mergePersistedVolumeAttributes ?a ?p)) u1) = Inr c"
  proof -
    have "goget (mergePersistedVolumeAttributes ?a ?p) volumeCapacityKey = ''''" by code_simp
    then show ?thesis by (simp add: resolveVolumeCapacity_def Let_def split: prod.split sum.split)
  qed
  then obtain c u2 where "run_state (resolveVolumeCapacity ?L ?E demo_driver ?v
      (mergePersistedVolumeAttributes ?a ?p)) u1 = (Inr c, u2)"
    by (metis prod.collapse)
  from modified_volume_can_stage [OF m attrs _ _ u1 this refl]
  have "\<exists>q s b. hd (hist w') = EHttp q (Inr (s, b)) \<and> hr_method q = ''PUT''
      \<and> hr_body q = json_Marshal ?L ?p"
    by (fastforce simp: gomap_ok_def)
  moreover have "json_Marshal ?L ?p = ''{}''" by code_simp
  ultimately show ?thesis using m by auto
qed

section \<open>Where the controller falls short\<close>

text \<open>
  \<open>CreateVolume\<close> checks the class parameters but not what they make of the StorageClass's: a
  StorageClass with writeback caching and a class with the lock manager are accepted together,
  and the volume created, whose context every stage refuses.
\<close>

definition conflicting_create :: CreateVolumeRequest where
  "conflicting_create = demo_create\<lparr>cr_Parameters := [(''writebackCache'', ''true'')],
     cr_MutableParameters := [(''dlm'', ''true'')]\<rparr>"

theorem created_volume_cannot_stage:
  "case fst (run_state (CreateVolume demo_libs calm_env demo_driver conflicting_create) start_world) of
     Inl _ \<Rightarrow> False
   | Inr v \<Rightarrow>
       (case fst (run_state (stageNewVolume demo_libs id calm_env demo_driver (cv_VolumeId v) ''/s''
               (Some (cv_VolumeContext v)) False) start_world) of
          Inl err \<Rightarrow> has_prefix (err_text err) ''invalid argument: '' | Inr _ \<Rightarrow> False)"
  by code_simp

text \<open>
  A relative parent directory is created as given, but the ID is then taken for a name of the old
  form, below /buckets: the deletion succeeds and removes another path than the one created.
\<close>

theorem relative_parentDir_is_not_deleted:
  "case run_state (CreateVolume demo_libs calm_env demo_driver
       (demo_create\<lparr>cr_Parameters := [(''parentDir'', ''data'')]\<rparr>)) start_world of
     (Inl _, _) \<Rightarrow> False
   | (Inr v, w) \<Rightarrow> (case hist w of EFilerMkdir fs dir name x # _ \<Rightarrow> dir = ''data'' \<and> name = ''pvc-1'' | _ \<Rightarrow> False)
       \<and> (case DeleteVolume demo_libs calm_env demo_driver (cv_VolumeId v) start_world of
            Some (None, u) \<Rightarrow> list_all (\<lambda>e. case filer_removal e of None \<Rightarrow> True
              | Some (fs, dir, name, rec, x) \<Rightarrow> dir = ''/buckets'' \<and> name = ''data/pvc-1'') (hist u)
          | _ \<Rightarrow> False)"
  by code_simp

end
