(* ===== verification/Lifecycle.thy ===== *)
theory Lifecycle
  imports ControllerProps
begin

text \<open>
  A volume from the controller to the mount: the directory \<open>CreateVolume\<close> makes, the ID and context
  it hands out, and the command line the node mounts the volume with.
\<close>

section \<open>The value of an argument\<close>

lemma parameter_arg_source:
  "k \<in> {''filer'', ''filer.path'', ''collection''} \<Longrightarrow> parameter_arg j = k \<longleftrightarrow> j = k"
  by (auto simp: parameter_arg_def)

lemma not_ignored: "k \<in> {''filer'', ''filer.path'', ''collection''} \<Longrightarrow> k \<notin> set ignoredArgs"
  by (auto simp: ignoredArgs_def volumeCapacityKey_def)

lemma context_args_value:
  assumes "k \<in> {''filer'', ''filer.path'', ''collection''}"
  shows "distinct (map fst ctx) \<Longrightarrow> map_of m k = Some d \<Longrightarrow>
    map_of (context_args m ctx) k = Some (if goget ctx k = '''' then d else goget ctx k)"
proof (induction m ctx arbitrary: d rule: context_args.induct)
  case (2 m key val ctx)
  have "map_of ctx key = None" using 2(4) by (simp add: map_of_eq_None_iff)
  then have absent: "goget ctx key = ''''" by (simp add: goget_def)
  have arg: "parameter_arg k = k" using parameter_arg_source [OF assms] by simp
  show ?case
  proof (cases "key = k")
    case True
    then show ?thesis
      using 2 absent not_ignored [OF assms] arg by (cases "val = ''''") (simp_all add: goget_def update_conv')
  next
    case False
    then have "parameter_arg key \<noteq> k" using parameter_arg_source [OF assms] by simp
    then show ?thesis using 2 False by (auto simp: goget_def update_conv')
  qed
qed (simp add: goget_def)

lemma rendered_argument:
  assumes "range_order ord" and "gomap_ok (mo_volContext m)"
    and "buildMountArgs ord d m target cacheDir sock fs = Inr args"
    and "k \<in> {''filer'', ''filer.path'', ''collection''}"
    and "map_of (default_args_map d (filer_path_of (mo_volumeID m) (mo_volContext m))
        (collection_of (filer_path_of (mo_volumeID m) (mo_volContext m)) (mo_volContext m)) fs (mo_volContext m)) k
      = Some val"
    and "x = (if goget (mo_volContext m) k = '''' then val else goget (mo_volContext m) k)" and "x \<noteq> ''''"
  shows "''-'' @ k @ ''='' @ x \<in> set args"
proof -
  obtain dl dc where args: "args = [''-logtostderr=true'', ''mount'', ''-dirAutoCreate=true'',
      ''-umask=000'', ''-dir='' @ target, ''-localSocket='' @ sock, ''-cacheDir='' @ cacheDir]
      @ (if mo_readOnly m then [''-readOnly''] else [])
      @ render_args (ord (final_args_map ord d m fs dl dc)) @ MountExtraArgs d"
    using assms(3) by (rule build_ok)
  have ord: "map_of (ord (mo_volContext m)) = map_of (mo_volContext m)" "distinct (map fst (ord (mo_volContext m)))"
    using range_order_map_of [OF assms(1,2)] range_order_ok [OF assms(1,2)] by (simp_all add: gomap_ok_def)
  then have same: "goget (ord (mo_volContext m)) k = goget (mo_volContext m) k" by (simp add: goget_def)
  have "k \<noteq> ''dataCenter''" using assms(4) by auto
  then have "map_of (final_args_map ord d m fs dl dc) k = Some x"
    using context_args_value [OF assms(4) ord(2)] assms(5,6)
    by (auto simp: final_args_map_def Let_def same update_conv')
  then show ?thesis
    using map_of_SomeD assms(7) range_order_set [OF assms(1)] unfolding args render_args_def by force
qed

section \<open>Property\<close>

text \<open>
  C9: A created volume is mounted where it was created: for parameters in canonical form, a filer address
  that is absent or plain and no \<open>filer.path\<close> parameter, every command line a node builds from the ID
  and the context \<open>CreateVolume\<close> returned, on any driver and in any map order, names the directory
  that was made, the volume's name as collection unless the parameters give one, and the filer of
  the parameters if there is one.
\<close>

theorem created_volume_is_mounted_there:
  assumes "run_state (CreateVolume L E driver req) w = (Inr v, w')" and "canonical_location L req"
    and "goget (create_context L req) ''filer'' = '''' \<or> plain_filer_address (goget (create_context L req) ''filer'')"
    and "goget (create_context L req) ''filer.path'' = ''''" and "gomap_ok (create_context L req)"
    and "range_order ord" and "mo_volumeID m = cv_VolumeId v" and "mo_volContext m = cv_VolumeContext v"
    and "buildMountArgs ord d m target cacheDir sock (mount_filers d m) = Inr args"
  shows "\<exists>fs dir name. hist w' = EFilerMkdir fs dir name None # hist w
    \<and> ''-filer.path='' @ path_join [dir, name] \<in> set args
    \<and> ''-collection='' @ (if goget (create_context L req) ''collection'' = '''' then name
         else goget (create_context L req) ''collection'') \<in> set args
    \<and> (goget (create_context L req) ''filer'' \<noteq> '''' \<longrightarrow>
         ''-filer='' @ goget (create_context L req) ''filer'' \<in> set args)"
proof -
  let ?ctx = "create_context L req"
  let ?f = "goget ?ctx ''filer''"
  obtain dir name vpath where n: "volume_names L (cr_Parameters req) (cr_Name req) = (dir, name, vpath)"
    using prod_cases3 by blast
  with assms(2) have c: "path_is_abs dir" "path_clean dir = dir" "plain_elem name" "vpath = path_join [dir, name]"
    by (auto simp: canonical_location_def)
  obtain es where es: "list_all plain_elem es" "dir = abs_path es"
    using path_clean_rooted [OF c(1)] c(2) by metis
  let ?p = "path_join [dir, name]"
  have p: "?p = abs_path (es @ [name])" "path_is_abs ?p" "?p \<noteq> ''''" "path_base ?p = name" "name \<noteq> ''''"
    using es c(3) path_join_abs_path_elem path_base_abs_path_snoc [of es name]
    by (auto simp: abs_path_def path_is_abs_iff plain_elem_def)
  from CreateVolume_run [OF assms(1) n]
  have made: "hist w' = EFilerMkdir (filers (client_for L driver ?f)) dir name None # hist w"
    and v: "mo_volumeID m = EncodeVolumeID ?f ?p" and ctx: "mo_volContext m = ?ctx"
    using assms(7,8) by (simp_all add: Let_def c(4))
  have fp: "filer_path_of (mo_volumeID m) ?ctx = ?p"
    using assms(3) p by (auto simp: filer_path_of_def v decode_encode)
  note arg = rendered_argument [OF assms(6) _ assms(9), unfolded ctx fp, OF assms(5)]
  have "''-filer.path='' @ ?p \<in> set args"
    using arg [of "''filer.path''", OF _ _ refl] assms(4) p(3) by (simp add: default_args_map_def)
  moreover have "''-collection='' @ (if goget ?ctx ''collection'' = '''' then name else goget ?ctx ''collection'')
      \<in> set args"
    using arg [of "''collection''", OF _ _ refl] p(4,5)
    by (auto simp: default_args_map_def collection_of_def split: if_splits)
  moreover have "?f \<noteq> '''' \<longrightarrow> ''-filer='' @ ?f \<in> set args"
    using arg [of "''filer''", OF _ _ refl] by (auto simp: default_args_map_def split: if_splits)
  ultimately show ?thesis using made by blast
qed

definition demo_mounter :: mountServiceMounter where
  "demo_mounter = \<lparr>mo_volumeID = ''/buckets/pvc-1'', mo_readOnly = False,
     mo_volContext = create_context demo_libs demo_create\<rparr>"

definition demo_command :: "err + string list" where
  "demo_command = buildMountArgs rev demo_driver demo_mounter ''/t'' ''/c'' ''/s''
     (mount_filers demo_driver demo_mounter)"

theorem created_volume_is_mounted_there_witness:
  "\<exists>args. demo_command = Inr args \<and> ''-filer.path=/buckets/pvc-1'' \<in> set args
     \<and> ''-collection=c'' \<in> set args"
proof -
  have "isl demo_command = False" by code_simp
  then obtain args where args: "demo_command = Inr args" by (metis sum.collapse(2))
  have eval: "canonical_location demo_libs demo_create"
    "goget (create_context demo_libs demo_create) ''filer'' = ''''"
    "goget (create_context demo_libs demo_create) ''filer.path'' = ''''"
    "goget (create_context demo_libs demo_create) ''collection'' = ''c''"
    "gomap_ok (create_context demo_libs demo_create)"
    by code_simp+
  have vol: "case fst (run_state (CreateVolume demo_libs calm_env demo_driver demo_create) start_world) of
      Inl _ \<Rightarrow> False
    | Inr v \<Rightarrow> cv_VolumeId v = ''/buckets/pvc-1'' \<and> cv_VolumeContext v = create_context demo_libs demo_create"
    by code_simp
  obtain v w' where v: "run_state (CreateVolume demo_libs calm_env demo_driver demo_create) start_world = (Inr v, w')"
    "cv_VolumeId v = ''/buckets/pvc-1''" "cv_VolumeContext v = create_context demo_libs demo_create"
    using vol by (cases "run_state (CreateVolume demo_libs calm_env demo_driver demo_create) start_world")
      (auto split: sum.splits)
  have made: "\<exists>fs. hist w' = [EFilerMkdir fs ''/buckets'' ''pvc-1'' None]"
  proof -
    have "hist (snd (run_state (CreateVolume demo_libs calm_env demo_driver demo_create) start_world))
        = [EFilerMkdir [''a:8888'', ''b:8888''] ''/buckets'' ''pvc-1'' None]" by code_simp
    then show ?thesis using v(1) by simp
  qed
  have m: "range_order rev" "mo_volumeID demo_mounter = cv_VolumeId v" "mo_volContext demo_mounter = cv_VolumeContext v"
    using v by (simp_all add: demo_mounter_def range_order_def)
  have joined: "path_join [''/buckets'', ''pvc-1''] = ''/buckets/pvc-1''" by code_simp
  from created_volume_is_mounted_there [OF v(1) eval(1) disjI1 [OF eval(2)] eval(3,5) m
      args [unfolded demo_command_def]]
  obtain fs dir name where "hist w' = EFilerMkdir fs dir name None # hist start_world"
    "''-filer.path='' @ path_join [dir, name] \<in> set args"
    "''-collection='' @ (if goget (create_context demo_libs demo_create) ''collection'' = '''' then name
       else goget (create_context demo_libs demo_create) ''collection'') \<in> set args"
    by blast
  with made args joined eval(4) show ?thesis by (auto simp: start_world_def)
qed

end
