(* ===== verification/Startup.thy ===== *)
theory Startup
  imports Restore Service
begin

text \<open>
  The start of the two programs: flags and preconditions of the driver
  (cmd/seaweedfs-csi-driver/main.go), \<open>Run\<close> (pkg/driver/driver.go) with the registration of the
  servers (pkg/driver/server.go), the identity answers, and the listening socket of the mount
  service (cmd/seaweedfs-mount/main.go). Flag parsing, gRPC, JSON, the environment and the
  network are parameters.
\<close>

section \<open>Flags\<close>

record flags =
  fl_components :: string
  fl_attacher :: bool
  fl_driverName :: string
  fl_filer :: string
  fl_endpoint :: string
  fl_mountEndpoint :: string
  fl_nodeID :: string
  fl_version :: bool
  fl_concurrentWriters :: int
  fl_mountExtraArgs :: string
  fl_concurrentReaders :: int
  fl_cacheCapacityMB :: int
  fl_cacheMetaTtlSec :: int
  fl_cacheDir :: string
  fl_uidMap :: string
  fl_gidMap :: string
  fl_dataCenter :: string
  fl_dataLocality :: string
  fl_topologyKeys :: string
  fl_metricsAddress :: string

definition default_flags :: "libs \<Rightarrow> flags" where
  "default_flags L = \<lparr>fl_components = ''controller,node'', fl_attacher = True,
     fl_driverName = ''seaweedfs-csi-driver'', fl_filer = ''localhost:8888'',
     fl_endpoint = ''unix://tmp/seaweedfs-csi.sock'',
     fl_mountEndpoint = ''unix:///tmp/seaweedfs-mount.sock'', fl_nodeID = '''', fl_version = False,
     fl_concurrentWriters = 128, fl_mountExtraArgs = ''[]'', fl_concurrentReaders = 128,
     fl_cacheCapacityMB = 0, fl_cacheMetaTtlSec = 60, fl_cacheDir = os_TempDir L, fl_uidMap = '''',
     fl_gidMap = '''', fl_dataCenter = '''', fl_dataLocality = '''', fl_topologyKeys = '''',
     fl_metricsAddress = '':9810''\<rparr>"

text \<open>What the process finds around it; the last four are the linker's and the runtime's.\<close>

record machine =
  json_strings :: "string \<Rightarrow> err + string list"
  os_Getenv :: "string \<Rightarrow> string"
  os_Hostname :: "err + string"
  driverVersion :: string
  gitCommit :: string
  buildDate :: string
  go_runtime :: "string \<times> string \<times> string \<times> string"

definition convertRequiredValues :: "machine \<Rightarrow> flags \<Rightarrow> err + string list \<times> DataLocality" where
  "convertRequiredValues M F =
     (case json_strings M (fl_mountExtraArgs F) of
        Inl err \<Rightarrow> Inl (wrap_err ''invalid mountExtraArgs: '' err)
      | Inr parsedMountExtraArgs \<Rightarrow>
          (case ValidateMountArgs parsedMountExtraArgs of
             Some err \<Rightarrow> Inl err
           | None \<Rightarrow>
               if fl_dataLocality F \<noteq> '''' then
                 (case dl_FromString (fl_dataLocality F) of
                    None \<Rightarrow> Inl (errorf ''dataLocality invalid value'')
                  | Some dataLocality \<Rightarrow> Inr (parsedMountExtraArgs, dataLocality))
               else Inr (parsedMountExtraArgs, NoLocality)))"

text \<open>The node ID the driver goes on with.\<close>

definition checkPreconditions :: "machine \<Rightarrow> flags \<Rightarrow> DataLocality \<Rightarrow> bool \<Rightarrow> err + string" where
  "checkPreconditions M F dataLocality runNode =
     (case CheckDataLocality dataLocality (fl_dataCenter F) of
        Some err \<Rightarrow> Inl err
      | None \<Rightarrow>
          if runNode then
            (let nodeID = (if fl_nodeID F = '''' then
                   if os_Getenv M ''NODE_ID'' \<noteq> '''' then os_Getenv M ''NODE_ID''
                   else (case os_Hostname M of
                           Inr hostname \<Rightarrow> if hostname \<noteq> '''' then hostname else fl_nodeID F
                         | Inl _ \<Rightarrow> fl_nodeID F)
                 else fl_nodeID F)
             in if nodeID = '''' then Inl (errorf ''driver requires node id to be set, use -nodeid='')
                else Inr nodeID)
          else Inr (fl_nodeID F))"

text \<open>The loop over the components; \<open>Inl\<close> is the invalid one.\<close>

fun parse_components :: "string list \<Rightarrow> bool \<Rightarrow> bool \<Rightarrow> string + bool \<times> bool" where
  "parse_components [] runNode runController = Inr (runNode, runController)"
| "parse_components (c # cs) runNode runController =
     (if c = ''controller'' then parse_components cs runNode True
      else if c = ''node'' then parse_components cs True runController
      else Inl c)"

section \<open>The driver's main\<close>

record plugin =
  pl_driver :: SeaweedFsDriver
  pl_RunNode :: bool
  pl_RunController :: bool

text \<open>How \<open>main\<close> goes on: it prints the version, exits, or runs a driver, with metrics at an address.\<close>

datatype outcome = PrintsVersion | Exits string | Runs plugin "string option"

definition configured_driver ::
  "libs \<Rightarrow> flags \<Rightarrow> string list \<Rightarrow> DataLocality \<Rightarrow> string \<Rightarrow> SeaweedFsDriver" where
  "configured_driver L F extraArgs dataLocality nodeID =
     (NewSeaweedFsDriver L (fl_driverName F) (fl_filer F) nodeID (fl_endpoint F) (fl_mountEndpoint F)
        (fl_attacher F))
     \<lparr>ConcurrentWriters := fl_concurrentWriters F, ConcurrentReaders := fl_concurrentReaders F,
      MountExtraArgs := extraArgs, CacheCapacityMB := fl_cacheCapacityMB F,
      CacheMetaTtlSec := fl_cacheMetaTtlSec F, CacheDir := fl_cacheDir F, UidMap := fl_uidMap F,
      GidMap := fl_gidMap F, dr_DataCenter := fl_dataCenter F, dr_DataLocality := dataLocality,
      TopologyKeys := ParseTopologyKeys (fl_topologyKeys F)\<rparr>"

definition driver_main :: "libs \<Rightarrow> machine \<Rightarrow> flags \<Rightarrow> outcome" where
  "driver_main L M F =
     (if fl_version F then PrintsVersion
      else (case convertRequiredValues M F of
        Inl err \<Rightarrow> Exits (''Failed converting flag: '' @ err_text err)
      | Inr (extraArgs, dataLocality) \<Rightarrow>
     (case parse_components (split_on CHR '','' (fl_components F)) False False of
        Inl c \<Rightarrow> Exits (''invalid component: '' @ c)
      | Inr (runNode, runController) \<Rightarrow>
          if \<not> runNode \<and> \<not> runController then
            Exits ''at least one component should be enabled: either controller or node (use --components=...)''
          else (case checkPreconditions M F dataLocality runNode of
             Inl err \<Rightarrow> Exits (''Precondition failed: '' @ err_text err)
           | Inr nodeID \<Rightarrow>
               Runs \<lparr>pl_driver = configured_driver L F extraArgs dataLocality nodeID,
                     pl_RunNode = runNode, pl_RunController = runController\<rparr>
                 (if runNode \<and> fl_metricsAddress F \<noteq> '''' then Some (fl_metricsAddress F) else None)))))"

section \<open>Servers\<close>

text \<open>
  A value of an interface type: nil, or a pointer of a concrete type, which may itself be nil. A
  nil pointer stored in an interface does not compare equal to nil.
\<close>

datatype receiver = IdentityServer SeaweedFsDriver | ControllerServer SeaweedFsDriver | NodeServer node

datatype iface = NilInterface | Interface "receiver option"

datatype service = IdentityService | ControllerService | NodeService

type_synonym registry = "(service \<times> receiver option) list"

datatype serve_result = Fatal string | Serving string string registry

definition register :: "service \<Rightarrow> iface \<Rightarrow> registry" where
  "register s i = (case i of NilInterface \<Rightarrow> [] | Interface p \<Rightarrow> [(s, p)])"

type_synonym listen = "event list \<Rightarrow> string \<Rightarrow> string \<Rightarrow> err option"

definition grpc_serve ::
  "env \<Rightarrow> listen \<Rightarrow> string \<Rightarrow> iface \<Rightarrow> iface \<Rightarrow> iface \<Rightarrow> ('w, serve_result) io" where
  "grpc_serve E net_Listen endpoint ids cs ns =
     (case driverParseEndpoint endpoint of
        None \<Rightarrow> ret (Fatal (''invalid endpoint: '' @ endpoint))
      | Some (proto, address) \<Rightarrow> do {
          let addr = (if proto = ''unix'' then ''/'' @ address else address);
          failed \<leftarrow> (if proto = ''unix'' then do {
               r \<leftarrow> ext (\<lambda>h. os_Remove E h addr) (ERemove addr);
               ret (case r of
                  None \<Rightarrow> None
                | Some err \<Rightarrow> if \<not> is_not_exist err then
                    Some (''Failed to remove '' @ addr @ '', error: '' @ err_text err) else None)
             } else ret None);
          (case failed of
             Some msg \<Rightarrow> ret (Fatal msg)
           | None \<Rightarrow> do {
               l \<leftarrow> gets (\<lambda>w. net_Listen (hist w) proto addr);
               ret (case l of
                  Some err \<Rightarrow> Fatal (''Failed to listen: '' @ err_text err)
                | None \<Rightarrow> Serving proto addr (register IdentityService ids
                    @ register ControllerService cs @ register NodeService ns))
             })
        })"

text \<open>\<open>controller\<close> and \<open>node\<close> are pointers of their types when \<open>Start\<close> receives them.\<close>

definition Run :: "libs \<Rightarrow> env \<Rightarrow> listen \<Rightarrow> plugin \<Rightarrow> event list \<Rightarrow> serve_result" where
  "Run L E net_Listen p h =
     (let n = pl_driver p;
          controller = (if pl_RunController p then Some (ControllerServer n) else None);
          node = (if pl_RunNode p then Some (NewNodeServer L E n h) else None);
          h1 = (case node of None \<Rightarrow> h | Some ns \<Rightarrow> hist ns)
      in fst (run_state (grpc_serve E net_Listen (dr_endpoint n) (Interface (Some (IdentityServer n)))
           (Interface controller) (Interface (map_option NodeServer node)))
         \<lparr>hist = h1, probes = []\<rparr>))"

text \<open>gRPC answers a call for a service that is not registered itself.\<close>

datatype dispatched = Unimplemented | NilReceiver | HandledBy receiver

definition dispatch :: "registry \<Rightarrow> service \<Rightarrow> dispatched" where
  "dispatch regs s =
     (case map_of regs s of
        None \<Rightarrow> Unimplemented | Some None \<Rightarrow> NilReceiver | Some (Some r) \<Rightarrow> HandledBy r)"

section \<open>Identity\<close>

definition driver_version :: string where "driver_version = ''1.0.0''"

definition GetPluginInfo :: "SeaweedFsDriver \<Rightarrow> string \<times> string" where
  "GetPluginInfo d = (dr_name d, driver_version)"

record VersionInfo =
  vi_DriverVersion :: string
  vi_GitCommit :: string
  vi_BuildDate :: string
  vi_GoVersion :: string
  vi_Compiler :: string
  vi_Platform :: string

definition GetVersion :: "machine \<Rightarrow> VersionInfo" where
  "GetVersion M = (case go_runtime M of (goVersion, compiler, goos, goarch) \<Rightarrow>
     \<lparr>vi_DriverVersion = driverVersion M, vi_GitCommit = gitCommit M, vi_BuildDate = buildDate M,
      vi_GoVersion = goVersion, vi_Compiler = compiler, vi_Platform = goos @ ''/'' @ goarch\<rparr>)"

section \<open>The mount service's main\<close>

definition mount_service_main :: "env \<Rightarrow> listen \<Rightarrow> string \<Rightarrow> ('w, string + string) io" where
  "mount_service_main E net_Listen endpoint =
     (case mountParseEndpoint endpoint of
        None \<Rightarrow> ret (Inl (''invalid endpoint: invalid endpoint: '' @ endpoint))
      | Some (scheme, address) \<Rightarrow>
          if scheme \<noteq> ''unix'' then ret (Inl (''unsupported endpoint scheme: '' @ scheme))
          else do {
            r \<leftarrow> ext (\<lambda>h. os_Remove E h address) (ERemove address);
            (case (case r of None \<Rightarrow> None | Some err \<Rightarrow> if is_not_exist err then None else Some err) of
               Some err \<Rightarrow> ret (Inl (''removing existing socket: '' @ err_text err))
             | None \<Rightarrow> do {
                 l \<leftarrow> gets (\<lambda>w. net_Listen (hist w) ''unix'' address);
                 ret (case l of
                    Some err \<Rightarrow> Inl (''failed to listen on '' @ address @ '': '' @ err_text err)
                  | None \<Rightarrow> Inr address)
               })
          })"

section \<open>Properties\<close>

lemma parse_components_valid:
  "parse_components cs n c = Inr (n', c') \<Longrightarrow> set cs \<subseteq> {''controller'', ''node''}
    \<and> n' = (n \<or> ''node'' \<in> set cs) \<and> c' = (c \<or> ''controller'' \<in> set cs)"
  by (induction cs n c rule: parse_components.induct) (auto split: if_splits)

lemma convertRequiredValues_valid:
  "convertRequiredValues M F = Inr (args, dl) \<Longrightarrow> ValidateMountArgs args = None"
  by (auto simp: convertRequiredValues_def split: sum.splits option.splits if_splits)

lemma checkPreconditions_valid:
  "checkPreconditions M F dl runNode = Inr nodeID \<Longrightarrow>
   CheckDataLocality dl (fl_dataCenter F) = None \<and> (runNode \<longrightarrow> nodeID \<noteq> '''')"
  by (auto simp: checkPreconditions_def Let_def split: option.splits sum.splits if_splits)

lemma configured_driver_fields:
  "MountExtraArgs (configured_driver L F args dl nodeID) = args"
  "dr_DataCenter (configured_driver L F args dl nodeID) = fl_dataCenter F"
  "dr_DataLocality (configured_driver L F args dl nodeID) = dl"
  "dr_nodeID (configured_driver L F args dl nodeID) = nodeID"
  "mountEndpoint (configured_driver L F args dl nodeID) = fl_mountEndpoint F"
  "volumeSocketDir (configured_driver L F args dl nodeID) = socket_dir_of (fl_mountEndpoint F)"
  by (simp_all add: configured_driver_def NewSeaweedFsDriver_def AddVolumeCapabilityAccessModes_def
      AddControllerServiceCapabilities_def Let_def)

lemma valid_driver_builds_args:
  assumes "ValidateMountArgs (MountExtraArgs d) = None"
    and "CheckDataLocality (dr_DataLocality d) (dr_DataCenter d) = None"
    and "goget (mo_volContext m) ''dataLocality'' = ''''"
  shows "\<exists>args. buildMountArgs ord d m target cacheDir sock fs = Inr args"
  using assms
  by (auto simp: buildMountArgs_def locality_of_def CheckDataLocality_def Let_def split: if_splits)

text \<open>
  C38: The flag checks of \<open>main\<close> are enough for the mounts: a driver that \<open>main\<close> runs has at least one
  component, each named one is known, a node has a node ID, and the command line of a mount is
  built for every volume that does not ask for a locality of its own, so the extra arguments and the
  locality flags cannot make a mount fail later.
\<close>

theorem started_driver_builds_every_mount:
  assumes "driver_main L M F = Runs p metrics"
  shows "(pl_RunNode p \<or> pl_RunController p)
    \<and> set (split_on CHR '','' (fl_components F)) \<subseteq> {''controller'', ''node''}
    \<and> (pl_RunNode p \<longrightarrow> dr_nodeID (pl_driver p) \<noteq> '''')
    \<and> (metrics \<noteq> None \<longrightarrow> pl_RunNode p)
    \<and> (\<forall>ord m target cacheDir sock fs. goget (mo_volContext m) ''dataLocality'' = '''' \<longrightarrow>
        (\<exists>args. buildMountArgs ord (pl_driver p) m target cacheDir sock fs = Inr args))"
proof -
  obtain args dl runNode runController nodeID where
    conv: "convertRequiredValues M F = Inr (args, dl)" and
    comps: "parse_components (split_on CHR '','' (fl_components F)) False False = Inr (runNode, runController)" and
    pre: "checkPreconditions M F dl runNode = Inr nodeID" and some: "runNode \<or> runController" and
    p: "p = \<lparr>pl_driver = configured_driver L F args dl nodeID, pl_RunNode = runNode,
      pl_RunController = runController\<rparr>" and
    metrics: "metrics = (if runNode \<and> fl_metricsAddress F \<noteq> '''' then Some (fl_metricsAddress F) else None)"
    using assms by (auto simp: driver_main_def split: if_splits sum.splits prod.splits)
  have "\<exists>as. buildMountArgs ord (pl_driver p) m target cacheDir sock fs = Inr as"
    if "goget (mo_volContext m) ''dataLocality'' = ''''" for ord m target cacheDir sock fs
    using that convertRequiredValues_valid [OF conv] checkPreconditions_valid [OF pre]
    by (intro valid_driver_builds_args) (simp_all add: p configured_driver_fields)
  then show ?thesis
    using some parse_components_valid [OF comps] checkPreconditions_valid [OF pre]
    by (simp add: p metrics configured_driver_fields)
qed

definition demo_machine :: machine where
  "demo_machine = \<lparr>json_strings = \<lambda>s. if s = ''[]'' then Inr [] else Inl (errorf ''syntax''),
     os_Getenv = \<lambda>v. if v = ''NODE_ID'' then ''n1'' else '''', os_Hostname = Inr ''host'',
     driverVersion = ''v1'', gitCommit = ''c'', buildDate = ''d'',
     go_runtime = (''go1'', ''gc'', ''linux'', ''amd64'')\<rparr>"

definition demo_plugin :: "bool \<Rightarrow> plugin" where
  "demo_plugin c = \<lparr>pl_driver = configured_driver demo_libs (default_flags demo_libs) [] NoLocality ''n1'',
     pl_RunNode = True, pl_RunController = c\<rparr>"

lemma demo_main: "driver_main demo_libs demo_machine (default_flags demo_libs) = Runs (demo_plugin True) (Some '':9810'')"
  by (simp add: driver_main_def default_flags_def demo_machine_def convertRequiredValues_def
      checkPreconditions_def CheckDataLocality_def demo_plugin_def configured_driver_def)

theorem started_driver_builds_every_mount_witness:
  "dr_nodeID (pl_driver (demo_plugin True)) \<noteq> ''''
   \<and> (\<exists>args. buildMountArgs id (pl_driver (demo_plugin True))
        \<lparr>mo_volumeID = ''/buckets/v'', mo_readOnly = False, mo_volContext = []\<rparr> ''/t'' ''/c'' ''/s'' [''f''] = Inr args)"
  using started_driver_builds_every_mount [OF demo_main] by (simp add: demo_plugin_def goget_def)

text \<open>
  Leaving a component out does not keep its service from being served: \<open>Run\<close> hands \<open>Start\<close> a nil
  pointer in a non-nil interface, so the check against nil never holds and all three services are
  registered, the one left out with a nil receiver, instead of being answered as unimplemented.
\<close>

theorem missing_component_is_registered:
  assumes "Run L E net_Listen p h = Serving proto addr regs"
  shows "dispatch regs IdentityService = HandledBy (IdentityServer (pl_driver p))
    \<and> dispatch regs ControllerService =
        (if pl_RunController p then HandledBy (ControllerServer (pl_driver p)) else NilReceiver)
    \<and> dispatch regs NodeService =
        (if pl_RunNode p then HandledBy (NodeServer (NewNodeServer L E (pl_driver p) h)) else NilReceiver)"
  using assms
  by (auto simp: Run_def grpc_serve_def register_def dispatch_def Let_def
      split: option.splits prod.splits if_splits)

lemma demo_run:
  "\<exists>regs. Run demo_libs calm_env (\<lambda>h n a. None) (demo_plugin False) [] = Serving ''unix'' ''/tmp/seaweedfs-csi.sock'' regs"
proof -
  have "dr_endpoint (pl_driver (demo_plugin False)) = ''unix://tmp/seaweedfs-csi.sock''"
    by (simp add: demo_plugin_def configured_driver_def NewSeaweedFsDriver_def default_flags_def
        AddVolumeCapabilityAccessModes_def AddControllerServiceCapabilities_def)
  moreover have "driverParseEndpoint ''unix://tmp/seaweedfs-csi.sock'' = Some (''unix'', ''tmp/seaweedfs-csi.sock'')"
    by code_simp
  moreover have "os_Remove calm_env h a = None" for h a by (simp add: calm_env_def)
  ultimately show ?thesis by (simp add: Run_def grpc_serve_def Let_def)
qed

theorem missing_component_is_registered_witness:
  "\<exists>proto addr regs. Run demo_libs calm_env (\<lambda>h n a. None) (demo_plugin False) [] = Serving proto addr regs
     \<and> dispatch regs ControllerService = NilReceiver"
proof -
  obtain regs where r: "Run demo_libs calm_env (\<lambda>h n a. None) (demo_plugin False) []
      = Serving ''unix'' ''/tmp/seaweedfs-csi.sock'' regs"
    using demo_run by blast
  have "\<not> pl_RunController (demo_plugin False)" by (simp add: demo_plugin_def)
  with missing_component_is_registered [OF r] r show ?thesis by auto
qed

text \<open>
  The two programs agree on their endpoint: where the mount service listens, the driver with the
  same flag has a client and an unmounter for it and puts the volumes' sockets into the directory of
  the service's socket; an endpoint the client refuses is one the service does not start on.
\<close>

theorem programs_agree_on_endpoint:
  assumes "run_state (mount_service_main E net_Listen ep) w = (r, w')" and "fl_mountEndpoint F = ep"
  shows "(case r of
      Inr address \<Rightarrow> NewClient ep = None
        \<and> newUnmounter (configured_driver L F args dl nodeID) = None
        \<and> volumeSocketDir (configured_driver L F args dl nodeID) = path_dir address
    | Inl msg \<Rightarrow> True) \<and> (NewClient ep \<noteq> None \<longrightarrow> isl r \<and> w' = w)"
proof (cases "mountParseEndpoint ep")
  case None
  then show ?thesis using assms by (auto simp: mount_service_main_def)
next
  case (Some sa)
  then have "snd sa \<noteq> ''''" "ep \<noteq> ''''"
    by (auto simp: mountParseEndpoint_def split: option.splits if_splits)
  then show ?thesis
    using Some assms
    by (auto simp: mount_service_main_def NewClient_def newUnmounter_def configured_driver_fields
        socket_dir_of_def split: if_splits option.splits prod.splits sum.splits)
qed

theorem programs_agree_on_endpoint_witness:
  "run_state (mount_service_main calm_env (\<lambda>h n a. None) ''unix:///tmp/seaweedfs-mount.sock'') start_world
     = (Inr ''/tmp/seaweedfs-mount.sock'', start_world\<lparr>hist := [ERemove ''/tmp/seaweedfs-mount.sock'' None]\<rparr>)
   \<and> volumeSocketDir (configured_driver demo_libs (default_flags demo_libs) [] NoLocality ''n1'')
     = path_dir ''/tmp/seaweedfs-mount.sock''"
proof -
  have run: "run_state (mount_service_main calm_env (\<lambda>h n a. None) ''unix:///tmp/seaweedfs-mount.sock'') start_world
     = (Inr ''/tmp/seaweedfs-mount.sock'', start_world\<lparr>hist := [ERemove ''/tmp/seaweedfs-mount.sock'' None]\<rparr>)"
  proof -
    have "mountParseEndpoint ''unix:///tmp/seaweedfs-mount.sock'' = Some (''unix'', ''/tmp/seaweedfs-mount.sock'')"
      by code_simp
    then show ?thesis by (simp add: mount_service_main_def calm_env_def start_world_def)
  qed
  have "fl_mountEndpoint (default_flags demo_libs) = ''unix:///tmp/seaweedfs-mount.sock''"
    by (simp add: default_flags_def)
  from programs_agree_on_endpoint [OF run this, of demo_libs "[]" NoLocality "''n1''"] run
  show ?thesis by simp
qed

end
