(* ===== verification/Shutdown.thy ===== *)
theory Shutdown
  imports Restore
begin

text \<open>
  The end of the plugin process: \<open>Run\<close> after the signal (pkg/driver/driver.go), \<open>NodeCleanup\<close>
  (nodeserver.go), the monitor's loop (\<open>startHealthMonitor\<close>, health_monitor.go) and the field
  \<open>server\<close> that \<open>serve\<close> sets and \<open>Stop\<close> uses (server.go), as interleaved goroutines. The handlers and
  the running checks may change the node at any time; only the monitor launches checks.
\<close>

section \<open>Goroutines\<close>

text \<open>The monitor waits for a tick or the stop, sweeps the volumes it has left, or has returned.\<close>

datatype monitor = Selecting | Sweeping "string list" | MonitorStopped

text \<open>
  The main goroutine waits for the signal, stops the server, closes \<open>stopCh\<close>, waits for the checks,
  returns. \<open>NilServer\<close> is the panic of a \<open>Stop\<close> that finds no server.
\<close>

datatype main_phase = AwaitsSignal | StopsServer | CleansUp | WaitsForChecks | CleanedUp | Returned | NilServer

record plugin_run =
  pr_server :: bool
  pr_monitor :: monitor
  pr_stopCh :: bool
  pr_checks :: "string list"
  pr_main :: main_phase
  pr_node :: node

definition plugin_start :: "node \<Rightarrow> plugin_run" where
  "plugin_start w = \<lparr>pr_server = False, pr_monitor = Selecting, pr_stopCh = False, pr_checks = [],
     pr_main = AwaitsSignal, pr_node = w\<rparr>"

definition process_ended :: "plugin_run \<Rightarrow> bool" where
  "process_ended s \<longleftrightarrow> pr_main s = Returned \<or> pr_main s = NilServer"

text \<open>The volumes a sweep launches a check for.\<close>

definition swept_volumes :: "'n node_scheme \<Rightarrow> string list" where
  "swept_volumes w = map fst (filter (\<lambda>(v, vol). vol_StagedPath vol \<noteq> '''') (volumes w))"

definition Stop :: "plugin_run \<Rightarrow> plugin_run" where
  "Stop s = s\<lparr>pr_main := if pr_server s then CleansUp else NilServer\<rparr>"

text \<open>\<open>NodeCleanup\<close> in two steps: it closes the channel and then waits for the checks in flight.\<close>

definition close_stopCh :: "plugin_run \<Rightarrow> plugin_run" where
  "close_stopCh s = s\<lparr>pr_stopCh := True, pr_main := WaitsForChecks\<rparr>"

definition recoveryWg_Wait :: "plugin_run \<Rightarrow> plugin_run option" where
  "recoveryWg_Wait s = (if pr_checks s = [] then Some (s\<lparr>pr_main := CleanedUp\<rparr>) else None)"

definition launch_next :: "string \<Rightarrow> string list \<Rightarrow> plugin_run \<Rightarrow> plugin_run" where
  "launch_next v vs s = (case run_state (launchVolumeHealthCheck v) (pr_node s) of (started, w) \<Rightarrow>
     s\<lparr>pr_monitor := Sweeping vs, pr_checks := if started then v # pr_checks s else pr_checks s, pr_node := w\<rparr>)"

definition finish_check :: "string \<Rightarrow> plugin_run \<Rightarrow> plugin_run" where
  "finish_check v s = (case run_state (finishVolumeHealthCheck v) (pr_node s) of (u, w) \<Rightarrow>
     s\<lparr>pr_checks := remove1 v (pr_checks s), pr_node := w\<rparr>)"

text \<open>
  \<open>select\<close> takes either channel when both are ready, so \<open>tick\<close> has no condition on \<open>stopCh\<close>. \<open>panicked\<close>
  is the recovered panic of a sweep; \<open>work\<close> is what handlers and checks do to the node.
  The two deferred calls at the end of a check, out of the active set and out of the wait group, are
  one step: between them the check no longer works.
\<close>

inductive shutdown_step :: "plugin_run \<Rightarrow> plugin_run \<Rightarrow> bool" where
  serve: "\<not> process_ended s \<Longrightarrow> shutdown_step s (s\<lparr>pr_server := True\<rparr>)"
| tick: "\<not> process_ended s \<Longrightarrow> pr_monitor s = Selecting \<Longrightarrow>
    shutdown_step s (s\<lparr>pr_monitor := Sweeping (swept_volumes (pr_node s))\<rparr>)"
| stopped: "\<not> process_ended s \<Longrightarrow> pr_monitor s = Selecting \<Longrightarrow> pr_stopCh s \<Longrightarrow>
    shutdown_step s (s\<lparr>pr_monitor := MonitorStopped\<rparr>)"
| launch: "\<not> process_ended s \<Longrightarrow> pr_monitor s = Sweeping (v # vs) \<Longrightarrow> shutdown_step s (launch_next v vs s)"
| swept: "\<not> process_ended s \<Longrightarrow> pr_monitor s = Sweeping [] \<Longrightarrow> shutdown_step s (s\<lparr>pr_monitor := Selecting\<rparr>)"
| panicked: "\<not> process_ended s \<Longrightarrow> pr_monitor s = Sweeping vs \<Longrightarrow> shutdown_step s (s\<lparr>pr_monitor := Selecting\<rparr>)"
| work: "\<not> process_ended s \<Longrightarrow> activeRecoveries w = activeRecoveries (pr_node s) \<Longrightarrow>
    shutdown_step s (s\<lparr>pr_node := w\<rparr>)"
| finish: "\<not> process_ended s \<Longrightarrow> v \<in> set (pr_checks s) \<Longrightarrow> shutdown_step s (finish_check v s)"
| signal: "pr_main s = AwaitsSignal \<Longrightarrow> shutdown_step s (s\<lparr>pr_main := StopsServer\<rparr>)"
| stop: "pr_main s = StopsServer \<Longrightarrow> shutdown_step s (Stop s)"
| close_channel: "pr_main s = CleansUp \<Longrightarrow> shutdown_step s (close_stopCh s)"
| waited: "pr_main s = WaitsForChecks \<Longrightarrow> recoveryWg_Wait s = Some s' \<Longrightarrow> shutdown_step s s'"
| exit: "pr_main s = CleanedUp \<Longrightarrow> shutdown_step s (s\<lparr>pr_main := Returned\<rparr>)"

text \<open>A sweep that nothing interrupts is \<open>checkAndRecoverVolumes\<close>.\<close>

fun sweep :: "string list \<Rightarrow> plugin_run \<Rightarrow> plugin_run" where
  "sweep [] s = s"
| "sweep (v # vs) s = sweep vs (launch_next v vs s)"

lemma sweep_node: "pr_node (sweep vs s) = snd (run_state (for_each vs (\<lambda>v. do { launchVolumeHealthCheck v; ret () })) (pr_node s))"
  by (induction vs arbitrary: s) (simp_all add: launch_next_def split: prod.splits)

lemma sweep_is_checkAndRecoverVolumes:
  "pr_node (sweep (swept_volumes (pr_node s)) s) = snd (run_state checkAndRecoverVolumes (pr_node s))"
proof -
  have "run_state (for_each (map fst (filter (\<lambda>(v, vol). vol_StagedPath vol \<noteq> '''') xs))
        (\<lambda>v. do { launchVolumeHealthCheck v; ret () })) w
      = run_state (for_each xs (\<lambda>(v, vol). if vol_StagedPath vol = '''' then ret ()
          else do { launchVolumeHealthCheck v; ret () })) w" for xs :: "(string \<times> Volume) list" and w :: node
    by (induction xs arbitrary: w) (auto split: prod.splits)
  then show ?thesis by (simp add: sweep_node swept_volumes_def checkAndRecoverVolumes_def)
qed

section \<open>What a shutdown leaves\<close>

lemma launch_next_keeps:
  "pr_main (launch_next v vs s) = pr_main s" "pr_monitor (launch_next v vs s) = Sweeping vs"
  by (simp_all add: launch_next_def split: prod.split)

lemma finish_check_keeps:
  "pr_main (finish_check v s) = pr_main s" "pr_monitor (finish_check v s) = pr_monitor s"
  "pr_checks (finish_check v s) = remove1 v (pr_checks s)"
  by (simp_all add: finish_check_def split: prod.split)

text \<open>The checks in flight are the active set, one per volume, in every interleaving.\<close>

lemma checks_are_active_step:
  assumes "shutdown_step s s'" and "one_check_each (pr_checks s, pr_node s)"
  shows "one_check_each (pr_checks s', pr_node s')"
  using assms
proof (induction rule: shutdown_step.induct)
  case (launch s v vs)
  obtain b w where run: "run_state (launchVolumeHealthCheck v) (pr_node s) = (b, w)" by (metis surj_pair)
  with monitor_step_inv [OF monitor_step.launch [OF run] launch(3)] show ?case by (simp add: launch_next_def)
next
  case (finish s v)
  obtain u w where run: "run_state (finishVolumeHealthCheck v) (pr_node s) = (u, w)" by (metis surj_pair)
  with monitor_step_inv [OF monitor_step.finish [OF finish(2) run] finish(3)] show ?case by (simp add: finish_check_def)
qed (auto simp: one_check_each_def Stop_def close_stopCh_def recoveryWg_Wait_def split: if_splits)

text \<open>A stopped monitor stays stopped, and then nothing is in flight once the wait is over.\<close>

definition monitor_quiet :: "plugin_run \<Rightarrow> bool" where
  "monitor_quiet s \<longleftrightarrow> pr_monitor s = MonitorStopped
     \<and> (pr_main s = CleanedUp \<or> pr_main s = Returned \<longrightarrow> pr_checks s = [])"

lemma monitor_quiet_step: "shutdown_step s s' \<Longrightarrow> monitor_quiet s \<Longrightarrow> monitor_quiet s'"
  by (induction rule: shutdown_step.induct)
    (auto simp: monitor_quiet_def finish_check_keeps Stop_def close_stopCh_def recoveryWg_Wait_def split: if_splits)

lemma monitor_quiet_run: "shutdown_step\<^sup>*\<^sup>* s s' \<Longrightarrow> monitor_quiet s \<Longrightarrow> monitor_quiet s'"
  by (induction rule: rtranclp_induct) (auto intro: monitor_quiet_step)

lemma checks_are_active_run:
  "shutdown_step\<^sup>*\<^sup>* s s' \<Longrightarrow> one_check_each (pr_checks s, pr_node s) \<Longrightarrow> one_check_each (pr_checks s', pr_node s')"
  by (induction rule: rtranclp_induct) (auto intro: checks_are_active_step)

section \<open>Two races\<close>

text \<open>
  \<open>NodeCleanup\<close> waits for the checks in flight, not for the monitor: a sweep that runs while the
  channel is closed launches a check after the wait, and the process returns in the middle of it.
\<close>

definition one_volume :: node where
  "one_volume = (empty_node [] [])\<lparr>volumes := [(''v'', rebuildVolumeFromStaging demo_libs demo_driver ''v'' ''/s'')]\<rparr>"

lemmas run_defs = plugin_start_def process_ended_def Stop_def close_stopCh_def recoveryWg_Wait_def

lemma exit_in_the_middle_of_a_check:
  "\<exists>s. shutdown_step\<^sup>*\<^sup>* (plugin_start one_volume) s \<and> pr_main s = Returned \<and> pr_checks s = [''v'']"
proof -
  let ?w = "one_volume"
  let ?s0 = "plugin_start ?w"
  let ?s1 = "?s0\<lparr>pr_server := True\<rparr>"
  let ?s2 = "?s1\<lparr>pr_monitor := Sweeping [''v'']\<rparr>"
  let ?s3 = "?s2\<lparr>pr_main := StopsServer\<rparr>"
  let ?s4 = "Stop ?s3" and ?s5 = "close_stopCh (Stop ?s3)"
  let ?s6 = "?s5\<lparr>pr_main := CleanedUp\<rparr>"
  let ?s7 = "launch_next ''v'' [] ?s6"
  have "swept_volumes ?w = [''v'']" by (simp add: swept_volumes_def one_volume_def rebuildVolumeFromStaging_def)
  then have "shutdown_step ?s1 ?s2"
    using shutdown_step.tick [of ?s1] by (simp add: plugin_start_def process_ended_def)
  moreover have "shutdown_step ?s0 ?s1" by (rule shutdown_step.serve) (simp add: run_defs)
  moreover have "shutdown_step ?s2 ?s3" by (rule shutdown_step.signal) (simp add: run_defs)
  moreover have "shutdown_step ?s3 ?s4" by (rule shutdown_step.stop) simp
  moreover have "shutdown_step ?s4 ?s5" by (rule shutdown_step.close_channel) (simp add: run_defs)
  moreover have "shutdown_step ?s5 ?s6" by (rule shutdown_step.waited) (simp_all add: run_defs)
  moreover have "shutdown_step ?s6 ?s7" by (rule shutdown_step.launch) (simp_all add: run_defs)
  moreover have "shutdown_step ?s7 (?s7\<lparr>pr_main := Returned\<rparr>)"
    by (rule shutdown_step.exit) (simp add: launch_next_keeps)
  ultimately have "shutdown_step\<^sup>*\<^sup>* ?s0 (?s7\<lparr>pr_main := Returned\<rparr>)"
    by (meson converse_rtranclp_into_rtranclp rtranclp.rtrancl_refl)
  moreover have "pr_checks ?s7 = [''v'']"
    by (simp add: launch_next_def launchVolumeHealthCheck_def plugin_start_def one_volume_def empty_node_def
        Stop_def close_stopCh_def)
  ultimately show ?thesis by fastforce
qed

text \<open>A signal that arrives before \<open>serve\<close> has made the server makes \<open>Stop\<close> use a nil server.\<close>

lemma early_signal_stops_nil_server:
  "\<exists>s. shutdown_step\<^sup>*\<^sup>* (plugin_start w) s \<and> pr_main s = NilServer"
proof -
  let ?s = "(plugin_start w)\<lparr>pr_main := StopsServer\<rparr>"
  have "shutdown_step (plugin_start w) ?s" by (rule shutdown_step.signal) (simp add: plugin_start_def)
  moreover have "shutdown_step ?s (Stop ?s)" by (rule shutdown_step.stop) simp
  moreover have "pr_main (Stop ?s) = NilServer" by (simp add: Stop_def plugin_start_def)
  ultimately show ?thesis by (meson converse_rtranclp_into_rtranclp rtranclp.rtrancl_refl)
qed

section \<open>Property\<close>

text \<open>
  C28: A shutdown after the monitor has stopped loses no check. In every interleaving, at every moment,
  the checks in flight are exactly the active set, one per volume; and from a moment at which the
  monitor has returned and the cleanup is not over yet, every run that gets to the end of the
  cleanup or of the process has no check in flight there and no volume left in the active set.
\<close>

theorem clean_shutdown_completes_checks:
  assumes "shutdown_step\<^sup>*\<^sup>* (plugin_start w) s" and "activeRecoveries w = []"
  shows "distinct (pr_checks s) \<and> set (pr_checks s) = set (activeRecoveries (pr_node s))
    \<and> (pr_monitor s = MonitorStopped \<and> pr_main s \<noteq> CleanedUp \<and> pr_main s \<noteq> Returned \<longrightarrow>
        (\<forall>s'. shutdown_step\<^sup>*\<^sup>* s s' \<and> (pr_main s' = CleanedUp \<or> pr_main s' = Returned) \<longrightarrow>
           pr_checks s' = [] \<and> activeRecoveries (pr_node s') = []))"
proof -
  have start: "one_check_each (pr_checks (plugin_start w), pr_node (plugin_start w))"
    using assms(2) by (simp add: one_check_each_def plugin_start_def)
  have s: "one_check_each (pr_checks s, pr_node s)" by (rule checks_are_active_run [OF assms(1) start])
  have "pr_checks s' = [] \<and> activeRecoveries (pr_node s') = []"
    if stopped: "pr_monitor s = MonitorStopped" "pr_main s \<noteq> CleanedUp" "pr_main s \<noteq> Returned"
      and run: "shutdown_step\<^sup>*\<^sup>* s s'" and over: "pr_main s' = CleanedUp \<or> pr_main s' = Returned" for s'
  proof -
    have "monitor_quiet s" using stopped by (simp add: monitor_quiet_def)
    then have "pr_checks s' = []"
      using monitor_quiet_run [OF run] over by (simp add: monitor_quiet_def)
    with checks_are_active_run [OF run s] show ?thesis by (simp add: one_check_each_def)
  qed
  with s show ?thesis by (auto simp: one_check_each_def)
qed

theorem clean_shutdown_completes_checks_witness:
  "\<exists>s'. shutdown_step\<^sup>*\<^sup>* (plugin_start one_volume) s' \<and> pr_main s' = Returned \<and> pr_checks s' = []
     \<and> activeRecoveries (pr_node s') = []"
proof -
  let ?s0 = "plugin_start one_volume"
  let ?s1 = "?s0\<lparr>pr_server := True\<rparr>"
  let ?s2 = "?s1\<lparr>pr_main := StopsServer\<rparr>"
  let ?s3 = "close_stopCh (Stop ?s2)"
  let ?s4 = "?s3\<lparr>pr_monitor := MonitorStopped\<rparr>"
  let ?s5 = "?s4\<lparr>pr_main := CleanedUp\<rparr>"
  let ?s6 = "?s5\<lparr>pr_main := Returned\<rparr>"
  have "shutdown_step ?s0 ?s1" by (rule shutdown_step.serve) (simp add: run_defs)
  moreover have "shutdown_step ?s1 ?s2" by (rule shutdown_step.signal) (simp add: run_defs)
  moreover have "shutdown_step ?s2 (Stop ?s2)" by (rule shutdown_step.stop) simp
  moreover have "shutdown_step (Stop ?s2) ?s3" by (rule shutdown_step.close_channel) (simp add: run_defs)
  moreover have "shutdown_step ?s3 ?s4" by (rule shutdown_step.stopped) (simp_all add: run_defs)
  moreover have "shutdown_step ?s4 ?s5" by (rule shutdown_step.waited) (simp_all add: run_defs)
  moreover have "shutdown_step ?s5 ?s6" by (rule shutdown_step.exit) simp
  ultimately have runs: "shutdown_step\<^sup>*\<^sup>* ?s0 ?s4" "shutdown_step\<^sup>*\<^sup>* ?s4 ?s6"
    by (meson converse_rtranclp_into_rtranclp rtranclp.rtrancl_refl)+
  have "pr_monitor ?s4 = MonitorStopped" "pr_main ?s4 \<noteq> CleanedUp" "pr_main ?s4 \<noteq> Returned"
    "pr_main ?s6 = CleanedUp \<or> pr_main ?s6 = Returned" "activeRecoveries one_volume = []"
    by (simp_all add: close_stopCh_def one_volume_def empty_node_def)
  with clean_shutdown_completes_checks [OF runs(1) this(5)] runs(2)
  have "pr_checks ?s6 = [] \<and> activeRecoveries (pr_node ?s6) = []" by blast
  then show ?thesis using rtranclp_trans [OF runs] by fastforce
qed

end
