(* ===== verification/Metrics.thy ===== *)
theory Metrics
  imports HandlerProps
begin

text \<open>
  The Prometheus registry of the node plugin (pkg/driver/metrics.go). The node model records a
  metrics call as an event; \<open>metrics_of\<close> replays the calls of a history, so that what the
  handlers and the health monitor leave in the registry can be stated. A counter is a natural
  number, a series that does not exist is \<open>None\<close>.
\<close>

section \<open>The registry\<close>

definition probeHealthy :: string where "probeHealthy = ''healthy''"
definition probeTimeout :: string where "probeTimeout = ''timeout''"
definition probeUnhealthy :: string where "probeUnhealthy = ''unhealthy''"
definition probeDead :: string where "probeDead = ''dead''"

record metricsRegistry =
  mountHealthCheckTotal :: "string \<times> string \<rightharpoonup> nat"
  mountRecoveryTotal :: "string \<times> string \<rightharpoonup> nat"
  mountSessionUp :: "string \<rightharpoonup> nat"

definition new_registry :: metricsRegistry where
  "new_registry = \<lparr>mountHealthCheckTotal = Map.empty, mountRecoveryTotal = Map.empty,
     mountSessionUp = Map.empty\<rparr>"

text \<open>\<open>WithLabelValues(..).Inc()\<close>: a series starts at 0.\<close>

definition Inc :: "'k \<Rightarrow> ('k \<rightharpoonup> nat) \<Rightarrow> ('k \<rightharpoonup> nat)" where
  "Inc k c = c(k \<mapsto> Suc (case c k of None \<Rightarrow> 0 | Some n \<Rightarrow> n))"

definition recordHealthProbe :: "string \<Rightarrow> string \<Rightarrow> metricsRegistry \<Rightarrow> metricsRegistry" where
  "recordHealthProbe volumeID result R =
     R\<lparr>mountHealthCheckTotal := Inc (volumeID, result) (mountHealthCheckTotal R)\<rparr>"

definition recordRecovery :: "string \<Rightarrow> string \<Rightarrow> metricsRegistry \<Rightarrow> metricsRegistry" where
  "recordRecovery volumeID outcome R =
     R\<lparr>mountRecoveryTotal := Inc (volumeID, outcome) (mountRecoveryTotal R)\<rparr>"

definition setSessionUp :: "string \<Rightarrow> bool \<Rightarrow> metricsRegistry \<Rightarrow> metricsRegistry" where
  "setSessionUp volumeID up R =
     R\<lparr>mountSessionUp := (mountSessionUp R)(volumeID \<mapsto> (if up then 1 else 0))\<rparr>"

definition DeletePartialMatch :: "string \<Rightarrow> (string \<times> string \<rightharpoonup> nat) \<Rightarrow> (string \<times> string \<rightharpoonup> nat)" where
  "DeletePartialMatch volumeID c = (\<lambda>(v, l). if v = volumeID then None else c (v, l))"

definition forgetVolumeMetrics :: "string \<Rightarrow> metricsRegistry \<Rightarrow> metricsRegistry" where
  "forgetVolumeMetrics volumeID R =
     \<lparr>mountHealthCheckTotal = DeletePartialMatch volumeID (mountHealthCheckTotal R),
      mountRecoveryTotal = DeletePartialMatch volumeID (mountRecoveryTotal R),
      mountSessionUp = (mountSessionUp R)(volumeID := None)\<rparr>"

section \<open>The registry of a history\<close>

fun apply_metric :: "event \<Rightarrow> metricsRegistry \<Rightarrow> metricsRegistry" where
  "apply_metric (EHealthProbe v r) R = recordHealthProbe v r R"
| "apply_metric (ERecovery v r) R = recordRecovery v r R"
| "apply_metric (ESessionUp v up) R = setSessionUp v up R"
| "apply_metric (EForgetMetrics v) R = forgetVolumeMetrics v R"
| "apply_metric e R = R"

fun metrics_of :: "event list \<Rightarrow> metricsRegistry" where
  "metrics_of [] = new_registry"
| "metrics_of (e # h) = apply_metric e (metrics_of h)"

text \<open>All series of one volume.\<close>

definition series ::
  "string \<Rightarrow> metricsRegistry \<Rightarrow> (string \<rightharpoonup> nat) \<times> (string \<rightharpoonup> nat) \<times> nat option" where
  "series v R = (\<lambda>l. mountHealthCheckTotal R (v, l), \<lambda>l. mountRecoveryTotal R (v, l), mountSessionUp R v)"

definition no_series :: "string \<Rightarrow> metricsRegistry \<Rightarrow> bool" where
  "no_series v R \<longleftrightarrow> series v R = (Map.empty, Map.empty, None)"

lemmas metric_defs = recordHealthProbe_def recordRecovery_def setSessionUp_def forgetVolumeMetrics_def
  Inc_def DeletePartialMatch_def series_def

lemma series_other [simp]:
  "u \<noteq> v \<Longrightarrow> series u (recordHealthProbe v r R) = series u R"
  "u \<noteq> v \<Longrightarrow> series u (recordRecovery v r R) = series u R"
  "u \<noteq> v \<Longrightarrow> series u (setSessionUp v up R) = series u R"
  "u \<noteq> v \<Longrightarrow> series u (forgetVolumeMetrics v R) = series u R"
  by (simp_all add: metric_defs)

lemma forget_no_series [simp]: "no_series v (forgetVolumeMetrics v R)"
  by (simp add: no_series_def metric_defs)

lemma setSessionUp_series [simp]: "\<not> no_series v (setSessionUp v up R)"
  by (simp add: no_series_def metric_defs)

section \<open>What the handlers leave\<close>

lemma apply_non_metric: "\<not> is_metric e \<Longrightarrow> apply_metric e R = R"
  by (cases e) (auto simp: is_metric_def)

interpretation silent: os_world "\<lambda>w. metrics_of (hist w) = R" "\<lambda>e. \<not> is_metric e" for R
proof unfold_locales
  show "\<not> is_metric e" if "is_probe e" for e using that by (cases e) (auto simp: is_metric_def is_probe_def)
  show "\<not> is_metric e" if "is_os_call e" for e using that by (cases e) (auto simp: is_metric_def is_os_call_def)
qed (auto simp: apply_non_metric)

lemma silent_call: "(\<And>r. \<not> is_metric (ev r)) \<Longrightarrow> keeps (\<lambda>w. metrics_of (hist w) = R) (ext ask ev)"
  by (rule silent.keeps_ext)

lemma silent_Unstage: "keeps (\<lambda>w. metrics_of (hist w) = R) (Unstage L E driver vol path)"
  unfolding Unstage_def unmounter_Unmount_def CleanupVolumeResources_def Let_def
  by (intro keeps_rules silent_call silent.keeps_CleanupMountPoint silent.keeps_reset) (auto simp: is_metric_def)

lemma silent_node:
  "keeps (\<lambda>w. metrics_of (hist w) = R) (getVolumeMutex v)"
  "keeps (\<lambda>w. metrics_of (hist w) = R) (removeVolumeMutex v)"
  "keeps (\<lambda>w. metrics_of (hist w) = R) (delete_volume v)"
  "keeps (\<lambda>w. metrics_of (hist w) = R) (delete_backoff v)"
  "keeps (\<lambda>w. metrics_of (hist w) = R) (load_volume v)"
  by (simp_all add: keeps_def getVolumeMutex_def removeVolumeMutex_def delete_volume_def delete_backoff_def
      load_volume_def)

lemmas silent_runs = silent.keeps_checkHealthDetailed [THEN keepsD, OF refl]
  silent.keeps_monitor_live [THEN keepsD, OF refl]

lemma unstage_metrics:
  assumes "run_state (NodeUnstageVolume L E driver v path) w = (r, w')" and "v \<noteq> ''''" and "path \<noteq> ''''"
  shows "metrics_of (hist w') =
    (if r = None then forgetVolumeMetrics v (metrics_of (hist w)) else metrics_of (hist w))"
proof -
  let ?body = "\<lambda>existing. case existing of
      None \<Rightarrow> do {
        c \<leftarrow> CleanupMountPoint E path;
        (case c of None \<Rightarrow> resetStatfsProbe path | Some _ \<Rightarrow> ret ());
        CleanupVolumeResources L E driver v;
        ret None
      }
    | Some vol \<Rightarrow> do {
        u \<leftarrow> Unstage L E driver vol path;
        (case u of
           Some err \<Rightarrow> ret (Some (status_error Internal (err_text err)))
         | None \<Rightarrow> do { delete_volume v; ret None })
      }"
  let ?first = "do { getVolumeMutex v; existing \<leftarrow> load_volume v; ?body existing }"
  have first: "keeps (\<lambda>w. metrics_of (hist w) = R) ?first" for R
    unfolding CleanupMountPoint_def CleanupVolumeResources_def Let_def
    by (intro keeps_rules silent_call silent.keeps_reset silent_Unstage silent_node)
       (auto simp: is_metric_def)
  obtain q w1 where q: "run_state ?first w = (q, w1)" by (metis surj_pair)
  have "run_state (NodeUnstageVolume L E driver v path) w = run_state (case q of
        Some err \<Rightarrow> ret (Some err)
      | None \<Rightarrow> do { removeVolumeMutex v; delete_backoff v; emit (EForgetMetrics v); ret None }) w1"
    using q assms(2,3) unfolding NodeUnstageVolume_def by (simp split: prod.splits)
  moreover have "metrics_of (hist w1) = metrics_of (hist w)" using keepsD [OF first refl q] .
  ultimately show ?thesis
    using assms(1) by (cases q) (auto simp: removeVolumeMutex_def delete_backoff_def)
qed

text \<open>
  A successful \<open>NodeUnstageVolume\<close> drops the volume's series, of all three metrics, and keeps
  those of every other volume as they were, so a node does not accumulate the series of volumes
  that are gone; a failed one changes no series.
\<close>

theorem unstaged_volume_has_no_series:
  assumes "run_state (NodeUnstageVolume L E driver v path) w = (r, w')" and "v \<noteq> ''''" and "path \<noteq> ''''"
  shows "if r = None then no_series v (metrics_of (hist w'))
      \<and> (\<forall>u. u \<noteq> v \<longrightarrow> series u (metrics_of (hist w')) = series u (metrics_of (hist w)))
    else metrics_of (hist w') = metrics_of (hist w)"
  using unstage_metrics [OF assms] by simp

theorem unstaged_volume_has_no_series_witness:
  "no_series ''/buckets/v'' (metrics_of (hist (snd (run_state (NodeUnstageVolume demo_libs calm_env demo_driver
     ''/buckets/v'' ''/s'') (demo_node\<lparr>hist := [ESessionUp ''/buckets/v'' True]\<rparr>)))))"
proof -
  let ?run = "run_state (NodeUnstageVolume demo_libs calm_env demo_driver ''/buckets/v'' ''/s'')
    (demo_node\<lparr>hist := [ESessionUp ''/buckets/v'' True]\<rparr>)"
  have "fst ?run = None"
    by (simp add: NodeUnstageVolume_def node_steps demo_node_def demo_volume_def Unstage_def
        unmounter_Unmount_def calm_env_def split: prod.split)
  with unstaged_volume_has_no_series [where L = demo_libs and E = calm_env and driver = demo_driver
      and v = "''/buckets/v''" and path = "''/s''" and w = "demo_node\<lparr>hist := [ESessionUp ''/buckets/v'' True]\<rparr>",
      OF prod.collapse [symmetric]]
  show ?thesis by simp
qed

section \<open>What a probe records\<close>

text \<open>The verdict of a staging probe, from its health check and its liveness check.\<close>

definition verdict :: "bool \<Rightarrow> bool \<Rightarrow> bool \<Rightarrow> string" where
  "verdict healthy timedOut alive =
     (if healthy then probeHealthy else if \<not> alive then probeDead
      else if timedOut then probeTimeout else probeUnhealthy)"

lemmas probe_names = probeHealthy_def probeTimeout_def probeUnhealthy_def probeDead_def

lemma probe_metrics:
  assumes "run_state (probeStaging E v path) w = (ok, w')"
    and "run_state (checkHealthDetailed E path) w = ((healthy, timedOut), w1)"
    and "alive = fst (run_state (live E path) w1)"
  shows "ok = healthy \<and> metrics_of (hist w') = setSessionUp v (healthy \<or> alive)
      (recordHealthProbe v (verdict healthy timedOut alive) (metrics_of (hist w)))"
proof -
  obtain a w2 where l: "run_state (live E path) w1 = (a, w2)" by (metis surj_pair)
  have "metrics_of (hist w1) = metrics_of (hist w)" "metrics_of (hist w2) = metrics_of (hist w1)"
    using silent_runs(1) [OF assms(2)] silent_runs(2) [OF l] .
  then show ?thesis
    using assms l by (auto simp: probeStaging_def verdict_def probe_names split: if_splits)
qed

text \<open>
  The metrics tell a slow mount from a dead one: a staging probe counts exactly one outcome for
  the volume and sets its session gauge, to 0 only if the liveness check said the mount is gone;
  a probe that merely ran out of time on a live mount is counted as a timeout with the gauge at 1,
  and the series of the other volumes stay.
\<close>

theorem probe_records_its_verdict:
  assumes "run_state (probeStaging E v path) w = (ok, w')"
    and "run_state (checkHealthDetailed E path) w = ((healthy, timedOut), w1)"
    and "alive = fst (run_state (live E path) w1)"
  shows "ok = healthy \<and> metrics_of (hist w') = setSessionUp v (healthy \<or> alive)
      (recordHealthProbe v (verdict healthy timedOut alive) (metrics_of (hist w)))"
  using assms by (rule probe_metrics)

theorem probe_records_its_verdict_witness:
  "metrics_of (hist (snd (run_state (probeStaging unmounted_env ''v'' ''/s'') start_world)))
     = setSessionUp ''v'' False (recordHealthProbe ''v'' probeDead new_registry)"
proof -
  let ?c = "run_state (checkHealthDetailed unmounted_env ''/s'') start_world"
  have c: "?c = ((False, False), snd ?c)" "fst (run_state (live unmounted_env ''/s'') (snd ?c)) = False"
    by (simp_all add: checkHealthDetailed_def live_def runWithTimeout_def isStagingPathHealthy_def
        isStagingPathLive_def unmounted_env_def calm_env_def start_world_def)
  show ?thesis
    using probe_records_its_verdict [OF prod.collapse [symmetric] c(1) c(2) [symmetric], of "''v''"]
    by (simp add: verdict_def start_world_def)
qed

text \<open>
  The unstage does not wait for a health check in flight: one that has loaded the volume and
  finishes its probe after the series were dropped creates them again, for a volume that is no
  longer there to be checked or unstaged.
\<close>

theorem late_probe_revives_series:
  assumes "run_state (NodeUnstageVolume L E driver v path) w = (None, w1)"
    and "run_state (probeStaging E v staged) w1 = (ok, w2)" and "v \<noteq> ''''" and "path \<noteq> ''''"
  shows "no_series v (metrics_of (hist w1)) \<and> \<not> no_series v (metrics_of (hist w2))"
proof -
  obtain h t w3 where c: "run_state (checkHealthDetailed E staged) w1 = ((h, t), w3)" by (metis surj_pair)
  show ?thesis
    using unstage_metrics [OF assms(1,3,4)] probe_metrics [OF assms(2) c refl] by simp
qed

end
