(* ===== verification/VolumeStats.thy ===== *)
theory VolumeStats
  imports NodeInvariants
begin

text \<open>
  Volume statistics (pkg/driver/volume_stats.go, volume_stats_linux.go and \<open>NodeGetVolumeStats\<close>):
  which paths may be measured, and the numbers computed from \<open>statfs(2)\<close> in 64-bit integers. Here a
  request reads on its own, and one whose context ends first gets the context's error; \<open>SharedCalls\<close>
  has the requests that join a read in flight.
\<close>

section \<open>Paths that may be measured\<close>

text \<open>The elements after the first match of the pattern, if there is one.\<close>

fun after_publish_pattern :: "string list \<Rightarrow> string list option" where
  "after_publish_pattern (a # b # c # d # e # f # ps) =
     (if a = ''pods'' \<and> b \<noteq> '''' \<and> c = ''volumes'' \<and> d = ''kubernetes.io~csi'' \<and> e \<noteq> '''' \<and> f = ''mount''
      then Some ps else after_publish_pattern (b # c # d # e # f # ps))"
| "after_publish_pattern _ = None"

definition isKubeletCSIPublishPath :: "string \<Rightarrow> bool" where
  "isKubeletCSIPublishPath path =
     (case after_publish_pattern (split_on CHR ''/'' (path_clean path)) of
        None \<Rightarrow> False
      | Some ps \<Rightarrow> ps = [])"

definition uses_path :: "string \<Rightarrow> Volume \<Rightarrow> bool" where
  "uses_path path vol \<longleftrightarrow> vol_StagedPath vol = path \<or> HasPublishPath path vol"

text \<open>The order in which the map is ranged is that of the list.\<close>

definition volumeStatsPathOwner :: "(string \<times> Volume) list \<Rightarrow> string \<Rightarrow> string option" where
  "volumeStatsPathOwner vols volumePath =
     (case find (\<lambda>(v, vol). uses_path volumePath vol) vols of
        None \<Rightarrow> None
      | Some (v, vol) \<Rightarrow> if v = '''' then None else Some v)"

definition validateVolumeStatsPath :: "(string \<times> Volume) list \<Rightarrow> string \<Rightarrow> string \<Rightarrow> err option" where
  "validateVolumeStatsPath vols volumeID volumePath =
     (if \<not> path_is_abs volumePath then
        Some (status_error InvalidArgument (''volume path '' @ volumePath @ '' is not absolute''))
      else if (case volumeStatsPathOwner vols volumePath of None \<Rightarrow> False | Some owner \<Rightarrow> owner \<noteq> volumeID) then
        Some (status_error NotFound (''volume path '' @ volumePath @ '' is not published for volume '' @ volumeID))
      else if (case map_of vols volumeID of None \<Rightarrow> False | Some vol \<Rightarrow> uses_path volumePath vol) then None
      else if isKubeletCSIPublishPath volumePath then None
      else Some (status_error NotFound (''volume '' @ volumeID @ '' is not staged or published'')))"

section \<open>Usage\<close>

record volumeUsage =
  capacityBytes :: int
  usedBytes :: int
  availableBytes :: int
  inodes :: int
  inodesUsed :: int
  inodesFree :: int

text \<open>The conversions to \<open>int64\<close> and the products wrap at 64 bits.\<close>

definition usage_of :: "statfs_t \<Rightarrow> volumeUsage" where
  "usage_of sfs =
     (let used = sint (Files sfs - Ffree sfs)
      in \<lparr>capacityBytes = sint (Blocks sfs * Bsize sfs),
          usedBytes = sint ((Blocks sfs - Bfree sfs) * Bsize sfs),
          availableBytes = sint (Bavail sfs * Bsize sfs),
          inodes = sint (Files sfs),
          inodesUsed = (if used < 0 then 0 else used),
          inodesFree = sint (Ffree sfs)\<rparr>)"

definition readVolumeUsage :: "env \<Rightarrow> string \<Rightarrow> ('w, err + volumeUsage) io" where
  "readVolumeUsage E path = do {
     s \<leftarrow> ext (\<lambda>h. sys_Usage E h path) (EUsage path);
     ret (case s of
        Inl err \<Rightarrow>
          if is_not_exist err then Inl (status_error NotFound (''volume path '' @ path @ '' does not exist''))
          else Inl (status_error Internal (''statfs '' @ path @ '' failed: '' @ err_text err))
      | Inr sfs \<Rightarrow> Inr (usage_of sfs))
   }"

definition readVolumeUsageForStats :: "env \<Rightarrow> string \<Rightarrow> ('w, err + volumeUsage) io" where
  "readVolumeUsageForStats E path = do {
     healthy \<leftarrow> isStagingPathHealthy E path;
     (if \<not> healthy then
        ret (Inl (status_error NotFound (''volume path '' @ path @ '' is not a live mount'')))
      else readVolumeUsage E path)
   }"

definition volumeStatsContextError :: "code \<Rightarrow> string \<Rightarrow> err" where
  "volumeStatsContextError c volumeID =
     (if c = Canceled then status_error Canceled ''volume stats request canceled''
      else status_error DeadlineExceeded (''volume stats collection timed out for volume '' @ volumeID))"

text \<open>
  The goroutine of the call runs to its end also when the context ends first; the caller then does
  not get its result.
\<close>

definition waitVolumeStatsCall :: "env \<Rightarrow> string \<Rightarrow> ('w, err + 'a) io \<Rightarrow> ('w, err + 'a) io" where
  "waitVolumeStatsCall E volumeID call = do {
     c \<leftarrow> ext (ctx_Err E) ECtx;
     v \<leftarrow> call;
     ret (case c of Some code \<Rightarrow> Inl (volumeStatsContextError code volumeID) | None \<Rightarrow> v)
   }"

section \<open>NodeGetVolumeStats\<close>

datatype UsageUnit = BYTES | INODES

record VolumeUsage =
  vu_Unit :: UsageUnit
  vu_Total :: int
  vu_Used :: int
  vu_Available :: int

definition usage_response :: "volumeUsage \<Rightarrow> VolumeUsage list" where
  "usage_response usage =
     \<lparr>vu_Unit = BYTES, vu_Total = capacityBytes usage, vu_Used = usedBytes usage,
      vu_Available = availableBytes usage\<rparr>
     # (if inodes usage > 0 then
          [\<lparr>vu_Unit = INODES, vu_Total = inodes usage, vu_Used = inodesUsed usage,
            vu_Available = inodesFree usage\<rparr>]
        else [])"

text \<open>\<open>lockVolumeStats\<close> tries the volume's mutex until it has it or the context ends.\<close>

definition lockVolumeStats :: "env \<Rightarrow> string \<Rightarrow> ('n, err + unit) nio" where
  "lockVolumeStats E volumeID = do {
     getVolumeMutex volumeID;
     waitVolumeStatsCall E volumeID (ret (Inr ()))
   }"

definition NodeGetVolumeStats :: "env \<Rightarrow> string \<Rightarrow> string \<Rightarrow> ('n, err + VolumeUsage list) nio" where
  "NodeGetVolumeStats E volumeID volumePath =
     (if volumeID = '''' then
        ret (Inl (status_error InvalidArgument ''Volume ID missing in request''))
      else if volumePath = '''' then
        ret (Inl (status_error InvalidArgument ''Volume path missing in request''))
      else do {
        l \<leftarrow> lockVolumeStats E volumeID;
        (case l of
           Inl err \<Rightarrow> ret (Inl err)
         | Inr _ \<Rightarrow> do {
             vols \<leftarrow> gets volumes;
             (case validateVolumeStatsPath vols volumeID volumePath of
                Some err \<Rightarrow> ret (Inl err)
              | None \<Rightarrow> do {
                  u \<leftarrow> waitVolumeStatsCall E volumeID (readVolumeUsageForStats E volumePath);
                  ret (case u of Inl err \<Rightarrow> Inl err | Inr usage \<Rightarrow> Inr (usage_response usage))
                })
           })
      })"

section \<open>The numbers\<close>

lemma sint_small: "uint (x :: 64 word) < 2 ^ 63 \<Longrightarrow> sint x = uint x"
  unfolding sint_uint
  by (rule signed_take_bit_int_eq_self) (use order_trans [OF _ uint_ge_0 [of x], of "- (2 ^ 63)"] in simp_all)

lemma uint_sub_le: "(b :: 'a::len word) \<le> a \<Longrightarrow> uint (a - b) = uint a - uint b"
  by (simp add: uint_sub_if' word_le_def)

lemma uint_mult_exact: "uint (a :: 64 word) * uint b < 2 ^ 63 \<Longrightarrow> uint (a * b) = uint a * uint b"
  by (simp add: uint_word_ariths)

lemma product_below: "0 \<le> (a::int) \<Longrightarrow> a \<le> b \<Longrightarrow> 0 \<le> c \<Longrightarrow> b * c < n \<Longrightarrow> a * c < n"
  by (meson mult_right_mono order_le_less_trans)

text \<open>
  C30: The reported sizes are exact: for a file system of less than \<open>2^63\<close> bytes whose counters are
  consistent, no conversion or product wraps; capacity, used and available bytes are the block
  counts times the block size, and used and available never exceed the capacity. The inode count
  in use is never negative, whatever the kernel reports.
\<close>

theorem usage_of_exact:
  assumes "Bfree s \<le> Blocks s" and "Bavail s \<le> Bfree s" and "uint (Blocks s) * uint (Bsize s) < 2 ^ 63"
  shows "capacityBytes (usage_of s) = uint (Blocks s) * uint (Bsize s)
    \<and> usedBytes (usage_of s) = (uint (Blocks s) - uint (Bfree s)) * uint (Bsize s)
    \<and> availableBytes (usage_of s) = uint (Bavail s) * uint (Bsize s)
    \<and> usedBytes (usage_of s) + availableBytes (usage_of s) \<le> capacityBytes (usage_of s)
    \<and> 0 \<le> usedBytes (usage_of s) \<and> 0 \<le> inodesUsed (usage_of s)"
proof -
  have free: "uint (Bfree s) \<le> uint (Blocks s)" "uint (Bavail s) \<le> uint (Bfree s)"
    using assms(1,2) by (simp_all add: word_le_def)
  have used: "uint (Blocks s - Bfree s) = uint (Blocks s) - uint (Bfree s)"
    using assms(1) by (rule uint_sub_le)
  have b1: "uint (Blocks s - Bfree s) * uint (Bsize s) < 2 ^ 63"
    unfolding used by (rule product_below [OF _ _ _ assms(3)]) (use free in simp_all)
  have b2: "uint (Bavail s) * uint (Bsize s) < 2 ^ 63"
    by (rule product_below [OF _ _ _ assms(3)]) (use free in simp_all)
  have eqs: "sint (Blocks s * Bsize s) = uint (Blocks s) * uint (Bsize s)"
    "sint ((Blocks s - Bfree s) * Bsize s) = (uint (Blocks s) - uint (Bfree s)) * uint (Bsize s)"
    "sint (Bavail s * Bsize s) = uint (Bavail s) * uint (Bsize s)"
    using uint_mult_exact [OF assms(3)] uint_mult_exact [OF b1] uint_mult_exact [OF b2] assms(3) b1 b2
    by (simp_all add: sint_small used)
  have "(uint (Blocks s) - uint (Bfree s)) * uint (Bsize s) + uint (Bavail s) * uint (Bsize s)
      \<le> uint (Blocks s) * uint (Bsize s)"
    unfolding distrib_right [symmetric] by (rule mult_right_mono) (use free in simp_all)
  then show ?thesis using free by (simp add: usage_of_def Let_def eqs)
qed

theorem usage_of_exact_witness:
  "usedBytes (usage_of \<lparr>Bsize = 4096, Blocks = 100, Bfree = 50, Bavail = 40, Files = 10, Ffree = 5\<rparr>)
   = 204800"
  using usage_of_exact [of "\<lparr>Bsize = 4096, Blocks = 100, Bfree = 50, Bavail = 40, Files = 10, Ffree = 5\<rparr>"]
  by simp

section \<open>Whose path, and only live mounts\<close>

lemma usage_read:
  assumes "run_state (readVolumeUsageForStats E path) (w :: 'w world_scheme) = (Inr u, w')"
  shows "\<exists>sfs w2. u = usage_of sfs \<and> hist w' = EUsage path (Inr sfs) # hist w2
    \<and> run_state (isStagingPathHealthy E path) w = (True, w2)"
  using assms
  by (auto simp: readVolumeUsageForStats_def readVolumeUsage_def split: sum.splits if_splits prod.splits)

lemma usage_call:
  assumes "run_state (waitVolumeStatsCall E v (readVolumeUsageForStats E path)) (w :: 'w world_scheme) = (Inr u, w')"
  shows "\<exists>sfs (w1 :: 'w world_scheme) w2. u = usage_of sfs \<and> hist w' = EUsage path (Inr sfs) # hist w2
    \<and> run_state (isStagingPathHealthy E path) w1 = (True, w2)"
  using assms by (auto simp: waitVolumeStatsCall_def split: option.splits prod.splits dest!: usage_read)

text \<open>
  C40: Statistics are only given for a live mount of the right volume: when \<open>NodeGetVolumeStats\<close>
  succeeds, the path is absolute, is the staging path or a publish path of the volume or a kubelet
  publish path, and is not first owned by another volume; its last two system calls found the path
  a mount whose daemon answers and measured it.
\<close>

theorem NodeGetVolumeStats_right_live_mount:
  assumes "run_state (NodeGetVolumeStats E v path) (w :: 'n node_scheme) = (Inr usage, w')"
  shows "path_is_abs path
    \<and> ((\<exists>vol. map_of (volumes w) v = Some vol \<and> uses_path path vol) \<or> isKubeletCSIPublishPath path)
    \<and> (\<forall>owner. volumeStatsPathOwner (volumes w) path = Some owner \<longrightarrow> owner = v)
    \<and> (\<exists>sfs (w1 :: 'n node_scheme) w2. usage = usage_response (usage_of sfs) \<and> hist w' = EUsage path (Inr sfs) # hist w2
        \<and> run_state (isStagingPathHealthy E path) w1 = (True, w2))"
  using assms
  by (auto simp: NodeGetVolumeStats_def lockVolumeStats_def waitVolumeStatsCall_def [of _ _ "ret _"]
      getVolumeMutex_def validateVolumeStatsPath_def
      split: if_splits option.splits sum.splits prod.splits dest!: usage_call)

theorem NodeGetVolumeStats_right_live_mount_witness:
  "path_is_abs ''/k/pods/u/volumes/kubernetes.io~csi/pv/mount''"
proof -
  let ?w = "\<lparr>hist = [], probes = [], volumes = [], volumeMutexes = newKeyMutex, recoveryBackoff = [],
     activeRecoveries = []\<rparr>"
  let ?p = "''/k/pods/u/volumes/kubernetes.io~csi/pv/mount''"
  have path: "isKubeletCSIPublishPath ?p" "path_is_abs ?p" by code_simp+
  have "\<exists>u. fst (run_state (NodeGetVolumeStats calm_env ''v'' ?p) ?w) = Inr u"
    by (simp add: NodeGetVolumeStats_def lockVolumeStats_def waitVolumeStatsCall_def getVolumeMutex_def
        validateVolumeStatsPath_def volumeStatsPathOwner_def readVolumeUsageForStats_def
        readVolumeUsage_def isStagingPathHealthy_def probeStatfs_def resetStatfsProbe_def
        is_corrupted_def calm_env_def path)
  then obtain u where "run_state (NodeGetVolumeStats calm_env ''v'' ?p) ?w
      = (Inr u, snd (run_state (NodeGetVolumeStats calm_env ''v'' ?p) ?w))"
    by (metis prod.collapse)
  then show ?thesis by (rule NodeGetVolumeStats_right_live_mount [THEN conjunct1])
qed

end
