(* ===== verification/SharedCalls.thy ===== *)
theory SharedCalls
  imports VolumeStats
begin

text \<open>
  Calls that goroutines share: the statfs probes of pkg/driver/mount_util.go and the usage reads of
  volume_stats.go. A caller stores a new call for its key in a \<open>sync.Map\<close> or joins the one that is
  there; the goroutine of the call sets the result, drops the entry and closes the channel; a
  caller returns when the channel is closed or its time is over. \<open>resetStatfsProbe\<close> forgets a probe
  whose mount was replaced. \<open>call_step\<close> interleaves any number of goroutines; the locale
  \<open>call_table\<close> is what the callers need of the way the entry is dropped, and both users have it.
\<close>

section \<open>Calls and callers\<close>

text \<open>
  A call is named by its address; \<open>next_call\<close> is the next one. Its stages are those of the goroutine: the
  system call runs, it returned, the entry is dropped, the channel is closed.
\<close>

datatype 'r stage = Running | Returned 'r | Dropped 'r | Closed 'r

record ('k, 'r) call =
  call_key :: 'k
  call_stage :: "'r stage"
  call_start :: nat

text \<open>\<open>None\<close> is the answer of a caller whose time is over.\<close>

datatype ('k, 'r) caller = Away | Waiting 'k nat nat | Answered 'k "'r option" nat

text \<open>
  \<open>clock\<close> and \<open>reset_at\<close> are not in the code: they tell when the key was reset last, and a caller
  keeps the time of the last reset before it asked.
\<close>

record ('k, 'r) calls =
  entries :: "'k \<Rightarrow> nat option"
  made :: "nat \<Rightarrow> ('k, 'r) call option"
  next_call :: nat
  callers :: "nat \<Rightarrow> ('k, 'r) caller"
  clock :: nat
  reset_at :: "'k \<Rightarrow> nat"

definition no_calls :: "('k, 'r) calls" where
  "no_calls = \<lparr>entries = \<lambda>_. None, made = \<lambda>_. None, next_call = 0, callers = \<lambda>_. Away, clock = 0, reset_at = \<lambda>_. 0\<rparr>"

text \<open>\<open>LoadOrStore\<close>, and the goroutine that is started for a new call.\<close>

definition load_or_start :: "'k \<Rightarrow> ('k, 'r) calls \<Rightarrow> nat \<times> ('k, 'r) calls" where
  "load_or_start k s =
     (case entries s k of
        Some c \<Rightarrow> (c, s)
      | None \<Rightarrow> (next_call s,
          s\<lparr>entries := (entries s)(k \<mapsto> next_call s), next_call := Suc (next_call s),
            made := (made s)(next_call s \<mapsto> \<lparr>call_key = k, call_stage = Running, call_start = clock s\<rparr>)\<rparr>))"

definition ask :: "nat \<Rightarrow> 'k \<Rightarrow> ('k, 'r) calls \<Rightarrow> ('k, 'r) calls" where
  "ask g k s =
     (case load_or_start k s of (c, s1) \<Rightarrow> s1\<lparr>callers := (callers s1)(g := Waiting k c (reset_at s k))\<rparr>)"

definition to_stage :: "nat \<Rightarrow> ('k, 'r) call \<Rightarrow> 'r stage \<Rightarrow> ('k, 'r) calls \<Rightarrow> ('k, 'r) calls" where
  "to_stage c f st s = s\<lparr>made := (made s)(c \<mapsto> f\<lparr>call_stage := st\<rparr>)\<rparr>"

text \<open>The two ways the goroutine of a call takes the entry out of the map.\<close>

definition CompareAndDelete :: "'k \<Rightarrow> nat \<Rightarrow> ('k \<Rightarrow> nat option) \<Rightarrow> 'k \<Rightarrow> nat option" where
  "CompareAndDelete k c t = (if t k = Some c then t(k := None) else t)"

definition Delete :: "'k \<Rightarrow> nat \<Rightarrow> ('k \<Rightarrow> nat option) \<Rightarrow> 'k \<Rightarrow> nat option" where
  "Delete k c t = t(k := None)"

definition drop_entry :: "('k \<Rightarrow> nat \<Rightarrow> ('k \<Rightarrow> nat option) \<Rightarrow> 'k \<Rightarrow> nat option) \<Rightarrow> nat \<Rightarrow> ('k, 'r) call \<Rightarrow> 'r
    \<Rightarrow> ('k, 'r) calls \<Rightarrow> ('k, 'r) calls" where
  "drop_entry dr c f r s = to_stage c f (Dropped r) (s\<lparr>entries := dr (call_key f) c (entries s)\<rparr>)"

definition reset_key :: "'k \<Rightarrow> ('k, 'r) calls \<Rightarrow> ('k, 'r) calls" where
  "reset_key k s = s\<lparr>entries := (entries s)(k := None), clock := Suc (clock s),
     reset_at := (reset_at s)(k := Suc (clock s))\<rparr>"

text \<open>\<open>dr\<close> drops an entry, \<open>resets\<close> tells whether a key may be reset, \<open>out\<close> what a call may return.\<close>

inductive call_step ::
    "('k \<Rightarrow> nat \<Rightarrow> ('k \<Rightarrow> nat option) \<Rightarrow> 'k \<Rightarrow> nat option) \<Rightarrow> bool \<Rightarrow> ('k \<Rightarrow> 'r \<Rightarrow> bool) \<Rightarrow>
     ('k, 'r) calls \<Rightarrow> ('k, 'r) calls \<Rightarrow> bool"
  for dr resets out where
  ask: "callers s g = Away \<Longrightarrow> call_step dr resets out s (ask g k s)"
| syscall: "made s c = Some f \<Longrightarrow> call_stage f = Running \<Longrightarrow> out (call_key f) r \<Longrightarrow>
    call_step dr resets out s (to_stage c f (Returned r) s)"
| drop_own: "made s c = Some f \<Longrightarrow> call_stage f = Returned r \<Longrightarrow>
    call_step dr resets out s (drop_entry dr c f r s)"
| close_done: "made s c = Some f \<Longrightarrow> call_stage f = Dropped r \<Longrightarrow>
    call_step dr resets out s (to_stage c f (Closed r) s)"
| answer: "callers s g = Waiting k c since \<Longrightarrow> made s c = Some f \<Longrightarrow> call_stage f = Closed r \<Longrightarrow>
    call_step dr resets out s (s\<lparr>callers := (callers s)(g := Answered k (Some r) since)\<rparr>)"
| give_up: "callers s g = Waiting k c since \<Longrightarrow>
    call_step dr resets out s (s\<lparr>callers := (callers s)(g := Answered k None since)\<rparr>)"
| leave: "callers s g = Answered k a since \<Longrightarrow>
    call_step dr resets out s (s\<lparr>callers := (callers s)(g := Away)\<rparr>)"
| reset: "resets \<Longrightarrow> call_step dr resets out s (reset_key k s)"

inductive calls_reachable ::
    "('k \<Rightarrow> nat \<Rightarrow> ('k \<Rightarrow> nat option) \<Rightarrow> 'k \<Rightarrow> nat option) \<Rightarrow> bool \<Rightarrow> ('k \<Rightarrow> 'r \<Rightarrow> bool) \<Rightarrow> ('k, 'r) calls \<Rightarrow> bool"
  for dr resets out where
  start: "calls_reachable dr resets out no_calls"
| step: "calls_reachable dr resets out s \<Longrightarrow> call_step dr resets out s s' \<Longrightarrow> calls_reachable dr resets out s'"

section \<open>The contract of the table\<close>

definition in_flight :: "('k, 'r) call \<Rightarrow> bool" where
  "in_flight f \<longleftrightarrow> (case call_stage f of Running \<Rightarrow> True | Returned _ \<Rightarrow> True | _ \<Rightarrow> False)"

lemma in_flight_stages [simp]:
  "in_flight (f\<lparr>call_stage := Running\<rparr>)" "in_flight (f\<lparr>call_stage := Returned r\<rparr>)"
  "\<not> in_flight (f\<lparr>call_stage := Dropped r\<rparr>)" "\<not> in_flight (f\<lparr>call_stage := Closed r\<rparr>)"
  "in_flight \<lparr>call_key = k, call_stage = Running, call_start = n\<rparr>"
  by (simp_all add: in_flight_def)

lemma in_flight_iff: "in_flight f \<longleftrightarrow> call_stage f = Running \<or> (\<exists>r. call_stage f = Returned r)"
  by (cases "call_stage f") (simp_all add: in_flight_def)

definition call_result :: "('k, 'r) call \<Rightarrow> 'r option" where
  "call_result f = (case call_stage f of Running \<Rightarrow> None | Returned r \<Rightarrow> Some r | Dropped r \<Rightarrow> Some r | Closed r \<Rightarrow> Some r)"

text \<open>
  A caller may only meet calls that started after the last reset of their key; a call started since
  then that still runs is the one in the table.
\<close>

definition table_inv :: "('k, 'r) calls \<Rightarrow> bool" where
  "table_inv s \<longleftrightarrow>
     (\<forall>k c. entries s k = Some c \<longrightarrow> (\<exists>f. made s c = Some f \<and> call_key f = k \<and> in_flight f
        \<and> reset_at s k \<le> call_start f))
   \<and> (\<forall>c f. made s c = Some f \<longrightarrow> in_flight f \<longrightarrow> reset_at s (call_key f) \<le> call_start f \<longrightarrow>
        entries s (call_key f) = Some c)"

definition time_inv :: "('k, 'r) calls \<Rightarrow> bool" where
  "time_inv s \<longleftrightarrow> (\<forall>c f. made s c = Some f \<longrightarrow> c < next_call s \<and> call_start f \<le> clock s)
     \<and> (\<forall>k. reset_at s k \<le> clock s)"

definition caller_ok :: "('k, 'r) calls \<Rightarrow> ('k, 'r) caller \<Rightarrow> bool" where
  "caller_ok s a \<longleftrightarrow> (case a of
     Waiting k c since \<Rightarrow> \<exists>f. made s c = Some f \<and> call_key f = k \<and> since \<le> call_start f
   | Answered k (Some r) since \<Rightarrow>
       \<exists>c f. made s c = Some f \<and> call_key f = k \<and> call_stage f = Closed r \<and> since \<le> call_start f
   | _ \<Rightarrow> True)"

definition results_inv :: "('k \<Rightarrow> 'r \<Rightarrow> bool) \<Rightarrow> ('k, 'r) calls \<Rightarrow> bool" where
  "results_inv out s \<longleftrightarrow> (\<forall>c f r. made s c = Some f \<longrightarrow> call_result f = Some r \<longrightarrow> out (call_key f) r)"

lemma time_inv_step: "call_step dr resets out s s' \<Longrightarrow> time_inv s \<Longrightarrow> time_inv s'"
  by (erule call_step.cases)
    (auto simp: time_inv_def ask_def load_or_start_def to_stage_def drop_entry_def reset_key_def
      split: option.splits if_splits intro: le_SucI less_SucI)

text \<open>A stage that leaves a call in flight, or not in flight, does not touch the table.\<close>

lemma table_inv_stage:
  assumes "table_inv s" and "made s c = Some f" and "in_flight (f\<lparr>call_stage := st\<rparr>) \<longleftrightarrow> in_flight f"
  shows "table_inv (to_stage c f st s)"
  unfolding table_inv_def
proof (intro conjI allI impI)
  let ?s = "to_stage c f st s"
  have same: "entries ?s = entries s" "reset_at ?s = reset_at s" by (simp_all add: to_stage_def)
  show "\<exists>fa. made ?s ca = Some fa \<and> call_key fa = k \<and> in_flight fa \<and> reset_at ?s k \<le> call_start fa"
    if e: "entries ?s k = Some ca" for k ca
  proof -
    obtain fa where "made s ca = Some fa" "call_key fa = k" "in_flight fa" "reset_at s k \<le> call_start fa"
      using assms(1) e unfolding table_inv_def same by blast
    with assms(2,3) show ?thesis by (cases "ca = c") (simp_all add: to_stage_def)
  qed
  show "entries ?s (call_key fa) = Some ca"
    if m: "made ?s ca = Some fa" "in_flight fa" "reset_at ?s (call_key fa) \<le> call_start fa" for ca fa
  proof -
    obtain fb where "made s ca = Some fb" "in_flight fb" "call_key fb = call_key fa" "call_start fb = call_start fa"
      using m(1,2) assms(2,3) by (cases "ca = c") (auto simp: to_stage_def)
    with m(3) assms(1) show ?thesis unfolding table_inv_def same by metis
  qed
qed

lemma results_inv_step:
  assumes "call_step dr resets out s s'" and "results_inv out s"
  shows "results_inv out s'"
proof -
  have stage: "results_inv out (to_stage c f st s)"
    if "\<And>r. call_result (f\<lparr>call_stage := st\<rparr>) = Some r \<Longrightarrow> out (call_key f) r" for c f st
    using that assms(2) by (auto simp: results_inv_def to_stage_def)
  have known: "out (call_key f) r" if "made s c = Some f" "call_result f = Some r" for c f r
    using that assms(2) by (simp add: results_inv_def)
  show ?thesis
    using assms(1)
  proof (cases rule: call_step.cases)
    case (ask g k)
    then show ?thesis using assms(2)
      by (auto simp: results_inv_def ask_def load_or_start_def call_result_def split: option.splits)
  next
    case (syscall c f r)
    then show ?thesis by (auto simp: call_result_def intro: stage)
  next
    case (drop_own c f r)
    have "results_inv out (to_stage c f (Dropped r) s)"
      using known [OF drop_own(2)] drop_own(3) by (intro stage) (simp add: call_result_def)
    then show ?thesis using drop_own(1) by (simp add: results_inv_def drop_entry_def to_stage_def)
  next
    case (close_done c f r)
    show ?thesis unfolding close_done(1)
      using known [OF close_done(2)] close_done(3) by (intro stage) (simp add: call_result_def)
  qed (use assms(2) in \<open>simp_all add: results_inv_def reset_key_def\<close>)
qed

text \<open>A step never loses a call, its key or its start, nor the result of a closed one.\<close>

definition carries :: "('k, 'r) calls \<Rightarrow> ('k, 'r) calls \<Rightarrow> bool" where
  "carries s s' \<longleftrightarrow> (\<forall>c f. made s c = Some f \<longrightarrow> (\<exists>f'. made s' c = Some f' \<and> call_key f' = call_key f
     \<and> call_start f' = call_start f \<and> (\<forall>r. call_stage f = Closed r \<longrightarrow> call_stage f' = Closed r)))"

lemma carries_step:
  assumes "call_step dr resets out s s'" and "time_inv s"
  shows "carries s s'"
  using assms(1)
proof (cases rule: call_step.cases)
  case (ask g k)
  then show ?thesis using assms(2)
    by (force simp: carries_def time_inv_def ask_def load_or_start_def split: option.splits)
qed (auto simp: carries_def to_stage_def drop_entry_def reset_key_def)

lemma caller_ok_carries:
  assumes "carries s s'" and "caller_ok s a"
  shows "caller_ok s' a"
proof (cases a)
  case (Waiting k c since)
  with assms show ?thesis by (fastforce simp: caller_ok_def carries_def)
next
  case (Answered k r since)
  with assms show ?thesis
    by (cases r) (auto simp: caller_ok_def carries_def, metis)
qed (simp add: caller_ok_def)

lemma caller_ok_step:
  assumes "call_step dr resets out s s'" and "table_inv s" and "time_inv s" and "\<forall>g. caller_ok s (callers s g)"
  shows "caller_ok s' (callers s' g)"
proof (cases "callers s' g = callers s g")
  case True
  with assms(4) show ?thesis by (metis caller_ok_carries [OF carries_step [OF assms(1,3)]])
next
  case False
  show ?thesis
    using assms(1)
  proof (cases rule: call_step.cases)
    case (ask g' k)
    then show ?thesis using False assms(2,3)
      by (auto simp: caller_ok_def table_inv_def time_inv_def ask_def load_or_start_def split: option.splits if_splits)
  next
    case (answer g' k c since f r)
    have "caller_ok s (callers s g')" using assms(4) by blast
    then have "caller_ok s' (Answered k (Some r) since)"
      using answer by (auto simp: caller_ok_def)
    then show ?thesis using False answer(1) by (simp split: if_splits)
  qed (use False in \<open>auto simp: caller_ok_def to_stage_def drop_entry_def reset_key_def split: if_splits\<close>)
qed

lemma no_reset_step: "call_step dr False out s s' \<Longrightarrow> \<forall>k. reset_at s k = 0 \<Longrightarrow> \<forall>k. reset_at s' k = 0"
  by (erule call_step.cases)
    (auto simp: ask_def load_or_start_def to_stage_def drop_entry_def split: option.splits)

locale call_table =
  fixes dr :: "'k \<Rightarrow> nat \<Rightarrow> ('k \<Rightarrow> nat option) \<Rightarrow> 'k \<Rightarrow> nat option"
    and resets :: bool
  assumes drops_own: "t k = Some c \<Longrightarrow> dr k c t = t(k := None)"
    and keeps_other: "resets \<Longrightarrow> t k \<noteq> Some c \<Longrightarrow> dr k c t = t"
begin

lemma table_inv_step:
  assumes "call_step dr resets out s s'" and "table_inv s" and "time_inv s"
    and "\<not> resets \<Longrightarrow> \<forall>k. reset_at s k = 0"
  shows "table_inv s'"
  using assms(1)
proof (cases rule: call_step.cases)
  case (drop_own c f r)
  have fl: "in_flight f" using drop_own by (simp add: in_flight_def)
  have dr: "dr (call_key f) c (entries s)
      = (if entries s (call_key f) = Some c then (entries s)(call_key f := None) else entries s)"
  proof (cases resets)
    case True
    then show ?thesis using drops_own keeps_other by simp
  next
    case False
    then have "entries s (call_key f) = Some c"
      using assms(2,4) drop_own(2) fl unfolding table_inv_def by fastforce
    then show ?thesis by (simp add: drops_own)
  qed
  have "table_inv (s\<lparr>
      entries := if entries s (call_key f) = Some c then (entries s)(call_key f := None) else entries s,
      made := (made s)(c \<mapsto> f\<lparr>call_stage := Dropped r\<rparr>)\<rparr>)"
    using drop_own(2) fl assms(2) unfolding table_inv_def
    by (auto split: if_splits) (metis option.inject)+
  then show ?thesis unfolding drop_own(1) drop_entry_def to_stage_def dr by simp
next
  case (ask g k)
  then show ?thesis using assms(2,3)
    by (auto simp: table_inv_def time_inv_def ask_def load_or_start_def split: option.splits if_splits)
       (metis less_irrefl option.inject)+
next
  case (syscall c f r)
  then show ?thesis using assms(2) by (auto simp: in_flight_iff intro: table_inv_stage)
next
  case (close_done c f r)
  then show ?thesis using assms(2) by (auto simp: in_flight_iff intro: table_inv_stage)
next
  case (reset k)
  show ?thesis
    unfolding table_inv_def
  proof (intro conjI allI impI)
    show "\<exists>f. made s' c = Some f \<and> call_key f = j \<and> in_flight f \<and> reset_at s' j \<le> call_start f"
      if "entries s' j = Some c" for j c
      using that assms(2) reset by (auto simp: table_inv_def reset_key_def split: if_splits)
    show "entries s' (call_key f) = Some c"
      if m: "made s' c = Some f" "in_flight f" "reset_at s' (call_key f) \<le> call_start f" for c f
    proof -
      have "call_key f \<noteq> k"
        using m(1,3) assms(3) reset(1) by (force simp: time_inv_def reset_key_def)
      then show ?thesis using m assms(2) reset(1) by (simp add: table_inv_def reset_key_def)
    qed
  qed
qed (use assms(2) in \<open>simp_all add: table_inv_def\<close>)

lemma reachable_inv:
  "calls_reachable dr resets out s \<Longrightarrow>
    table_inv s \<and> time_inv s \<and> (\<forall>g. caller_ok s (callers s g)) \<and> results_inv out s \<and> (\<not> resets \<longrightarrow> (\<forall>k. reset_at s k = 0))"
proof (induction rule: calls_reachable.induct)
  case start
  show ?case by (simp add: no_calls_def table_inv_def time_inv_def caller_ok_def results_inv_def)
next
  case (step s s')
  then show ?case
    using table_inv_step [OF step(2)] time_inv_step [OF step(2)] caller_ok_step [OF step(2)] results_inv_step [OF step(2)]
      no_reset_step [of dr out s s'] by (cases resets) simp_all
qed

text \<open>Of the calls of a key that started since its last reset, at most one is in flight.\<close>

lemma one_in_flight:
  assumes "calls_reachable dr resets out s" and "made s c = Some f" "made s d = Some h"
    and "in_flight f" "in_flight h" "call_key f = call_key h"
    and "reset_at s (call_key f) \<le> call_start f" "reset_at s (call_key h) \<le> call_start h"
  shows "c = d"
proof -
  have "table_inv s" using reachable_inv [OF assms(1)] by simp
  with assms(2-) have "entries s (call_key h) = Some c" "entries s (call_key h) = Some d"
    unfolding table_inv_def by metis+
  then show ?thesis by simp
qed

lemma answers_fresh:
  assumes "calls_reachable dr resets out s" and "callers s g = Answered k (Some r) since"
  shows "\<exists>c f. made s c = Some f \<and> call_key f = k \<and> call_stage f = Closed r \<and> since \<le> call_start f \<and> out k r"
proof -
  have inv: "caller_ok s (callers s g)" "results_inv out s" using reachable_inv [OF assms(1)] by simp_all
  obtain c f where f: "made s c = Some f" "call_key f = k" "call_stage f = Closed r" "since \<le> call_start f"
    using inv(1) assms(2) by (auto simp: caller_ok_def)
  then have "call_result f = Some r" by (simp add: call_result_def)
  with inv(2) f show ?thesis unfolding results_inv_def by metis
qed

end

interpretation probe_table: call_table CompareAndDelete True
  by unfold_locales (auto simp: CompareAndDelete_def)

interpretation stats_table: call_table Delete False
  by unfold_locales (auto simp: Delete_def)

section \<open>Statfs probes\<close>

type_synonym statfs_probes = "(string, err option) calls"

text \<open>
  C22: A statfs probe only answers for the mount that is there: in every interleaving of callers, probe
  goroutines and resets, and for any results of the system call, the answer of \<open>probeStatfs\<close> is that
  of a call of its path, closed and started after the last reset of the path before the caller
  asked; and of the system calls of a path started since its last reset at most one is still in
  flight, so a hung daemon holds one goroutine however often it is probed.
\<close>

theorem probes_answer_for_current_mount:
  assumes "calls_reachable CompareAndDelete True out (s :: statfs_probes)"
  shows "(callers s g = Answered path (Some r) since \<longrightarrow>
      (\<exists>c f. made s c = Some f \<and> call_key f = path \<and> call_stage f = Closed r \<and> since \<le> call_start f \<and> out path r))
    \<and> (made s c = Some f \<and> made s d = Some h \<and> in_flight f \<and> in_flight h \<and> call_key f = path \<and> call_key h = path
        \<and> reset_at s path \<le> call_start f \<and> reset_at s path \<le> call_start h \<longrightarrow> c = d)"
proof (intro conjI impI)
  assume "callers s g = Answered path (Some r) since"
  then show "\<exists>c f. made s c = Some f \<and> call_key f = path \<and> call_stage f = Closed r \<and> since \<le> call_start f \<and> out path r"
    by (rule probe_table.answers_fresh [OF assms])
next
  assume "made s c = Some f \<and> made s d = Some h \<and> in_flight f \<and> in_flight h \<and> call_key f = path \<and> call_key h = path
    \<and> reset_at s path \<le> call_start f \<and> reset_at s path \<le> call_start h"
  then show "c = d" using probe_table.one_in_flight [OF assms, of c f d h] by simp
qed

text \<open>A caller meets a hung probe, the mount is replaced, and the next caller gets a probe of its own.\<close>

definition demo_call :: "nat \<Rightarrow> err option stage \<Rightarrow> (string, err option) call" where
  "demo_call n st = \<lparr>call_key = ''/s'', call_stage = st, call_start = n\<rparr>"

definition demo_reset :: statfs_probes where
  "demo_reset = ask 1 ''/s'' (reset_key ''/s'' (ask 0 ''/s'' no_calls))"

definition demo_answered :: statfs_probes where
  "demo_answered = (let s = to_stage 1 (demo_call 1 (Dropped None)) (Closed None)
       (drop_entry CompareAndDelete 1 (demo_call 1 (Returned None)) None
         (to_stage 1 (demo_call 1 Running) (Returned None) demo_reset))
     in s\<lparr>callers := (callers s)(1 := Answered ''/s'' (Some None) 1)\<rparr>)"

lemmas demo_probe_defs = demo_answered_def demo_reset_def demo_call_def Let_def to_stage_def drop_entry_def
  CompareAndDelete_def ask_def load_or_start_def reset_key_def no_calls_def

lemma demo_reset_reachable: "calls_reachable CompareAndDelete True (\<lambda>_ _. True) demo_reset"
  unfolding demo_reset_def
proof (rule calls_reachable.step [OF calls_reachable.step [OF calls_reachable.step [OF calls_reachable.start]]])
  show "call_step CompareAndDelete True (\<lambda>_ _. True) no_calls (ask 0 ''/s'' no_calls)"
    by (rule call_step.ask) (simp add: no_calls_def)
  show "call_step CompareAndDelete True (\<lambda>_ _. True) (ask 0 ''/s'' no_calls) (reset_key ''/s'' (ask 0 ''/s'' no_calls))"
    by (rule call_step.reset) simp
  show "call_step CompareAndDelete True (\<lambda>_ _. True) (reset_key ''/s'' (ask 0 ''/s'' no_calls))
      (ask 1 ''/s'' (reset_key ''/s'' (ask 0 ''/s'' no_calls)))"
    by (rule call_step.ask) (simp add: demo_probe_defs)
qed

lemma demo_answered_reachable: "calls_reachable CompareAndDelete True (\<lambda>_ _. True) demo_answered"
proof -
  let ?step = "call_step CompareAndDelete True (\<lambda>_ _. True)"
  let ?s1 = "to_stage 1 (demo_call 1 Running) (Returned None) demo_reset"
  let ?s2 = "drop_entry CompareAndDelete 1 (demo_call 1 (Returned None)) None ?s1"
  let ?s3 = "to_stage 1 (demo_call 1 (Dropped None)) (Closed None) ?s2"
  have "?step demo_reset ?s1" by (rule call_step.syscall) (simp_all add: demo_probe_defs)
  moreover have "?step ?s1 ?s2" by (rule call_step.drop_own) (simp_all add: demo_probe_defs)
  moreover have "?step ?s2 ?s3" by (rule call_step.close_done) (simp_all add: demo_probe_defs)
  moreover have "?step ?s3 demo_answered"
    unfolding demo_answered_def Let_def
    by (rule call_step.answer [where c = 1 and f = "demo_call 1 (Closed None)"]) (simp_all add: demo_probe_defs)
  ultimately show ?thesis using demo_reset_reachable by (blast intro: calls_reachable.step)
qed

theorem probes_answer_for_current_mount_witness:
  "\<exists>c f. made demo_answered c = Some f \<and> call_key f = ''/s'' \<and> call_stage f = Closed None \<and> 1 \<le> call_start f"
proof -
  have "callers demo_answered 1 = Answered ''/s'' (Some None) 1" by (simp add: demo_answered_def Let_def)
  then show ?thesis
    using probes_answer_for_current_mount [OF demo_answered_reachable, of 1 "''/s''" None 1] by blast
qed

section \<open>Statistics\<close>

record volumeStatsRequest =
  sr_volumeID :: string
  sr_volumePath :: string

type_synonym stats_calls = "(volumeStatsRequest, err + volumeUsage) calls"

text \<open>
  The requests in the system: the shared calls, what the goroutine of each call was started for (the
  volume and path its closure captured; it reads that path), and what each caller asked for.
\<close>

record stats_run =
  sr_calls :: stats_calls
  sr_started :: "nat \<Rightarrow> string \<times> string"
  sr_asked :: "nat \<Rightarrow> string \<times> string"

definition no_stats :: stats_run where
  "no_stats = \<lparr>sr_calls = no_calls, sr_started = \<lambda>_. ('''', ''''), sr_asked = \<lambda>_. ('''', '''')\<rparr>"

text \<open>The request: join the call in flight for its key, or store a new one and start its goroutine.\<close>

definition readVolumeUsageWithTimeout :: "nat \<Rightarrow> string \<Rightarrow> string \<Rightarrow> stats_run \<Rightarrow> stats_run" where
  "readVolumeUsageWithTimeout g volumeID volumePath s =
     (let request = \<lparr>sr_volumeID = volumeID, sr_volumePath = volumePath\<rparr>;
          started = (case entries (sr_calls s) request of
            Some call \<Rightarrow> sr_started s
          | None \<Rightarrow> (sr_started s)(next_call (sr_calls s) := (volumeID, volumePath)))
      in s\<lparr>sr_calls := ask g request (sr_calls s), sr_started := started,
           sr_asked := (sr_asked s)(g := (volumeID, volumePath))\<rparr>)"

text \<open>What the read of a path may find: a run of it in some state of the node.\<close>

definition read_finds :: "env \<Rightarrow> string \<Rightarrow> err + volumeUsage \<Rightarrow> bool" where
  "read_finds E path r \<longleftrightarrow> (\<exists>w w' :: world. run_state (readVolumeUsageForStats E path) w = (r, w'))"

text \<open>
  The goroutines: callers request and wait, as \<open>waitVolumeStatsCall\<close> does, for the call or the end of
  their context; the goroutine of a call reads, drops the entry and closes the channel.
\<close>

inductive stats_step :: "env \<Rightarrow> stats_run \<Rightarrow> stats_run \<Rightarrow> bool" for E :: env where
  request: "callers (sr_calls s) g = Away \<Longrightarrow> stats_step E s (readVolumeUsageWithTimeout g v p s)"
| read: "made (sr_calls s) c = Some f \<Longrightarrow> call_stage f = Running \<Longrightarrow> read_finds E (snd (sr_started s c)) r \<Longrightarrow>
    stats_step E s (s\<lparr>sr_calls := to_stage c f (Returned r) (sr_calls s)\<rparr>)"
| drop_own: "made (sr_calls s) c = Some f \<Longrightarrow> call_stage f = Returned r \<Longrightarrow>
    stats_step E s (s\<lparr>sr_calls := drop_entry Delete c f r (sr_calls s)\<rparr>)"
| close_done: "made (sr_calls s) c = Some f \<Longrightarrow> call_stage f = Dropped r \<Longrightarrow>
    stats_step E s (s\<lparr>sr_calls := to_stage c f (Closed r) (sr_calls s)\<rparr>)"
| answer: "callers (sr_calls s) g = Waiting k c since \<Longrightarrow> made (sr_calls s) c = Some f \<Longrightarrow> call_stage f = Closed r \<Longrightarrow>
    stats_step E s (s\<lparr>sr_calls := (sr_calls s)\<lparr>callers := (callers (sr_calls s))(g := Answered k (Some r) since)\<rparr>\<rparr>)"
| give_up: "callers (sr_calls s) g = Waiting k c since \<Longrightarrow>
    stats_step E s (s\<lparr>sr_calls := (sr_calls s)\<lparr>callers := (callers (sr_calls s))(g := Answered k None since)\<rparr>\<rparr>)"
| leave: "callers (sr_calls s) g = Answered k a since \<Longrightarrow>
    stats_step E s (s\<lparr>sr_calls := (sr_calls s)\<lparr>callers := (callers (sr_calls s))(g := Away)\<rparr>\<rparr>)"

inductive stats_reachable :: "env \<Rightarrow> stats_run \<Rightarrow> bool" for E :: env where
  start: "stats_reachable E no_stats"
| step: "stats_reachable E s \<Longrightarrow> stats_step E s s' \<Longrightarrow> stats_reachable E s'"

text \<open>The answer: the call's, or the context's error.\<close>

definition stats_answer :: "code \<Rightarrow> string \<Rightarrow> (err + volumeUsage) option \<Rightarrow> err + volumeUsage" where
  "stats_answer c volumeID a =
     (case a of Some r \<Rightarrow> r | None \<Rightarrow> Inl (volumeStatsContextError c volumeID))"

text \<open>The key of a call is what it was started for, the key of a caller what it asked for.\<close>

definition keys_ok :: "stats_run \<Rightarrow> bool" where
  "keys_ok s \<longleftrightarrow>
     (\<forall>c f. made (sr_calls s) c = Some f \<longrightarrow>
        sr_started s c = (sr_volumeID (call_key f), sr_volumePath (call_key f)))
   \<and> (\<forall>g k. (\<exists>c since. callers (sr_calls s) g = Waiting k c since) \<or> (\<exists>a since. callers (sr_calls s) g = Answered k a since) \<longrightarrow>
        sr_asked s g = (sr_volumeID k, sr_volumePath k))"

abbreviation "stats_calls_reachable E \<equiv> calls_reachable Delete False (\<lambda>req. read_finds E (sr_volumePath req))"

lemma keys_ok_step:
  assumes "stats_step E s s'" and "keys_ok s" and "time_inv (sr_calls s)"
  shows "keys_ok s' \<and> call_step Delete False (\<lambda>req. read_finds E (sr_volumePath req)) (sr_calls s) (sr_calls s')"
  using assms(1)
proof (cases rule: stats_step.cases)
  case (request g v p)
  have "call_step Delete False (\<lambda>req. read_finds E (sr_volumePath req)) (sr_calls s)
      (ask g \<lparr>sr_volumeID = v, sr_volumePath = p\<rparr> (sr_calls s))"
    using request(2) by (rule call_step.ask)
  then show ?thesis
    using request(1) assms(2,3)
    by (auto simp: readVolumeUsageWithTimeout_def Let_def keys_ok_def time_inv_def ask_def load_or_start_def
        split: option.splits if_splits)
next
  case (read c f r)
  have "sr_started s c = (sr_volumeID (call_key f), sr_volumePath (call_key f))"
    using assms(2) read(2) by (simp add: keys_ok_def)
  then have "call_step Delete False (\<lambda>req. read_finds E (sr_volumePath req)) (sr_calls s) (to_stage c f (Returned r) (sr_calls s))"
    using read(2-4) by (intro call_step.syscall) simp_all
  then show ?thesis using read(1,2) assms(2) by (auto simp: keys_ok_def to_stage_def)
next
  case (drop_own c f r)
  then show ?thesis
    using call_step.drop_own [OF drop_own(2,3)] assms(2) by (auto simp: keys_ok_def to_stage_def drop_entry_def)
next
  case (close_done c f r)
  then show ?thesis
    using call_step.close_done [OF close_done(2,3)] assms(2) by (auto simp: keys_ok_def to_stage_def)
next
  case (answer g k c since f r)
  then show ?thesis
    using call_step.answer [OF answer(2-4)] assms(2) by (auto simp: keys_ok_def)
next
  case (give_up g k c since)
  then show ?thesis using call_step.give_up [OF give_up(2)] assms(2) by (auto simp: keys_ok_def)
next
  case (leave g k a since)
  then show ?thesis using call_step.leave [OF leave(2)] assms(2) by (auto simp: keys_ok_def)
qed

lemma stats_inv: "stats_reachable E s \<Longrightarrow> stats_calls_reachable E (sr_calls s) \<and> keys_ok s"
proof (induction rule: stats_reachable.induct)
  case start
  show ?case by (simp add: no_stats_def keys_ok_def calls_reachable.start) (simp add: no_calls_def)
next
  case (step s s')
  then have "time_inv (sr_calls s)" using stats_table.reachable_inv by blast
  with keys_ok_step [OF step(2)] step show ?case by (blast intro: calls_reachable.step)
qed

lemma one_read_in_flight:
  assumes "stats_reachable E s" and "made (sr_calls s) c = Some f" "made (sr_calls s) d = Some h"
    and "in_flight f" "in_flight h" "sr_started s c = sr_started s d"
  shows "c = d"
proof -
  have r: "stats_calls_reachable E (sr_calls s)" and k: "keys_ok s" using stats_inv [OF assms(1)] by simp_all
  have "call_key f = call_key h"
    using k assms(2,3,6) by (simp add: keys_ok_def)
  moreover have "reset_at (sr_calls s) x = 0" for x using stats_table.reachable_inv [OF r] by simp
  ultimately show ?thesis using stats_table.one_in_flight [OF r assms(2-5)] by simp
qed

lemma figures_of_own_path:
  assumes "stats_reachable E s" and "callers (sr_calls s) g = Answered k (Some r) since" and "sr_asked s g = (v, p)"
  shows "read_finds E p r"
proof -
  have r: "stats_calls_reachable E (sr_calls s)" and k: "keys_ok s" using stats_inv [OF assms(1)] by simp_all
  have "p = sr_volumePath k" using k assms(2,3) unfolding keys_ok_def by fastforce
  then show ?thesis using stats_table.answers_fresh [OF r assms(2)] by blast
qed

text \<open>
  The sequential request of \<open>NodeGetVolumeStats\<close> is a run of the shared calls: whatever
  \<open>waitVolumeStatsCall\<close> around the read returns, a goroutine that asks when no call of its request is
  in flight can be answered with it.
\<close>

lemma sequential_request_is_a_run:
  assumes "stats_reachable E s" and "callers (sr_calls s) g = Away"
    and "entries (sr_calls s) \<lparr>sr_volumeID = v, sr_volumePath = p\<rparr> = None"
    and "run_state (waitVolumeStatsCall E v (readVolumeUsageForStats E p)) (w :: world) = (r, w')"
  shows "\<exists>s' k a since c. stats_reachable E s' \<and> sr_asked s' g = (v, p)
    \<and> callers (sr_calls s') g = Answered k a since \<and> stats_answer c v a = r"
proof -
  let ?k = "\<lparr>sr_volumeID = v, sr_volumePath = p\<rparr>"
  let ?n = "next_call (sr_calls s)" and ?t = "reset_at (sr_calls s) \<lparr>sr_volumeID = v, sr_volumePath = p\<rparr>"
  let ?f = "\<lambda>st. \<lparr>call_key = ?k, call_stage = st, call_start = clock (sr_calls s)\<rparr>"
  let ?s1 = "readVolumeUsageWithTimeout g v p s"
  have r1: "stats_reachable E ?s1"
    using assms(1) stats_step.request [OF assms(2)] by (rule stats_reachable.step)
  have at: "callers (sr_calls ?s1) g = Waiting ?k ?n ?t" "made (sr_calls ?s1) ?n = Some (?f Running)"
    "sr_started ?s1 ?n = (v, p)" "sr_asked ?s1 g = (v, p)"
    using assms(3) by (simp_all add: readVolumeUsageWithTimeout_def Let_def ask_def load_or_start_def)
  obtain rr w2 where read: "run_state (readVolumeUsageForStats E p) (w\<lparr>hist := ECtx (ctx_Err E (hist w)) # hist w\<rparr>) = (rr, w2)"
    by (cases "run_state (readVolumeUsageForStats E p) (w\<lparr>hist := ECtx (ctx_Err E (hist w)) # hist w\<rparr>)")
  show ?thesis
  proof (cases "ctx_Err E (hist w)")
    case (Some c)
    then have "r = Inl (volumeStatsContextError c v)"
      using assms(4) read by (simp add: waitVolumeStatsCall_def)
    moreover have "stats_reachable E (?s1\<lparr>sr_calls := (sr_calls ?s1)\<lparr>callers := (callers (sr_calls ?s1))(g := Answered ?k None ?t)\<rparr>\<rparr>)"
      using r1 stats_step.give_up [OF at(1)] by (rule stats_reachable.step)
    ultimately show ?thesis using at(4) by (fastforce simp: stats_answer_def)
  next
    case None
    then have "rr = r" using assms(4) read by (simp add: waitVolumeStatsCall_def)
    with read have out: "read_finds E p r" unfolding read_finds_def by blast
    let ?s2 = "?s1\<lparr>sr_calls := to_stage ?n (?f Running) (Returned r) (sr_calls ?s1)\<rparr>"
    let ?s3 = "?s2\<lparr>sr_calls := drop_entry Delete ?n (?f (Returned r)) r (sr_calls ?s2)\<rparr>"
    let ?s4 = "?s3\<lparr>sr_calls := to_stage ?n (?f (Dropped r)) (Closed r) (sr_calls ?s3)\<rparr>"
    let ?s5 = "?s4\<lparr>sr_calls := (sr_calls ?s4)\<lparr>callers := (callers (sr_calls ?s4))(g := Answered ?k (Some r) ?t)\<rparr>\<rparr>"
    have "stats_step E ?s1 ?s2" using at(2,3) out by (intro stats_step.read) simp_all
    moreover have "stats_step E ?s2 ?s3" by (intro stats_step.drop_own) (simp_all add: to_stage_def)
    moreover have "stats_step E ?s3 ?s4" by (intro stats_step.close_done) (simp_all add: to_stage_def drop_entry_def)
    moreover have "stats_step E ?s4 ?s5"
      by (rule stats_step.answer [where c = ?n and f = "?f (Closed r)"])
        (use at(1) in \<open>simp_all add: to_stage_def drop_entry_def\<close>)
    ultimately have "stats_reachable E ?s5" using r1 by (blast intro: stats_reachable.step)
    moreover have "callers (sr_calls ?s5) g = Answered ?k (Some r) ?t" by simp
    ultimately show ?thesis using at(4) by (fastforce simp: stats_answer_def)
  qed
qed

text \<open>
  C23: Statistics calls share their reads safely: in every interleaving of requests and readers, of the
  goroutines that \<open>readVolumeUsageWithTimeout\<close> started for one volume and path at most one still
  reads; and usage figures that a request for a path is answered with, its own call's or a joined
  one's, are those of a read of that path that found a live mount there and measured it.
\<close>

theorem stats_reads_are_shared:
  assumes "stats_reachable E s"
  shows "(made (sr_calls s) c = Some f \<and> made (sr_calls s) d = Some h \<and> in_flight f \<and> in_flight h
      \<and> sr_started s c = sr_started s d \<longrightarrow> c = d)
    \<and> (callers (sr_calls s) g = Answered k (Some (Inr u)) since \<and> sr_asked s g = (v, p) \<longrightarrow>
      (\<exists>sfs (w :: world) w1 (w2 :: world). u = usage_of sfs
        \<and> run_state (isStagingPathHealthy E p) w = (True, w1) \<and> hist w2 = EUsage p (Inr sfs) # hist w1))"
proof (intro conjI impI)
  assume "callers (sr_calls s) g = Answered k (Some (Inr u)) since \<and> sr_asked s g = (v, p)"
  then have "read_finds E p (Inr u)" by (elim conjE) (rule figures_of_own_path [OF assms])
  then obtain w w' :: world where "run_state (readVolumeUsageForStats E p) w = (Inr u, w')"
    unfolding read_finds_def by (elim exE)
  from usage_read [OF this]
  show "\<exists>sfs (w :: world) w1 (w2 :: world). u = usage_of sfs
      \<and> run_state (isStagingPathHealthy E p) w = (True, w1) \<and> hist w2 = EUsage p (Inr sfs) # hist w1" by blast
qed (use one_read_in_flight [OF assms] in blast)

theorem stats_reads_are_shared_witness:
  "\<exists>s g k u since sfs (w :: world) w1. stats_reachable calm_env s
     \<and> callers (sr_calls s) g = Answered k (Some (Inr u)) since \<and> sr_asked s g = (''v'', ''/s'')
     \<and> u = usage_of sfs \<and> run_state (isStagingPathHealthy calm_env ''/s'') w = (True, w1)"
proof -
  let ?w = "\<lparr>hist = [], probes = []\<rparr> :: world"
  let ?run = "run_state (waitVolumeStatsCall calm_env ''v'' (readVolumeUsageForStats calm_env ''/s'')) ?w"
  obtain u w' where run: "?run = (Inr u, w')"
  proof (cases "fst ?run")
    case (Inl e)
    have "isl (fst ?run) = False" by code_simp
    with Inl show thesis by simp
  next
    case (Inr u)
    with that [of u "snd ?run"] show thesis by (metis prod.collapse)
  qed
  have "callers (sr_calls no_stats) 0 = Away"
    "entries (sr_calls no_stats) \<lparr>sr_volumeID = ''v'', sr_volumePath = ''/s''\<rparr> = None"
    by (simp_all add: no_stats_def no_calls_def)
  from sequential_request_is_a_run [OF stats_reachable.start this run]
  obtain s k a since c where s: "stats_reachable calm_env s" "sr_asked s 0 = (''v'', ''/s'')"
    "callers (sr_calls s) 0 = Answered k a since" "stats_answer c ''v'' a = Inr u"
    by blast
  have "a = Some (Inr u)" using s(4) by (simp add: stats_answer_def split: option.splits)
  with s(3) have ans: "callers (sr_calls s) 0 = Answered k (Some (Inr u)) since" by simp
  then have "\<exists>sfs (w :: world) w1 (w2 :: world). u = usage_of sfs
      \<and> run_state (isStagingPathHealthy calm_env ''/s'') w = (True, w1) \<and> hist w2 = EUsage ''/s'' (Inr sfs) # hist w1"
    using stats_reads_are_shared [OF s(1), of _ _ _ _ 0 k u since "''v''" "''/s''"] s(2) by (simp only: simp_thms)
  then obtain sfs and w :: world and w1 where "u = usage_of sfs"
    "run_state (isStagingPathHealthy calm_env ''/s'') w = (True, w1)" by (elim exE conjE)
  with s(1,2) ans show ?thesis by (intro exI conjI)
qed

end
