(* ===== verification/ManagerSpec.thy ===== *)
theory ManagerSpec
  imports Service
begin

text \<open>
  What the mount service promises its clients, as an abstract specification: a map from volumes
  to what they are mounted with, from which entries vanish only when their process has gone.
  Every sequence of calls over any link, under every schedule of the service's goroutines, is a run
  of the specification.
\<close>

section \<open>The specification\<close>

record svc =
  held :: "string \<Rightarrow> mountEntry option"
  gone :: "nat set"

datatype svc_call = CMount MountRequest | CUnmount string | CList
datatype svc_answer = Mounted string | Unmounted | Listed "MountInfo list" | Failed err

text \<open>What happens by itself: processes go, and the entries of gone processes may vanish.\<close>

definition decays :: "svc \<Rightarrow> svc \<Rightarrow> bool" where
  "decays s s' \<longleftrightarrow> gone s \<subseteq> gone s' \<and> (\<forall>v. held s' v = held s v
     \<or> held s' v = None \<and> (\<exists>en. held s v = Some en \<and> me_process en \<in> gone s'))"

definition unused :: "svc \<Rightarrow> nat \<Rightarrow> bool" where
  "unused s pid \<longleftrightarrow> pid \<notin> gone s \<and> (\<forall>v en. held s v = Some en \<longrightarrow> me_process en \<noteq> pid)"

text \<open>
  A mount is answered with the live entry there is or, where there is none, with the entry of a new
  process, which was not in use before and may itself have gone again when the answer comes; an
  unmount leaves no entry; a list is exactly the live entries. A call that fails has been refused,
  or was done and its reply lost.
\<close>

inductive svc_step :: "svc \<Rightarrow> svc_call \<Rightarrow> svc_answer \<Rightarrow> svc \<Rightarrow> bool" where
  reuse: "decays s s' \<Longrightarrow> held s' (mr_VolumeID req) = Some en \<Longrightarrow>
    me_targetPath en = mr_TargetPath req \<Longrightarrow> me_process en \<notin> gone s' \<Longrightarrow>
    svc_step s (CMount req) (Mounted (me_localSocket en)) s'"
| start: "decays s s' \<Longrightarrow> held s' (mr_VolumeID req) = None \<Longrightarrow> unused s pid \<Longrightarrow>
    svc_step s (CMount req) (Mounted (mr_LocalSocket req))
      (s'\<lparr>held := (held s')(mr_VolumeID req \<mapsto> entry_for req pid)\<rparr>)"
| stop: "decays s s' \<Longrightarrow> held s' v = None \<Longrightarrow> svc_step s (CUnmount v) Unmounted s'"
| list: "decays s s' \<Longrightarrow>
    set infos = {mount_info en | v en. held s v = Some en \<and> me_process en \<notin> gone s'} \<Longrightarrow>
    distinct (map mi_VolumeID infos) \<Longrightarrow> svc_step s CList (Listed infos) s'"
| refuse: "decays s s' \<Longrightarrow> svc_step s c (Failed e) s'"
| lose: "svc_step s c a s' \<Longrightarrow> svc_step s c (Failed e) s'"

inductive svc_run :: "svc \<Rightarrow> (svc_call \<times> svc_answer) list \<Rightarrow> svc \<Rightarrow> bool" where
  none: "svc_run s [] s"
| next_call: "svc_step s c a s1 \<Longrightarrow> svc_run s1 tr s' \<Longrightarrow> svc_run s ((c, a) # tr) s'"

inductive_cases svc_run_ConsE: "svc_run s (x # tr) s'"

lemma decays_refl: "decays s s"
  by (simp add: decays_def)

lemma decays_gone: "decays s s' \<Longrightarrow> gone s \<subseteq> gone s'"
  by (simp add: decays_def)

lemma decays_held:
  "decays s s' \<Longrightarrow> held s v = Some en \<Longrightarrow> me_process en \<notin> gone s' \<Longrightarrow> held s' v = Some en"
  unfolding decays_def by (metis option.inject)

lemma svc_step_gone: "svc_step s c a s' \<Longrightarrow> gone s \<subseteq> gone s'"
  by (induction rule: svc_step.induct) (auto dest: decays_gone)

lemma svc_run_gone: "svc_run s tr s' \<Longrightarrow> gone s \<subseteq> gone s'"
  by (induction rule: svc_run.induct) (auto dest: svc_step_gone)

text \<open>Only an unmount of the volume or the end of its process ends a mount.\<close>

lemma svc_step_keeps:
  "svc_step s c a s' \<Longrightarrow> held s v = Some en \<Longrightarrow> me_process en \<notin> gone s' \<Longrightarrow> c \<noteq> CUnmount v \<Longrightarrow>
   held s' v = Some en"
  by (induction rule: svc_step.induct) (auto dest: decays_held)

lemma svc_run_keeps:
  "svc_run s tr s' \<Longrightarrow> held s v = Some en \<Longrightarrow> me_process en \<notin> gone s' \<Longrightarrow>
   CUnmount v \<notin> fst ` set tr \<Longrightarrow> held s' v = Some en"
proof (induction rule: svc_run.induct)
  case (next_call s c a s1 tr s')
  then have "me_process en \<notin> gone s1" using svc_run_gone by blast
  then show ?case using next_call svc_step_keeps by fastforce
qed simp

section \<open>The service\<close>

fun call_service ::
  "codec \<Rightarrow> (event list \<Rightarrow> link) \<Rightarrow> env \<Rightarrow> procenv \<Rightarrow> string \<Rightarrow> svc_call \<Rightarrow> ('m, svc_answer) mio" where
  "call_service C net E P bin (CMount req) = do {
     r \<leftarrow> client_Mount C net E P bin req;
     ret (case r of Inl e \<Rightarrow> Failed e | Inr sock \<Rightarrow> Mounted sock)
   }"
| "call_service C net E P bin (CUnmount v) = do {
     r \<leftarrow> client_Unmount C net E P bin v;
     ret (case r of Some e \<Rightarrow> Failed e | None \<Rightarrow> Unmounted)
   }"
| "call_service C net E P bin CList = do {
     r \<leftarrow> client_List C net E P bin;
     ret (case r of Inl e \<Rightarrow> Failed e | Inr infos \<Rightarrow> Listed infos)
   }"

fun call_all ::
  "codec \<Rightarrow> (event list \<Rightarrow> link) \<Rightarrow> env \<Rightarrow> procenv \<Rightarrow> string \<Rightarrow> svc_call list \<Rightarrow>
   ('m, svc_answer list) mio" where
  "call_all C net E P bin [] = ret []"
| "call_all C net E P bin (c # cs) = do {
     a \<leftarrow> call_service C net E P bin c;
     as \<leftarrow> call_all C net E P bin cs;
     ret (a # as)
   }"

text \<open>What a manager's state means.\<close>

definition service_of :: "'m manager_scheme \<Rightarrow> svc" where
  "service_of w = \<lparr>held = map_of (mounts w), gone = {pid. exited pid w}\<rparr>"

lemma service_of_simps [simp]:
  "held (service_of w) = map_of (mounts w)" "pid \<in> gone (service_of w) \<longleftrightarrow> exited pid w"
  by (simp_all add: service_of_def)

section \<open>The service refines its specification\<close>

lemma live_kept_decays:
  assumes "mgr_inv w" and "live_kept w w'"
  shows "decays (service_of w) (service_of w')"
proof -
  note ev = live_kept_evolved [OF assms(2)]
  have held: "map_of (mounts w') v = map_of (mounts w) v
    \<or> map_of (mounts w') v = None \<and> (\<exists>en. map_of (mounts w) v = Some en \<and> exited (me_process en) w')" for v
  proof (cases "map_of (mounts w') v")
    case None
    have "exited (me_process en) w'" if "map_of (mounts w) v = Some en" for en
    proof -
      have "(v, en) \<notin> set (mounts w')" using None by (auto simp: map_of_eq_None_iff rev_image_eqI)
      then have "is_done (me_process en) w'"
        using map_of_SomeD [OF that] assms(2) by (auto simp: live_kept_def)
      then show ?thesis using done_exited evolvedD(1) [OF ev] by blast
    qed
    then show ?thesis using None by (cases "map_of (mounts w) v") auto
  next
    case (Some en)
    then have "(v, en) \<in> set (mounts w)" using evolvedD(2) [OF ev] by (auto dest!: map_of_SomeD)
    then show ?thesis using Some assms(1) by (simp add: mgr_inv_def)
  qed
  then show ?thesis
    using exited_grow [OF evolvedD(5) [OF ev]] by (auto simp: decays_def service_of_def)
qed

lemma Mount_step:
  assumes inv: "mgr_inv w" and run: "run_state (Mount E P bin (Some req)) w = (r, w')"
  shows "svc_step (service_of w) (CMount req)
    (case r of Inl e \<Rightarrow> Failed e | Inr sock \<Rightarrow> Mounted sock) (service_of w') \<and> mgr_inv w'"
proof (cases rule: Mount_outcome [OF assms, case_names failed live new])
  case (failed e)
  then show ?thesis
    using refuse [OF live_kept_decays [OF inv failed(3)]] evolvedD(1) [OF failed(2)] by simp
next
  case (live en)
  then show ?thesis
    using reuse [OF live_kept_decays [OF inv live(4)], of req en] evolvedD(1) [OF live(2)]
    by (simp add: reused_def)
next
  case (new pid s)
  have "procs w pid = None"
    using inv new(3) unfolding mgr_inv_def fresh_process_def
    by (metis linorder_not_less not_None_eq)
  moreover have below: "me_process en < next_pid w" if "map_of (mounts w) v = Some en" for v en
    using known_below [OF inv, of "(v, en)"] map_of_SomeD [OF that] inv by (auto simp: mgr_inv_def)
  ultimately have "unused (service_of w) pid"
    using new(3) by (auto simp: unused_def exited_def fresh_process_def dest!: below)
  from start [OF live_kept_decays [OF inv new(5)] _ this, of req] new(6)
  have "svc_step (service_of w) (CMount req) (Mounted (mr_LocalSocket req))
    ((service_of s)\<lparr>held := (held (service_of s))(mr_VolumeID req \<mapsto> entry_for req pid)\<rparr>)" by simp
  moreover have "(service_of s)\<lparr>held := (held (service_of s))(mr_VolumeID req \<mapsto> entry_for req pid)\<rparr>
      = service_of w'"
    unfolding new(4) by (simp add: service_of_def with_entry_def update_conv' exited_def)
  moreover have "mgr_inv w'"
    unfolding new(4) by (rule with_entry_inv [OF evolvedD(1) [OF new(2)] refl new(3)])
  ultimately show ?thesis using new(1) by simp
qed

lemma Unmount_step:
  assumes inv: "mgr_inv w" and run: "run_state (Unmount E P (Some v)) w = (r, w')"
  shows "svc_step (service_of w) (CUnmount v)
    (case r of Some e \<Rightarrow> Failed e | None \<Rightarrow> Unmounted) (service_of w') \<and> mgr_inv w'"
  using Unmount_outcome(1,2,5) [OF assms] live_kept_decays [OF inv] evolvedD(1)
  by (cases r) (auto intro: svc_step.stop svc_step.refuse)

lemma List_step:
  assumes inv: "mgr_inv w" and run: "run_state (List E) w = (infos, w')"
  shows "svc_step (service_of w) CList (Listed infos) (service_of w') \<and> mgr_inv w'"
proof -
  have "keeps (live_kept w) (List E)" unfolding List_def by (intro keeps_rules survival.keeps_pause)
  then have kept: "live_kept w w'" using live_kept_refl [OF inv] run by (rule keepsD)
  show ?thesis
    using svc_step.list [OF live_kept_decays [OF inv kept]] evolvedD(1) [OF live_kept_evolved [OF kept]]
      List_reports_live_mounts [OF assms]
    by simp
qed

text \<open>Over a link a call is the manager's, with the same answer or a failure.\<close>

lemma seen_answer:
  "seen l q r \<Longrightarrow> r = q \<or> isl r"
  by (cases l) (auto simp: seen_def split: sum.splits)

lemma client_List_seen:
  assumes "codec_ok C" and "run_state (client_List C net E P bin) w = (r, w')"
  shows "(\<exists>infos. run_state (List E) w = (infos, w') \<and> (\<not> isl r \<longrightarrow> r = Inr infos)) \<or> w' = w \<and> isl r"
  using assms
  by (cases "net (hist w)")
     (auto simp: client_List_def exchange_def serve_http_def list_result_def codec_ok_def split: prod.splits)

lemma svc_step_failed:
  "svc_step s c a s' \<Longrightarrow> b = a \<or> (\<exists>e. b = Failed e) \<Longrightarrow> svc_step s c b s'"
  using lose by blast

lemma call_service_step:
  assumes codec: "codec_ok C" and inv: "mgr_inv w"
    and run: "run_state (call_service C net E P bin c) w = (a, w')"
  shows "svc_step (service_of w) c a (service_of w') \<and> mgr_inv w'"
proof (cases c)
  case (CMount req)
  then obtain r where r: "run_state (client_Mount C net E P bin req) w = (r, w')"
    and a: "a = (case r of Inl e \<Rightarrow> Failed e | Inr sock \<Rightarrow> Mounted sock)"
    using run by (auto split: prod.splits)
  from client_Mount_seen [OF codec r] show ?thesis
  proof (elim disjE exE conjE)
    fix q assume q: "run_state (Mount E P bin (Some req)) w = (q, w')" "seen (net (hist w)) q r"
    show ?thesis
      using Mount_step [OF inv q(1)] seen_answer [OF q(2)] svc_step_failed unfolding CMount a
      by (cases r) auto
  qed (use inv CMount a in \<open>auto simp: isl_def svc_step.refuse [OF decays_refl]\<close>)
next
  case (CUnmount v)
  then obtain r where r: "run_state (client_Unmount C net E P bin v) w = (r, w')"
    and a: "a = (case r of Some e \<Rightarrow> Failed e | None \<Rightarrow> Unmounted)"
    using run by (auto split: prod.splits)
  from client_Unmount_seen [OF codec r] show ?thesis
  proof (elim disjE exE conjE)
    fix q assume q: "run_state (Unmount E P (Some v)) w = (q, w')"
      "seen (net (hist w)) (case q of Some e \<Rightarrow> Inl e | None \<Rightarrow> Inr ()) (case r of Some e \<Rightarrow> Inl e | None \<Rightarrow> Inr ())"
    show ?thesis
      using Unmount_step [OF inv q(1)] seen_answer [OF q(2)] svc_step_failed unfolding CUnmount a
      by (cases r; cases q) auto
  qed (use inv CUnmount a in \<open>auto simp: svc_step.refuse [OF decays_refl]\<close>)
next
  case CList
  then obtain r where r: "run_state (client_List C net E P bin) w = (r, w')"
    and a: "a = (case r of Inl e \<Rightarrow> Failed e | Inr infos \<Rightarrow> Listed infos)"
    using run by (auto split: prod.splits)
  from client_List_seen [OF codec r] show ?thesis
  proof (elim disjE exE conjE)
    fix infos assume q: "run_state (List E) w = (infos, w')" and s: "\<not> isl r \<longrightarrow> r = Inr infos"
    show ?thesis
      using List_step [OF inv q] s svc_step_failed unfolding CList a by (cases r) auto
  qed (use inv CList a in \<open>auto simp: isl_def svc_step.refuse [OF decays_refl]\<close>)
qed

lemma call_all_run:
  assumes "codec_ok C" and "mgr_inv w" and "run_state (call_all C net E P bin cs) w = (as, w')"
  shows "svc_run (service_of w) (zip cs as) (service_of w') \<and> mgr_inv w' \<and> length as = length cs"
  using assms(2,3)
proof (induction cs arbitrary: w as)
  case (Cons c cs)
  obtain a w1 where a: "run_state (call_service C net E P bin c) w = (a, w1)" by fastforce
  then obtain bs where bs: "run_state (call_all C net E P bin cs) w1 = (bs, w')" and as: "as = a # bs"
    using Cons(3) by (auto split: prod.splits)
  from call_service_step [OF assms(1) Cons(2) a]
  have step: "svc_step (service_of w) c a (service_of w1)" "mgr_inv w1" by blast+
  show ?case
    using svc_run.next_call [OF step(1)] Cons(1) [OF step(2) bs] as by simp
qed (auto intro: svc_run.none)

section \<open>Properties\<close>

text \<open>
  C3: The mount service refines its specification: whatever the clients call in whatever order, over
  a link that may lose requests and replies, and under every schedule of process exits, cleanups
  and watchers, the answers are those of a run of the abstract service from the meaning of the
  first state to the meaning of the last. So a mount is answered with the socket of an entry whose
  process has not exited, or of the entry of a process started for this very call, which may have
  exited since its mount appeared; never with an entry whose process ended before. A list is
  exactly the entries whose process has not exited, and entries go only by an unmount or the end of
  their process.
\<close>

theorem mount_service_refines_specification:
  assumes "codec_ok C" and "mgr_inv w" and "run_state (call_all C net E P bin cs) w = (as, w')"
  shows "svc_run (service_of w) (zip cs as) (service_of w') \<and> length as = length cs"
  using call_all_run [OF assms] by blast

definition demo_calls :: "svc_call list" where
  "demo_calls = [CMount demo_request, CUnmount ''v'', CList]"

theorem mount_service_refines_specification_witness:
  "\<exists>as s'. svc_run \<lparr>held = \<lambda>_. None, gone = {}\<rparr> (zip demo_calls as) s' \<and> length as = 3"
proof -
  have start: "service_of (new_manager []) = \<lparr>held = \<lambda>_. None, gone = {}\<rparr>"
    by (simp add: service_of_def new_manager_def exited_def)
  have "length demo_calls = 3" by (simp add: demo_calls_def)
  then show ?thesis
    using mount_service_refines_specification [OF demo_codec_ok mgr_inv_new [of "[]"] prod.collapse [symmetric],
        where net = demo_net and E = calm_env and P = calm_proc and bin = "''weed''" and cs = demo_calls]
      start
    by metis
qed

text \<open>
  C10: A mount that was reported done lasts: from then on, whatever else is asked of the service, for
  this volume or for others, the volume keeps its entry, with the target asked for and the socket
  that was answered (that of the first mount, if a live entry was found), as long as its process
  has not exited and nobody asks to unmount it. In particular a repeated mount, a mount or unmount
  of another volume and the watchers of older processes leave it alone.
\<close>

theorem mounted_volume_stays_mounted:
  assumes "codec_ok C" and "mgr_inv w"
    and "run_state (client_Mount C net E P bin req) w = (Inr sock, w1)"
    and "run_state (call_all C net E P bin cs) w1 = (as, w2)" and "CUnmount (mr_VolumeID req) \<notin> set cs"
  shows "\<exists>en. map_of (mounts w1) (mr_VolumeID req) = Some en \<and> me_targetPath en = mr_TargetPath req
    \<and> me_localSocket en = sock
    \<and> (exited (me_process en) w2 \<or> map_of (mounts w2) (mr_VolumeID req) = Some en)"
proof -
  have m: "run_state (Mount E P bin (Some req)) w = (Inr sock, w1)"
    using client_Mount_success [OF assms(1,3)] .
  obtain en where en: "map_of (mounts w1) (mr_VolumeID req) = Some en"
    "me_targetPath en = mr_TargetPath req" "me_localSocket en = sock"
    using Mount_entry [OF assms(2) m] by blast
  have "mgr_inv w1" using Mount_step [OF assms(2) m] by blast
  from call_all_run [OF assms(1) this assms(4)]
  have run: "svc_run (service_of w1) (zip cs as) (service_of w2)" by blast
  have "CUnmount (mr_VolumeID req) \<notin> fst ` set (zip cs as)"
    using assms(5) by (auto dest: set_zip_leftD)
  with svc_run_keeps [OF run, of "mr_VolumeID req" en] en show ?thesis by auto
qed

text \<open>A volume mounted after its dead process was cleared, mounted again and listed.\<close>

theorem mounted_volume_stays_mounted_witness:
  "fst (demo_client_Mount (snd (demo_client_Unmount (demo_manager True)))) = Inr ''/s''
     \<and> (\<exists>(w1 :: manager) en. map_of (mounts w1) ''v'' = Some en
       \<and> (exited (me_process en) (snd (run_state (call_all demo_codec demo_net calm_env calm_proc ''weed''
             [CMount demo_request, CList]) w1))
          \<or> map_of (mounts (snd (run_state (call_all demo_codec demo_net calm_env calm_proc ''weed''
             [CMount demo_request, CList]) w1))) ''v'' = Some en))"
proof -
  let ?w = "snd (demo_client_Unmount (demo_manager True))"
  have m: "run_state (client_Mount demo_codec demo_net calm_env calm_proc ''weed'' demo_request) ?w
      = (Inr ''/s'', snd (demo_client_Mount ?w))"
    using demo_remount(2) unfolding demo_client_Mount_def by (metis prod.collapse)
  have "codec_ok demo_codec \<and> mgr_inv ?w"
    using keepsD [OF client_keeps(2) _ demo_remount(1) [unfolded demo_client_Unmount_def], folded demo_client_Unmount_def]
      demo_codec_ok demo_inv by blast
  then have inv: "mgr_inv ?w" by blast
  have v: "mr_VolumeID demo_request = ''v''" by (simp add: demo_request_def)
  have "CUnmount (mr_VolumeID demo_request) \<notin> set [CMount demo_request, CList]" by simp
  from mounted_volume_stays_mounted [OF demo_codec_ok inv m prod.collapse [symmetric] this]
  show ?thesis using demo_remount(2) unfolding v by blast
qed

end
