(* ===== verification/ErrorProps.thy ===== *)
theory ErrorProps
  imports HandlerProps ControllerProps
begin

text \<open>
  What an error of the node or the controller service tells its caller, and what it leaves behind.
\<close>

section \<open>The node service\<close>

declare staged_frame [rule del]

lemma staged_tables [dest!]:
  assumes "run_state (stageNewVolume L ord E driver v path ctx ro) w = (r, w')"
  shows "volumes w' = volumes w \<and> recoveryBackoff w' = recoveryBackoff w
    \<and> (\<forall>vol. r = Inr vol \<longrightarrow> vol_publishPaths vol = [])"
  using stageNewVolume_result assms same_tables [OF same.keeps_stageNewVolume assms]
  by (metis staged_volume_def)

text \<open>A failure: a gRPC status, and nothing recorded.\<close>

definition failed_cleanly :: "'n node_scheme \<Rightarrow> err \<Rightarrow> 'n node_scheme \<Rightarrow> bool" where
  "failed_cleanly w err w' \<longleftrightarrow> status_code err \<in> Some ` {InvalidArgument, PermissionDenied, Internal}
     \<and> volumes w' = volumes w \<and> recoveryBackoff w' = recoveryBackoff w"

definition refused :: "'n node_scheme \<Rightarrow> ('n, err option) nio \<Rightarrow> bool" where
  "refused w m \<longleftrightarrow> (\<exists>err. run_state m w = (Some err, w) \<and> status_code err = Some InvalidArgument)"

lemma stage_fails_cleanly:
  "run_state (NodeStageVolume L ord E driver req) w = (Some err, w') \<Longrightarrow> failed_cleanly w err w'"
  by (auto simp: failed_cleanly_def NodeStageVolume_def stage_error_def Let_def node_steps
      split: option.splits if_splits prod.splits sum.splits)

lemma publish_volume_fails:
  "run_state (publish_volume L ord E driver req cap) w = (r, w') \<Longrightarrow>
   recoveryBackoff w' = recoveryBackoff w
   \<and> (volumes w' = volumes w \<or> (\<exists>vol. map_of (volumes w) (pb_VolumeId req) = None
        \<and> volumes w' = AList.update (pb_VolumeId req) vol (volumes w) \<and> vol_publishPaths vol = []))
   \<and> (\<forall>err. r = Inl err \<longrightarrow> status_code err = Some Internal)"
  by (auto simp: publish_volume_def Let_def node_steps rebuildVolumeFromStaging_def
      split: option.splits if_splits prod.splits sum.splits)

lemma publish_fails_cleanly:
  "run_state (NodePublishVolume L ord E driver req) w = (Some err, w') \<Longrightarrow>
   failed_cleanly w err w' \<or> (\<exists>vol. map_of (volumes w) (pb_VolumeId req) = None
     \<and> failed_cleanly (w\<lparr>volumes := AList.update (pb_VolumeId req) vol (volumes w)\<rparr>) err w'
     \<and> vol_publishPaths vol = [])"
  by (auto simp: failed_cleanly_def NodePublishVolume_def Let_def node_steps
      split: option.splits if_splits prod.splits sum.splits dest!: publish_volume_fails)

lemma unpublish_fails_cleanly:
  "run_state (NodeUnpublishVolume E v path) w = (Some err, w') \<Longrightarrow> failed_cleanly w err w'"
  by (auto simp: failed_cleanly_def NodeUnpublishVolume_def Let_def node_steps
      split: option.splits if_splits prod.splits)

lemma unstage_fails_cleanly:
  "run_state (NodeUnstageVolume L E driver v path) w = (Some err, w') \<Longrightarrow> failed_cleanly w err w'"
  by (auto simp: failed_cleanly_def NodeUnstageVolume_def Let_def node_steps
      split: option.splits if_splits prod.splits)

text \<open>
  C25: Errors of the node service: a request that lacks a field is refused as an invalid argument
  with nothing done at all; every other failure of the four mount handlers is a gRPC status as
  well and leaves the volume map and the recovery backoff as they were, so that the kubelet's
  retry starts from the same state. The one exception is a publish that had to stage the volume
  first: the staged volume is kept, without the target as a publish path.
\<close>

theorem node_requests_fail_cleanly:
  shows "(st_VolumeCapability st = None \<or> st_VolumeId st = '''' \<or> st_StagingTargetPath st = '''' \<longrightarrow>
      refused w (NodeStageVolume L ord E driver st))
    \<and> (pb_VolumeCapability pb = None \<or> pb_VolumeId pb = '''' \<or> pb_TargetPath pb = ''''
        \<or> pb_StagingTargetPath pb = '''' \<longrightarrow> refused w (NodePublishVolume L ord E driver pb))
    \<and> (v = '''' \<or> path = '''' \<longrightarrow> refused w (NodeUnpublishVolume E v path)
        \<and> refused w (NodeUnstageVolume L E driver v path) \<and> refused w (NodeExpandVolume E v path n))
    \<and> (\<forall>err w'. run_state (NodeStageVolume L ord E driver st) w = (Some err, w')
        \<or> run_state (NodeUnpublishVolume E v path) w = (Some err, w')
        \<or> run_state (NodeUnstageVolume L E driver v path) w = (Some err, w') \<longrightarrow> failed_cleanly w err w')
    \<and> (\<forall>err w'. run_state (NodePublishVolume L ord E driver pb) w = (Some err, w') \<longrightarrow>
        failed_cleanly w err w' \<or> (\<exists>vol. map_of (volumes w) (pb_VolumeId pb) = None
          \<and> failed_cleanly (w\<lparr>volumes := AList.update (pb_VolumeId pb) vol (volumes w)\<rparr>) err w'
          \<and> vol_publishPaths vol = []))"
proof (intro conjI)
  show "st_VolumeCapability st = None \<or> st_VolumeId st = '''' \<or> st_StagingTargetPath st = '''' \<longrightarrow>
      refused w (NodeStageVolume L ord E driver st)"
    by (auto simp: refused_def NodeStageVolume_def Let_def split: option.splits)
  show "pb_VolumeCapability pb = None \<or> pb_VolumeId pb = '''' \<or> pb_TargetPath pb = ''''
      \<or> pb_StagingTargetPath pb = '''' \<longrightarrow> refused w (NodePublishVolume L ord E driver pb)"
    by (auto simp: refused_def NodePublishVolume_def Let_def split: option.splits)
  show "v = '''' \<or> path = '''' \<longrightarrow> refused w (NodeUnpublishVolume E v path)
      \<and> refused w (NodeUnstageVolume L E driver v path) \<and> refused w (NodeExpandVolume E v path n)"
    by (auto simp: refused_def NodeUnpublishVolume_def NodeUnstageVolume_def NodeExpandVolume_def)
  show "\<forall>err w'. run_state (NodeStageVolume L ord E driver st) w = (Some err, w')
      \<or> run_state (NodeUnpublishVolume E v path) w = (Some err, w')
      \<or> run_state (NodeUnstageVolume L E driver v path) w = (Some err, w') \<longrightarrow> failed_cleanly w err w'"
    by (intro allI impI, elim disjE)
       (rule stage_fails_cleanly unpublish_fails_cleanly unstage_fails_cleanly, assumption)+
  show "\<forall>err w'. run_state (NodePublishVolume L ord E driver pb) w = (Some err, w') \<longrightarrow>
      failed_cleanly w err w' \<or> (\<exists>vol. map_of (volumes w) (pb_VolumeId pb) = None
        \<and> failed_cleanly (w\<lparr>volumes := AList.update (pb_VolumeId pb) vol (volumes w)\<rparr>) err w'
        \<and> vol_publishPaths vol = [])"
    by (intro allI impI) (rule publish_fails_cleanly)
qed

text \<open>A node whose mount service refuses to unmount, and one asked to unstage nothing.\<close>

definition busy_env :: env where
  "busy_env = calm_env\<lparr>svc_Unmount := \<lambda>h v. Some (errorf ''busy'')\<rparr>"

theorem node_requests_fail_cleanly_witness:
  "refused demo_node (NodeUnstageVolume demo_libs busy_env demo_driver ''/buckets/v'' '''')
   \<and> (\<exists>err w'. run_state (NodeUnstageVolume demo_libs busy_env demo_driver ''/buckets/v'' ''/s'') demo_node
        = (Some err, w') \<and> failed_cleanly demo_node err w')"
proof -
  have run: "fst (run_state (NodeUnstageVolume demo_libs busy_env demo_driver ''/buckets/v'' ''/s'') demo_node)
      = Some (status_error Internal ''busy'')"
    by (simp add: NodeUnstageVolume_def node_steps demo_node_def demo_volume_def Unstage_def
        unmounter_Unmount_def busy_env_def)
  note errors = node_requests_fail_cleanly [where L = demo_libs and E = busy_env and driver = demo_driver
      and w = demo_node and v = "''/buckets/v''"]
  have "refused demo_node (NodeUnstageVolume demo_libs busy_env demo_driver ''/buckets/v'' '''')"
    using errors [where path = "''''"] by blast
  moreover have "failed_cleanly demo_node (status_error Internal ''busy'') w'"
    if "run_state (NodeUnstageVolume demo_libs busy_env demo_driver ''/buckets/v'' ''/s'') demo_node
      = (Some (status_error Internal ''busy''), w')" for w'
    using errors [where path = "''/s''"] that by blast
  ultimately show ?thesis using run by (metis prod.collapse)
qed

section \<open>The controller service\<close>

text \<open>What an action asks for, of the Kubernetes API only.\<close>

definition is_lookup :: "event \<Rightarrow> bool" where
  "is_lookup e \<longleftrightarrow> (case e of EK8sClient _ \<Rightarrow> True | EPVGet _ _ \<Rightarrow> True | EPVList _ \<Rightarrow> True | _ \<Rightarrow> False)"

lemma keeps_lookup:
  "(\<And>r. is_lookup (ev r)) \<Longrightarrow> keeps (since is_lookup h) (ext ask ev)"
  by (auto simp: keeps_def since_def)

lemma keeps_GetVolumeAttributes_lookup: "keeps (since is_lookup h) (GetVolumeAttributes L E d v)"
  unfolding GetVolumeAttributes_def newInCluster_def resolvePersistentVolume_def resolve_by_handle_def Let_def
  by (intro keeps_rules keeps_lookup) (simp_all add: is_lookup_def)

lemma Create_status:
  "run_state (CreateVolume L E driver req) w = (Inl err, w') \<Longrightarrow> status_code err \<noteq> None \<Longrightarrow> w' = w"
  by (auto simp: CreateVolume_def Let_def split: if_splits option.splits prod.splits)

lemma delete_entry_status:
  "run_state (delete_volume_entry L E driver v fs p) w = (Some err, w') \<Longrightarrow> status_code err = None"
  by (auto simp: delete_volume_entry_def split: prod.splits option.splits)

lemma Delete_status:
  "DeleteVolume L E driver v w = Some (Some err, w') \<Longrightarrow> status_code err \<noteq> None \<Longrightarrow> w' = w"
  by (auto simp: DeleteVolume_def split: if_splits option.splits prod.splits sum.splits
      dest: delete_entry_status)

text \<open>A request that stores the document of \<open>v\<close> on one of its filers, and was not answered with success.\<close>

definition rejected :: "nat list \<Rightarrow> event \<Rightarrow> bool" where
  "rejected okCodes e \<longleftrightarrow> (\<forall>q status body. e = EHttp q (Inr (status, body)) \<longrightarrow> status \<notin> set okCodes)"

definition rejected_put :: "libs \<Rightarrow> env \<Rightarrow> SeaweedFsDriver \<Rightarrow> string \<Rightarrow> gomap \<Rightarrow> event \<Rightarrow> bool" where
  "rejected_put L E driver v params e \<longleftrightarrow> rejected [200, 201] e \<and> (\<exists>q a f. e = EHttp q a
     \<and> hr_method q = ''PUT'' \<and> hr_body q = json_Marshal L params \<and> f \<in> set (vacFilersForVolume L driver v)
     \<and> hr_url q = (if use_tls (vac_cfg E) then ''https'' else ''http'') @ ''://'' @ ToHttpAddress L f @ vacPath v)"

lemma roundTrip_over_rejected:
  "run_state (roundTrip_over L E st method v body okCodes fs le) w = (Inl err, w') \<Longrightarrow> since (rejected okCodes) (hist w) w'"
proof (induction fs arbitrary: le w)
  case (Cons f fs)
  let ?target = "vs_scheme st @ ''://'' @ ToHttpAddress L f @ vacPath v"
  let ?q = "\<lparr>hr_method = method, hr_url = ?target, hr_body = body, hr_token = request_token E st method (hist w)\<rparr>"
  show ?case
  proof (cases "url_parse ?target = None")
    case True
    then show ?thesis using Cons.prems by auto
  next
    case False
    show ?thesis
    proof (cases "http_Do E (hist w) ?q")
      case (Inl e)
      then obtain le' where "run_state (roundTrip_over L E st method v body okCodes fs le')
          (w\<lparr>hist := EHttp ?q (Inl e) # hist w\<rparr>) = (Inl err, w')"
        using Cons.prems False by (auto simp: Let_def)
      from Cons.IH [OF this] show ?thesis
        by (rule since_trans [rotated]) (simp add: rejected_def)
    next
      case (Inr sb)
      then show ?thesis using Cons.prems False by (cases sb) (auto simp: Let_def rejected_def split: if_splits)
    qed
  qed
qed auto

lemma persist_rejected:
  assumes "run_state (persist_parameters L E driver v params) w = (Some err, w')"
  shows "since (rejected_put L E driver v params) (hist w) w'"
proof (cases "newFilerVacStore (vac_cfg E) (vacFilersForVolume L driver v)")
  case (Inl e)
  then show ?thesis using assms by (simp add: persist_parameters_def)
next
  case (Inr store)
  then obtain e where run: "run_state (roundTrip L E store ''PUT'' v (json_Marshal L params) [200, 201]) w = (Inl e, w')"
    using assms by (auto simp: persist_parameters_def vac_Write_def split: prod.splits sum.splits if_splits)
  from roundTrip_http [OF run] obtain evs where evs: "hist w' = evs @ hist w"
      "list_all (store_request L E store ''PUT'' v (json_Marshal L params)) evs" by blast
  with roundTrip_over_rejected [OF run [unfolded roundTrip_def]] have "list_all (rejected [200, 201]) evs"
    by (auto simp: since_def)
  with evs(2) new_store_fields(1,2) [OF Inr] have "list_all (rejected_put L E driver v params) evs"
    by (fastforce simp: list_all_iff rejected_put_def store_request_def)
  with evs(1) show ?thesis by (auto simp: since_def)
qed

lemma Modify_fails:
  assumes "run_state (ControllerModifyVolume L E driver v params) w = (Some err, w')"
  shows "status_code err = Some InvalidArgument \<and> since is_lookup (hist w) w'
    \<or> status_code err = Some Internal \<and> since (\<lambda>e. is_lookup e \<or> rejected_put L E driver v params e) (hist w) w'"
proof -
  obtain a w1 where a: "run_state (GetVolumeAttributes L E (dr_name driver) v) w = (a, w1)" by (metis surj_pair)
  have look: "since is_lookup (hist w) w1"
    by (rule keepsD [OF keeps_GetVolumeAttributes_lookup _ a]) simp
  then have look2: "since (\<lambda>e. is_lookup e \<or> rejected_put L E driver v params e) (hist w) w1"
    by (rule since_mono) simp
  have store: "since (\<lambda>e. is_lookup e \<or> rejected_put L E driver v params e) (hist w) w'"
    if "run_state (persist_parameters L E driver v params) w1 = (Some e, w')" for e
    using since_trans [OF look2 since_mono [OF persist_rejected [OF that]]] by simp
  show ?thesis
    using assms a look look2 store
    by (auto simp: ControllerModifyVolume_def Let_def split: if_splits option.splits prod.splits sum.splits)
qed

text \<open>
  C26: Errors of the controller service: a creation or deletion refused with a gRPC status has had no
  effect: it has asked nothing of a filer. A failed modification is an invalid argument, which has
  only read the persistent volume, or an internal error, which besides has at most sent this
  volume's own document to the volume's filers, and got no answer of success from any of them.
\<close>

theorem refused_controller_requests_change_nothing:
  shows "(\<forall>err w'. run_state (CreateVolume L E driver req) w = (Inl err, w') \<longrightarrow>
      status_code err \<noteq> None \<longrightarrow> w' = w)
    \<and> (\<forall>err w'. DeleteVolume L E driver v w = Some (Some err, w') \<longrightarrow> status_code err \<noteq> None \<longrightarrow> w' = w)
    \<and> (\<forall>err w'. run_state (ControllerModifyVolume L E driver v params) w = (Some err, w') \<longrightarrow>
      status_code err = Some InvalidArgument \<and> since is_lookup (hist w) w'
      \<or> status_code err = Some Internal
        \<and> since (\<lambda>e. is_lookup e \<or> rejected_put L E driver v params e) (hist w) w')"
  using Create_status [of L E driver req w] Delete_status [of L E driver v w]
    Modify_fails [of L E driver v params w] by blast

theorem refused_controller_requests_change_nothing_witness:
  "\<exists>err. DeleteVolume demo_libs calm_env demo_driver ''/buckets/'' start_world = Some (Some err, start_world)
     \<and> status_code err = Some InvalidArgument"
proof -
  have id: "DecodeVolumeID ''/buckets/'' = ('''', ''/buckets/'')" "path_clean ''/buckets/'' = ''/buckets''"
    by code_simp+
  have "\<exists>err w'. DeleteVolume demo_libs calm_env demo_driver ''/buckets/'' start_world = Some (Some err, w')
      \<and> status_code err = Some InvalidArgument"
    by (cases "ValidateControllerServiceRequest demo_driver CREATE_DELETE_VOLUME")
       (auto simp: DeleteVolume_def resolveVolume_def ValidateControllerServiceRequest_def id split: if_splits)
  then show ?thesis
    using refused_controller_requests_change_nothing [where L = demo_libs and E = calm_env
        and driver = demo_driver and v = "''/buckets/''" and w = start_world] by fastforce
qed

end
