(* ===== verification/ProcessLogs.thy ===== *)
theory ProcessLogs
  imports MountTable
begin

text \<open>
  The output of a weed process in the log (\<open>forwardLogs\<close> in pkg/mountmanager/manager.go): the
  scanner of theory MountTable over what arrives on a stream until it ends, which is at the latest
  when \<open>cmd.Wait\<close> closes the pipe. What is not read stays in the pipe, where the process
  blocks once the pipe is full.
\<close>

section \<open>Forwarding\<close>

text \<open>The messages logged, and the warning the goroutine ends with.\<close>

definition forwardLogs :: "string \<Rightarrow> string \<Rightarrow> string \<Rightarrow> string list \<times> string option" where
  "forwardLogs output volumeID stream =
     (case scan_lines output of (lines, too_long) \<Rightarrow>
        (map (\<lambda>line. ''['' @ volumeID @ ''] '' @ stream @ '': '' @ line) lines,
         if too_long then
           Some (''['' @ volumeID @ ''] error reading '' @ stream @ '': '' @ err_text ErrTooLong)
         else None))"

section \<open>Lemmas\<close>

definition plain_line :: "string \<Rightarrow> bool" where
  "plain_line l \<longleftrightarrow> CHR 0x0A \<notin> set l \<and> CHR 0x0D \<notin> set l"

lemma strip_plain: "plain_line l \<Longrightarrow> strip_cr l = l"
  unfolding plain_line_def strip_cr_def using last_in_set by fastforce

lemma scan_printed:
  assumes "list_all plain_line ls"
  shows "scan_lines (concat (map (\<lambda>l. l @ [CHR 0x0A]) ls))
    = (takeWhile (\<lambda>l. int (length l) < MaxScanTokenSize) ls,
       \<not> list_all (\<lambda>l. int (length l) < MaxScanTokenSize) ls)"
proof -
  have "split_on CHR 0x0A (concat (map (\<lambda>l. l @ [CHR 0x0A]) ls)) = ls @ [[]]"
    using assms by (intro split_newlines) (auto simp: list_all_iff plain_line_def)
  moreover have "map strip_cr (takeWhile P ls) = takeWhile P ls" for P
    using assms by (auto simp: list_all_iff strip_plain dest!: set_takeWhileD intro!: map_idI)
  ultimately show ?thesis by (simp add: scan_lines_def takeWhile_length_all)
qed

section \<open>Properties\<close>

text \<open>
  A process whose lines all fit the scanner's buffer has every one of them in the log, in order;
  the first line of 64 KiB or more is the last thing read: nothing of it nor after it is logged,
  whatever the process goes on to write.
\<close>

theorem oversized_line_ends_forwarding:
  assumes "list_all plain_line ls"
  shows "fst (forwardLogs (concat (map (\<lambda>l. l @ [CHR 0x0A]) ls)) volumeID stream)
      = map (\<lambda>l. ''['' @ volumeID @ ''] '' @ stream @ '': '' @ l)
          (takeWhile (\<lambda>l. int (length l) < MaxScanTokenSize) ls)
    \<and> (snd (forwardLogs (concat (map (\<lambda>l. l @ [CHR 0x0A]) ls)) volumeID stream) = None
      \<longleftrightarrow> list_all (\<lambda>l. int (length l) < MaxScanTokenSize) ls)"
  unfolding forwardLogs_def scan_printed [OF assms] by simp

theorem oversized_line_ends_forwarding_witness:
  "fst (forwardLogs (''a'' @ CHR 0x0A # replicate 65536 CHR ''x'' @ CHR 0x0A # ''b'' @ [CHR 0x0A]) ''v'' ''stderr'')
     = [''[v] stderr: a'']"
proof -
  have "list_all plain_line [''a'', replicate 65536 CHR ''x'', ''b'']" by (simp add: plain_line_def)
  from oversized_line_ends_forwarding [OF this, of "''v''" "''stderr''"] show ?thesis
    by (simp add: MaxScanTokenSize_def)
qed

end
