(* ===== verification/Spec2Isabelle.thy ===== *)
theory Spec2Isabelle
  imports Refinement RecoveryProgress Lifecycle Startup Shutdown Metrics SharedCalls ManagerSpec ErrorProps
    ProcessLogs
begin

text \<open>
  A verification development for the SeaweedFS CSI driver (Go, \<open>src/pkg\<close>).

  \<^bold>\<open>The program.\<close> Kubernetes asks the driver over CSI to create, stage, publish, expand and delete
  SeaweedFS volumes. The controller service works on the filer; the node service runs on every
  node, stages a volume by asking a separate mount service for a \<open>weed mount\<close> FUSE process, and
  publishes it by bind mounts into pods. A health monitor finds dead FUSE mounts, mounts them
  again, renews the bind mounts and swaps the stale mounts inside the containers. The mount
  service keeps one process per volume and outlives the node plugin, which adopts its live mounts
  when it starts again.

  \<^bold>\<open>The model.\<close> \<open>HostIO\<close> has the world: \<open>env\<close> answers every call that leaves \<open>src/\<close> (kernel, mount
  helpers, filer, Kubernetes, mount service, HTTP, clock) from the history of calls so far, so a
  theorem for all \<open>E\<close> holds for every behaviour of the outside; \<open>world\<close> records the history. A Go
  function is a \<open>State_Monad\<close> action, or a pure function where it has no effect; its error is a
  sum or an \<open>err option\<close> with the texts of the source. A loop that may not end is a
  \<open>partial_function (option)\<close>. Functions of packages outside \<open>src/\<close> that only compute are the
  record \<open>libs\<close>; base64, paths, URLs and integer formats are modelled in full (\<open>GoStd\<close>, \<open>GoUrl\<close>).
  Where the source ranges over a map, the order is the parameter \<open>ord\<close>.

  \<^bold>\<open>Theories and sources.\<close>
  \<^item> \<open>GoStd\<close>, \<open>GoUrl\<close>: strings, \<open>path\<close>, \<open>filepath\<close>, \<open>strconv\<close> and \<open>net/url\<close> as far as used.
  \<^item> \<open>HostIO\<close>: errors, wire types (mountmanager/types.go), the world, invariants through programs.
  \<^item> \<open>MountUtil\<close>: \<open>driver/mount_util.go\<close>, timeout.go and \<open>checkMount\<close>; \<open>RemovalSafety\<close>: the locales
    \<open>world_invariant\<close>, \<open>probe_world\<close>, \<open>note_world\<close>, \<open>os_world\<close>, \<open>call_world\<close>, \<open>mount_world\<close> and \<open>mount_invariant\<close> that
    carry a predicate through any run, by the kinds of call it survives, and removal safety.
  \<^item> \<open>MountManager\<close>, \<open>ManagerInvariant\<close>, \<open>ManagerProps\<close>: mountmanager/manager.go. The goroutines that
    wait for a process are background steps under an arbitrary schedule. \<open>ManagerSpec\<close>: the
    specification of the mount service and the simulation; \<open>ProcessLogs\<close>: \<open>forwardLogs\<close>.
  \<^item> \<open>KeyMutex\<close>: mountmanager/keymutex.go and the driver's lock table (driver/utils.go).
  \<^item> \<open>VolumeIds\<close>: volume IDs, cache and socket paths, endpoints (driver/utils.go,
    mountmanager/socket.go, endpoint.go).
  \<^item> \<open>Parameters\<close>: the mutable parameters and their checks (driver/controllerserver.go, vacstore.go,
    datalocality/mapping.go).
  \<^item> \<open>Driver\<close>: driver/driver.go, identityserver.go and small helpers; \<open>MountArgs\<close>: driver/mounter.go;
    \<open>Volumes\<close>: driver/volume.go; \<open>VacStore\<close>: driver/vacstore.go; \<open>K8s\<close>: k8s/client.go.
  \<^item> \<open>MountTable\<close>, \<open>Remount\<close>: \<open>driver/container_remount_linux.go\<close>.
  \<^item> \<open>NodeServer\<close>, \<open>NodeInvariants\<close>: driver/nodeserver.go; \<open>HealthMonitor\<close>, \<open>NodeProps\<close>,
    \<open>RecoveryProps\<close>, \<open>HandlerProps\<close>: \<open>driver/health_monitor.go\<close> and what handlers and recovery keep;
    \<open>Restore\<close>: driver/restore.go and \<open>NewNodeServer\<close>; \<open>VolumeStats\<close>: \<open>driver/volume_stats*.go\<close>;
    \<open>SharedCalls\<close>: the statfs probes and the usage reads that goroutines share, as a step relation.
  \<^item> \<open>Service\<close>: the HTTP handlers of \<open>cmd/seaweedfs-mount/main.go\<close> and mountmanager/client.go;
    \<open>Restart\<close>: the manager, the client and \<open>restoreVolumes\<close> together; \<open>Metrics\<close>: driver/metrics.go;
    \<open>Startup\<close>: both \<open>main\<close>s, \<open>Run\<close>, driver/server.go, identityserver.go, version.go; \<open>Shutdown\<close>: \<open>Run\<close>
    after the signal, \<open>NodeCleanup\<close> and the monitor's loop as interleaved goroutines.
  \<^item> \<open>Controller\<close>, \<open>ControllerProps\<close>: driver/controllerserver.go; \<open>Lifecycle\<close>: from \<open>CreateVolume\<close> to the
    command line of the mount. \<open>ErrorProps\<close>: the errors of both services and what they leave behind.
  \<^item> \<open>EndToEnd\<close>: the driver over a mount service whose manager answers its calls (\<open>with_service\<close>,
    \<open>manager_after\<close>), so that handlers, client, manager and restart are one system;
    \<open>RecoverySystem\<close>: the recovery over it. \<open>RecoveryProgress\<close>: a dead volume is repaired by the next
    check if the outside does what it is asked.
  \<^item> \<open>Refinement\<close>: the specification of the node service and the simulation.

  \<^bold>\<open>State.\<close> \<open>node\<close> is \<open>NodeServer\<close> (\<open>volumes\<close>, \<open>volumeMutexes\<close>, \<open>recoveryBackoff\<close>, the active checks);
  \<open>Volume\<close> is \<open>Volume\<close>; \<open>manager\<close> is \<open>Manager\<close> with its entries and processes; \<open>SeaweedFsDriver\<close> is the
  driver. \<open>sync.Map\<close>s are association lists with distinct keys (an invariant). The deduplication
  map of the statfs probe is \<open>probes\<close>, and \<open>calls\<close> where goroutines share it.

  \<^bold>\<open>What is shown.\<close> Safety: no handler and no recovery removes through a live mount; a live mount
  with publish paths is left alone; a restored mount is protected the same way; deleting a volume
  touches only that volume and its attributes document; remounts end in the driver's own mount namespace; a volume has at most
  one health check; a statfs probe only answers for the mount that is there, and a hung mount holds
  one probe; a mount reported done lasts until an unmount or the end of its process; a statistics
  request gets the figures of its own path, also from a read it shares; the tokens of the attribute
  store are for their filers, and with TLS no redirect takes one onto plain HTTP. Refinement: over any link and schedule the mount
  service answers as the specification of \<open>ManagerSpec\<close>; the recorded staging and publish paths follow the specification of
  \<open>Refinement\<close>, so a published path stays recorded until it is unpublished. Invariants: the volume
  map and the manager's table stay well formed under every operation. Functional behaviour of each
  handler on every branch; composition of create and delete, of create and mount, of modify and
  stage, of restart and recovery; end to end, a staged volume is adopted by the next plugin process,
  an unstaged one leaves the mount service and a recovered one has a new process there. Errors: a
  failed request of the node service records nothing, a creation or deletion refused by the
  controller service does nothing, and a failed modification stored nothing that a filer confirmed. Round trips: the volume ID codec, the mount table. Progress: a dead volume is mounted and
  bound again by its next check, a dead process's entry goes away. Termination: the paging that
  empties a bucket. Bounds: the recovery backoff, statfs figures on 64-bit words, quota, bucket names.

  \<^bold>\<open>Bounds and fuel.\<close> No fuel is used in a model of code. The only loop whose end depends on the
  outside, the paging of \<open>emptyBucketChildren\<close>, is partial, and shown to end for a filer that lists
  as it documents. \<open>waitForMount\<close> polls until the time limit of the source, its measure.

  \<^bold>\<open>Not modelled.\<close> gRPC, HTTP and JSON themselves, the parsing of flags and the shutdown of the
  mount service's HTTP server, which are libraries or I/O around the operations modelled; the log messages of the driver itself; a handler is one
  step run with its volume's mutex held (\<open>KeyMutex\<close> has the interleavings of the mutex itself and
  shows where it does not exclude); text is ASCII, but for the white space of the mount table. What each source file contributes is listed in
  the manifest.
\<close>

end
